(* ===== verification/A2A_Prelude.thy ===== *)
theory A2A_Prelude
  imports Main "HOL-Library.AList" "HOL-Library.Sublist" "HOL-Library.List_Lexorder"
    "HOL-Library.Char_ord" "HOL-Library.Product_Lexorder"
begin

text \<open>
  Shared vocabulary of the development: Python's truthiness, slices, integers as text and
  insertion-ordered dictionaries, and the small calculus in which the asynchronous methods of
  a2akit are written. A method is a function from a state to a result and a new state; the
  result is \<open>Inl\<close> of the exception that escaped or \<open>Inr\<close> of the returned value. State changes
  made before an exception stay, as in Python.
\<close>

named_theorems py_defs \<open>unfolding of the method calculus\<close>
named_theorems keeps_intros \<open>rules for relations that every method keeps\<close>

section \<open>Methods: results, exceptions, state\<close>

type_synonym ('s, 'e, 'a) py = "'s \<Rightarrow> ('e + 'a) \<times> 's"

definition ret :: "'a \<Rightarrow> ('s, 'e, 'a) py" where
  "ret x = (\<lambda>s. (Inr x, s))"

definition raise :: "'e \<Rightarrow> ('s, 'e, 'a) py" where
  "raise e = (\<lambda>s. (Inl e, s))"

text \<open>\<open>tryE m h k\<close>: run \<open>m\<close>; on an exception continue with \<open>h\<close>, otherwise with \<open>k\<close>. It is
  \<^verbatim>\<open>try: x = m except e: return h(e)\<close> followed by \<^verbatim>\<open>k(x)\<close>.\<close>

definition tryE ::
  "('s, 'e, 'a) py \<Rightarrow> ('e \<Rightarrow> ('s, 'e, 'b) py) \<Rightarrow> ('a \<Rightarrow> ('s, 'e, 'b) py) \<Rightarrow> ('s, 'e, 'b) py" where
  "tryE m h k = (\<lambda>s. case m s of (Inl e, s') \<Rightarrow> h e s' | (Inr x, s') \<Rightarrow> k x s')"

definition bindE :: "('s, 'e, 'a) py \<Rightarrow> ('a \<Rightarrow> ('s, 'e, 'b) py) \<Rightarrow> ('s, 'e, 'b) py" where
  "bindE m k = tryE m raise k"

definition catchE :: "('s, 'e, 'a) py \<Rightarrow> ('e \<Rightarrow> ('s, 'e, 'a) py) \<Rightarrow> ('s, 'e, 'a) py" where
  "catchE m h = tryE m h ret"

definition thenE :: "('s, 'e, 'a) py \<Rightarrow> ('s, 'e, 'b) py \<Rightarrow> ('s, 'e, 'b) py" where
  "thenE m k = bindE m (\<lambda>_. k)"

text \<open>\<open>finallyE m f\<close>: \<open>f\<close> runs in every case; an exception of \<open>f\<close> replaces the result.\<close>

definition finallyE :: "('s, 'e, 'a) py \<Rightarrow> ('s, 'e, unit) py \<Rightarrow> ('s, 'e, 'a) py" where
  "finallyE m f = (\<lambda>s. case m s of (r, s') \<Rightarrow>
     (case f s' of (Inl e, s'') \<Rightarrow> (Inl e, s'') | (Inr _, s'') \<Rightarrow> (r, s'')))"

definition gets :: "('s \<Rightarrow> 'a) \<Rightarrow> ('s, 'e, 'a) py" where
  "gets f = (\<lambda>s. (Inr (f s), s))"

definition modify :: "('s \<Rightarrow> 's) \<Rightarrow> ('s, 'e, unit) py" where
  "modify f = (\<lambda>s. (Inr (), f s))"

definition unless :: "bool \<Rightarrow> ('s, 'e, unit) py \<Rightarrow> ('s, 'e, unit) py" where
  "unless b m = (if b then ret () else m)"

lemmas [py_defs] = ret_def raise_def tryE_def bindE_def catchE_def thenE_def finallyE_def
  gets_def modify_def unless_def

lemma bindE_ret [simp]: "bindE (ret x) k = k x"
  by (simp add: py_defs)

lemma bindE_raise [simp]: "bindE (raise e) k = raise e"
  by (simp add: py_defs)

lemma catchE_ret [simp]: "catchE (ret x) h = ret x"
  by (simp add: py_defs)

lemma catchE_raise [simp]: "catchE (raise e) h = h e"
  by (simp add: py_defs)

subsection \<open>Relations between the state before and after a method\<close>

text \<open>
  \<open>keeps R m\<close>: whatever \<open>m\<close> does, return or raise, it takes the state along \<open>R\<close>. For a
  preorder \<open>R\<close> this is closed under all the constructs above, so a method keeps \<open>R\<close> as soon
  as the primitive operations it calls do.
\<close>

definition keeps :: "('s \<Rightarrow> 's \<Rightarrow> bool) \<Rightarrow> ('s, 'e, 'a) py \<Rightarrow> bool" where
  "keeps R m \<longleftrightarrow> (\<forall>s. R s (snd (m s)))"

lemma keepsI: "(\<And>s. R s (snd (m s))) \<Longrightarrow> keeps R m"
  by (simp add: keeps_def)

lemma keepsD: "keeps R m \<Longrightarrow> R s (snd (m s))"
  by (simp add: keeps_def)

lemma keepsE: "keeps R m \<Longrightarrow> m s = (r, s') \<Longrightarrow> R s s'"
  by (metis keepsD snd_conv)

locale preorder_rel =
  fixes R :: "'s \<Rightarrow> 's \<Rightarrow> bool"
  assumes R_refl: "R s s"
    and R_trans: "R s t \<Longrightarrow> R t u \<Longrightarrow> R s u"
begin

lemma keeps_ret [keeps_intros]: "keeps R (ret x)"
  by (simp add: keeps_def ret_def R_refl)

lemma keeps_raise [keeps_intros]: "keeps R (raise e)"
  by (simp add: keeps_def raise_def R_refl)

lemma keeps_gets [keeps_intros]: "keeps R (gets f)"
  by (simp add: keeps_def gets_def R_refl)

lemma keeps_tryE [keeps_intros]:
  assumes "keeps R m" and "\<And>e. keeps R (h e)" and "\<And>x. keeps R (k x)"
  shows "keeps R (tryE m h k)"
proof (rule keepsI)
  fix s
  show "R s (snd (tryE m h k s))"
  proof (cases "m s")
    case (Pair r t)
    then have st: "R s t" using assms(1) by (rule keepsE [rotated])
    show ?thesis
    proof (cases r)
      case (Inl e)
      with Pair show ?thesis
        using R_trans [OF st keepsD [OF assms(2)]] by (simp add: tryE_def)
    next
      case (Inr x)
      with Pair show ?thesis
        using R_trans [OF st keepsD [OF assms(3)]] by (simp add: tryE_def)
    qed
  qed
qed

lemma keeps_bindE [keeps_intros]:
  "keeps R m \<Longrightarrow> (\<And>x. keeps R (k x)) \<Longrightarrow> keeps R (bindE m k)"
  by (simp add: bindE_def keeps_tryE keeps_raise)

lemma keeps_catchE [keeps_intros]:
  "keeps R m \<Longrightarrow> (\<And>e. keeps R (h e)) \<Longrightarrow> keeps R (catchE m h)"
  by (simp add: catchE_def keeps_tryE keeps_ret)

lemma keeps_thenE [keeps_intros]: "keeps R m \<Longrightarrow> keeps R k \<Longrightarrow> keeps R (thenE m k)"
  by (simp add: thenE_def keeps_bindE)

lemma keeps_finallyE [keeps_intros]:
  assumes "keeps R m" and "keeps R f"
  shows "keeps R (finallyE m f)"
proof (rule keepsI)
  fix s
  obtain r t where m: "m s = (r, t)" by fastforce
  obtain q u where f: "f t = (q, u)" by fastforce
  have "R s u"
    using R_trans [OF keepsE [OF assms(1) m] keepsE [OF assms(2) f]] .
  with m f show "R s (snd (finallyE m f s))"
    by (simp add: finallyE_def split: sum.split)
qed

lemma keeps_if [keeps_intros]:
  "(b \<Longrightarrow> keeps R m) \<Longrightarrow> (\<not> b \<Longrightarrow> keeps R k) \<Longrightarrow> keeps R (if b then m else k)"
  by simp

lemma keeps_unless [keeps_intros]: "keeps R m \<Longrightarrow> keeps R (unless b m)"
  by (simp add: unless_def keeps_ret)

lemma keeps_case_option [keeps_intros]:
  "keeps R m \<Longrightarrow> (\<And>x. keeps R (k x)) \<Longrightarrow> keeps R (case z of None \<Rightarrow> m | Some x \<Rightarrow> k x)"
  by (cases z) simp_all

lemma keeps_case_sum [keeps_intros]:
  "(\<And>e. keeps R (h e)) \<Longrightarrow> (\<And>x. keeps R (k x)) \<Longrightarrow> keeps R (case z of Inl e \<Rightarrow> h e | Inr x \<Rightarrow> k x)"
  by (cases z) simp_all

lemma keeps_case_prod [keeps_intros]:
  "(\<And>x y. keeps R (k x y)) \<Longrightarrow> keeps R (case z of (x, y) \<Rightarrow> k x y)"
  by (cases z) simp

end

subsection \<open>Weakest preconditions\<close>

text \<open>
  \<open>wp m Q E s\<close>: run from \<open>s\<close>, \<open>m\<close> returns a value with \<open>Q\<close> or raises an exception with \<open>E\<close>. The equations
  of the collection \<open>wp_simps\<close> execute a method symbolically; a call with a specification is entered with
  a rule that concludes \<open>wp\<close> of that call.
\<close>

named_theorems wp_simps \<open>symbolic execution of methods\<close>

definition wp :: "('s, 'e, 'a) py \<Rightarrow> ('a \<Rightarrow> 's \<Rightarrow> bool) \<Rightarrow> ('e \<Rightarrow> 's \<Rightarrow> bool) \<Rightarrow> 's \<Rightarrow> bool" where
  "wp m Q E s = (case m s of (Inl e, s') \<Rightarrow> E e s' | (Inr x, s') \<Rightarrow> Q x s')"

lemma wp_ret [wp_simps]: "wp (ret x) Q E = Q x"
  by (simp add: fun_eq_iff wp_def ret_def)

lemma wp_raise [wp_simps]: "wp (raise e) Q E = E e"
  by (simp add: fun_eq_iff wp_def raise_def)

lemma wp_gets [wp_simps]: "wp (gets f) Q E = (\<lambda>s. Q (f s) s)"
  by (simp add: fun_eq_iff wp_def gets_def)

lemma wp_modify [wp_simps]: "wp (modify f) Q E = (\<lambda>s. Q () (f s))"
  by (simp add: fun_eq_iff wp_def modify_def)

lemma wp_tryE [wp_simps]:
  "wp (tryE m h k) Q E = wp m (\<lambda>x. wp (k x) Q E) (\<lambda>e. wp (h e) Q E)"
  by (auto simp: fun_eq_iff wp_def tryE_def split: prod.split sum.split)

lemma wp_bindE [wp_simps]: "wp (bindE m k) Q E = wp m (\<lambda>x. wp (k x) Q E) E"
  by (simp add: bindE_def wp_tryE wp_raise)

lemma wp_thenE [wp_simps]: "wp (thenE m k) Q E = wp m (\<lambda>_. wp k Q E) E"
  by (simp add: thenE_def wp_bindE)

lemma wp_catchE [wp_simps]: "wp (catchE m h) Q E = wp m Q (\<lambda>e. wp (h e) Q E)"
  by (simp add: catchE_def wp_tryE wp_ret)

lemma wp_unless [wp_simps]: "wp (unless b m) Q E = (if b then Q () else wp m Q E)"
  by (simp add: unless_def wp_ret)

lemma wp_finallyE [wp_simps]:
  "wp (finallyE m f) Q E = wp m (\<lambda>x. wp f (\<lambda>_. Q x) E) (\<lambda>e. wp f (\<lambda>_. E e) E)"
  by (auto simp: fun_eq_iff wp_def finallyE_def split: prod.split sum.split)

lemma wp_if [wp_simps]: "wp (if b then m else k) Q E = (if b then wp m Q E else wp k Q E)"
  by simp

lemma wp_case_option [wp_simps]:
  "wp (case z of None \<Rightarrow> m | Some x \<Rightarrow> k x) Q E = (case z of None \<Rightarrow> wp m Q E | Some x \<Rightarrow> wp (k x) Q E)"
  by (cases z) simp_all

lemma wp_case_prod [wp_simps]:
  "wp (case z of (x, y) \<Rightarrow> k x y) Q E = (case z of (x, y) \<Rightarrow> wp (k x y) Q E)"
  by (cases z) simp

lemma wp_mono:
  "wp m Q E s \<Longrightarrow> (\<And>x s'. Q x s' \<Longrightarrow> Q' x s') \<Longrightarrow> (\<And>e s'. E e s' \<Longrightarrow> E' e s') \<Longrightarrow> wp m Q' E' s"
  by (auto simp: wp_def split: prod.splits sum.splits)

lemma wp_conj: "wp m Q E s \<Longrightarrow> wp m Q' E' s \<Longrightarrow> wp m (\<lambda>x s. Q x s \<and> Q' x s) (\<lambda>e s. E e s \<and> E' e s) s"
  by (auto simp: wp_def split: prod.splits sum.splits)

lemma wpI: "(\<And>x s'. m s = (Inr x, s') \<Longrightarrow> Q x s') \<Longrightarrow> (\<And>e s'. m s = (Inl e, s') \<Longrightarrow> E e s') \<Longrightarrow> wp m Q E s"
  by (auto simp: wp_def split: prod.split sum.split)

lemma wpD:
  "wp m Q E s \<Longrightarrow> m s = (Inr x, s') \<Longrightarrow> Q x s'"
  "wp m Q E s \<Longrightarrow> m s = (Inl e, s') \<Longrightarrow> E e s'"
  by (simp_all add: wp_def)

lemma wp_run: "m s = (Inr x, s') \<Longrightarrow> wp m Q E s = Q x s'"
  by (simp add: wp_def)

lemma wp_keeps: "keeps R m \<Longrightarrow> wp m (\<lambda>_. R s) (\<lambda>_. R s) s"
  by (auto simp: wp_def keeps_def split: prod.split sum.split dest: spec [of _ s])

section \<open>Python values\<close>

text \<open>\<open>truthy\<close>: the truth value of an optional string; \<open>or_else\<close>: \<^verbatim>\<open>a or b\<close> on strings.\<close>

definition truthy :: "string option \<Rightarrow> bool" where
  "truthy v \<longleftrightarrow> v \<noteq> None \<and> v \<noteq> Some []"

definition or_else :: "string option \<Rightarrow> string \<Rightarrow> string" where
  "or_else v d = (if truthy v then the v else d)"

definition opt_list :: "'a list option \<Rightarrow> 'a list" where
  "opt_list v = (case v of None \<Rightarrow> [] | Some xs \<Rightarrow> xs)"

lemma truthy_simps [simp]: "\<not> truthy None" "truthy (Some s) \<longleftrightarrow> s \<noteq> []"
  by (simp_all add: truthy_def)

lemma or_else_simps [simp]: "or_else None d = d" "or_else (Some s) d = (if s = [] then d else s)"
  by (simp_all add: or_else_def)

lemma opt_list_simps [simp]: "opt_list None = []" "opt_list (Some xs) = xs"
  by (simp_all add: opt_list_def)

subsection \<open>Slices\<close>

text \<open>\<open>xs[i:]\<close> and \<open>xs[a:b]\<close>: negative bounds count from the end, all bounds are clipped.\<close>

definition slice_bound :: "int \<Rightarrow> nat \<Rightarrow> nat" where
  "slice_bound i n = nat (min (int n) (if i < 0 then max 0 (int n + i) else i))"

definition slice_from :: "int \<Rightarrow> 'a list \<Rightarrow> 'a list" where
  "slice_from i xs = drop (slice_bound i (length xs)) xs"

definition slice :: "int \<Rightarrow> int \<Rightarrow> 'a list \<Rightarrow> 'a list" where
  "slice a b xs =
     (let i = slice_bound a (length xs); j = slice_bound b (length xs) in take (j - i) (drop i xs))"

lemma slice_bound_neg: "0 < n \<Longrightarrow> slice_bound (- int n) m = m - n"
  unfolding slice_bound_def by (cases "n \<le> m") auto

lemma slice_from_neg: "0 < n \<Longrightarrow> slice_from (- int n) xs = drop (length xs - n) xs"
  by (simp add: slice_from_def slice_bound_neg)

lemma slice_nonneg: "slice (int a) (int b) xs = take (b - a) (drop a xs)"
  by (cases "a \<le> length xs"; cases "b \<le> length xs")
    (auto simp: slice_def slice_bound_def Let_def min_def)

lemma suffix_slice_from: "suffix (slice_from i xs) xs"
  by (simp add: slice_from_def suffix_drop)

lemma set_slice: "set (slice a b xs) \<subseteq> set xs"
  by (auto simp: slice_def Let_def dest: in_set_takeD in_set_dropD)

text \<open>\<^verbatim>\<open>next((i for i, x in enumerate(xs) if p(x)), None)\<close>.\<close>

fun index_of :: "('a \<Rightarrow> bool) \<Rightarrow> 'a list \<Rightarrow> nat option" where
  "index_of p [] = None"
| "index_of p (x # xs) = (if p x then Some 0 else map_option Suc (index_of p xs))"

lemma index_of_None: "index_of p xs = None \<longleftrightarrow> (\<forall>x \<in> set xs. \<not> p x)"
  by (induction xs) auto

lemma index_of_Some:
  "index_of p xs = Some i \<Longrightarrow> i < length xs \<and> p (xs ! i) \<and> (\<forall>j < i. \<not> p (xs ! j))"
  by (induction xs arbitrary: i) (auto split: if_splits simp: less_Suc_eq_0_disj)

lemma find_SomeD: "find p xs = Some x \<Longrightarrow> x \<in> set xs \<and> p x"
  by (induction xs) (auto split: if_splits)

subsection \<open>Dictionaries\<close>

text \<open>
  A \<^verbatim>\<open>dict\<close> is an association list in insertion order. \<open>AList.update\<close> replaces the value in
  place or appends a new key, as \<^verbatim>\<open>d[k] = v\<close> does; \<open>AList.delete\<close> is \<^verbatim>\<open>d.pop(k, None)\<close>;
  \<open>map_of\<close> is \<^verbatim>\<open>d.get(k)\<close>; \<open>dmerge d e\<close> is \<^verbatim>\<open>d.update(e)\<close>.
\<close>

type_synonym ('k, 'v) pydict = "('k \<times> 'v) list"

definition dmerge :: "('k, 'v) pydict \<Rightarrow> ('k, 'v) pydict \<Rightarrow> ('k, 'v) pydict" where
  "dmerge d e = fold (\<lambda>(k, v). AList.update k v) e d"

lemma map_of_update [simp]: "map_of (AList.update k v d) = (map_of d)(k \<mapsto> v)"
  by (rule AList.update_conv')

lemma map_of_delete [simp]: "map_of (AList.delete k d) = (map_of d)(k := None)"
  by (rule AList.delete_conv')

lemma distinct_keys_update [simp]: "distinct (map fst d) \<Longrightarrow> distinct (map fst (AList.update k v d))"
  by (rule AList.distinct_update)

lemma distinct_keys_delete [simp]: "distinct (map fst d) \<Longrightarrow> distinct (map fst (AList.delete k d))"
  by (rule AList.distinct_delete)

lemma update_not_Nil [simp]: "AList.update k v d \<noteq> []"
  by (cases d) auto

lemma dmerge_Nil [simp]: "dmerge d [] = d"
  by (simp add: dmerge_def)

lemma map_of_dmerge:
  "distinct (map fst e) \<Longrightarrow> map_of (dmerge d e) k = (case map_of e k of None \<Rightarrow> map_of d k | Some v \<Rightarrow> Some v)"
  unfolding dmerge_def
proof (induction e arbitrary: d)
  case Nil
  then show ?case by simp
next
  case (Cons p e)
  obtain a b where p: "p = (a, b)" by fastforce
  with Cons.prems have "map_of e a = None" by (simp add: map_of_eq_None_iff)
  with Cons p show ?case by (auto split: option.splits)
qed

lemma dmerge_not_Nil: "d \<noteq> [] \<Longrightarrow> dmerge d e \<noteq> []"
  unfolding dmerge_def by (induction e arbitrary: d) (simp_all split: prod.split)

subsection \<open>Integers as text\<close>

text \<open>\<open>int_str\<close> is \<^verbatim>\<open>str(n)\<close>; \<open>py_int\<close> is \<^verbatim>\<open>int(s)\<close> on ASCII text, \<open>None\<close> for ValueError:
  surrounding whitespace, one sign, and digits that may be separated by single underscores.\<close>

definition digit_char :: "nat \<Rightarrow> char" where
  "digit_char d = char_of (48 + d)"

fun nat_str :: "nat \<Rightarrow> string" where
  "nat_str n = (if n < 10 then [digit_char n] else nat_str (n div 10) @ [digit_char (n mod 10)])"

declare nat_str.simps [simp del]

definition int_str :: "int \<Rightarrow> string" where
  "int_str i = (if i < 0 then CHR ''-'' # nat_str (nat (- i)) else nat_str (nat i))"

definition is_space :: "char \<Rightarrow> bool" where
  "is_space c \<longleftrightarrow> (of_char c :: nat) \<in> {9, 10, 11, 12, 13, 28, 29, 30, 31, 32, 133, 160}"

definition strip :: "string \<Rightarrow> string" where
  "strip s = rev (dropWhile is_space (rev (dropWhile is_space s)))"

definition is_digit :: "char \<Rightarrow> bool" where
  "is_digit c \<longleftrightarrow> 48 \<le> (of_char c :: nat) \<and> (of_char c :: nat) \<le> 57"

fun parse_digits :: "nat \<Rightarrow> bool \<Rightarrow> string \<Rightarrow> nat option" where
  "parse_digits acc prev [] = (if prev then Some acc else None)"
| "parse_digits acc prev (c # cs) =
     (if is_digit c then parse_digits (10 * acc + (of_char c - 48)) True cs
      else if c = CHR ''_'' \<and> prev then parse_digits acc False cs
      else None)"

definition py_int :: "string \<Rightarrow> int option" where
  "py_int s = (case strip s of
      [] \<Rightarrow> None
    | c # cs \<Rightarrow>
        if c = CHR ''-'' then map_option (\<lambda>n. - int n) (parse_digits 0 False cs)
        else if c = CHR ''+'' then map_option int (parse_digits 0 False cs)
        else map_option int (parse_digits 0 False (c # cs)))"

lemma digit_char_code: "d < 10 \<Longrightarrow> of_char (digit_char d) = (48 + d :: nat)"
  by (simp add: digit_char_def)

lemma is_digit_digit_char [simp]: "d < 10 \<Longrightarrow> is_digit (digit_char d)"
  by (simp add: is_digit_def digit_char_code)

lemma is_digit_not_space: "is_digit c \<Longrightarrow> \<not> is_space c"
  by (auto simp: is_digit_def is_space_def)

lemma is_digit_sign [simp]: "\<not> is_digit (CHR ''-'')" "\<not> is_digit (CHR ''+'')"
  by (simp_all add: is_digit_def)

lemma nat_str_digits: "\<forall>c \<in> set (nat_str n). is_digit c"
proof (induction n rule: nat_str.induct)
  case (1 n)
  show ?case
    by (subst nat_str.simps) (use 1 in auto)
qed

lemma nat_str_not_Nil [simp]: "nat_str n \<noteq> []"
  by (subst nat_str.simps) simp

lemma parse_digits_append:
  "\<forall>c \<in> set xs. is_digit c \<Longrightarrow> xs \<noteq> [] \<Longrightarrow> d < 10 \<Longrightarrow>
   parse_digits acc p (xs @ [digit_char d]) =
     map_option (\<lambda>n. 10 * n + d) (parse_digits acc p xs)"
proof (induction xs arbitrary: acc p)
  case Nil
  then show ?case by simp
next
  case (Cons c cs)
  show ?case
  proof (cases "cs = []")
    case True
    with Cons.prems show ?thesis by (simp add: digit_char_code)
  next
    case False
    with Cons show ?thesis by simp
  qed
qed

lemma parse_nat_str: "parse_digits 0 False (nat_str n) = Some n"
proof (induction n rule: nat_str.induct)
  case (1 n)
  show ?case
  proof (cases "n < 10")
    case True
    then show ?thesis by (subst nat_str.simps) (simp add: digit_char_code)
  next
    case False
    then have "parse_digits 0 False (nat_str n)
      = map_option (\<lambda>k. 10 * k + n mod 10) (parse_digits 0 False (nat_str (n div 10)))"
      by (subst nat_str.simps) (simp add: parse_digits_append nat_str_digits)
    with False "1.IH" show ?thesis by simp
  qed
qed

lemma strip_id: "xs \<noteq> [] \<Longrightarrow> \<not> is_space (hd xs) \<Longrightarrow> \<not> is_space (last xs) \<Longrightarrow> strip xs = xs"
proof -
  assume a: "xs \<noteq> []" "\<not> is_space (hd xs)" "\<not> is_space (last xs)"
  then have "dropWhile is_space xs = xs" by (cases xs) auto
  moreover from a have "dropWhile is_space (rev xs) = rev xs"
    by (cases xs rule: rev_cases) auto
  ultimately show ?thesis by (simp add: strip_def)
qed

lemma nat_str_hd_last: "\<not> is_space (hd (nat_str n))" "\<not> is_space (last (nat_str n))"
  using nat_str_digits [of n] nat_str_not_Nil [of n] hd_in_set last_in_set is_digit_not_space by blast+

lemma strip_nat_str [simp]: "strip (nat_str n) = nat_str n"
  by (rule strip_id) (simp_all add: nat_str_hd_last)

lemma strip_minus_nat_str: "strip (CHR ''-'' # nat_str n) = CHR ''-'' # nat_str n"
  by (rule strip_id) (simp_all add: nat_str_hd_last, simp add: is_space_def)

lemma int_str_not_Nil [simp]: "int_str i \<noteq> []"
  by (simp add: int_str_def)

lemma py_int_int_str [simp]: "py_int (int_str i) = Some i"
proof (cases "i < 0")
  case True
  then show ?thesis
    by (simp add: int_str_def py_int_def strip_minus_nat_str parse_nat_str)
next
  case False
  obtain c cs where c: "nat_str (nat i) = c # cs" "is_digit c"
    using nat_str_digits [of "nat i"] by (cases "nat_str (nat i)") auto
  from c(1) have "strip (c # cs) = c # cs" by (metis strip_nat_str)
  moreover from c(1) have "parse_digits 0 False (c # cs) = Some (nat i)" by (metis parse_nat_str)
  moreover from c(2) have "c \<noteq> CHR ''-''" "c \<noteq> CHR ''+''" by auto
  ultimately show ?thesis using False c(1)
    by (simp add: int_str_def py_int_def del: parse_digits.simps)
qed

section \<open>The representation of strings\<close>

text \<open>\<^verbatim>\<open>repr\<close> of a string of 8-bit characters: the quote is chosen, control characters are escaped.\<close>

definition hex_digit :: "nat \<Rightarrow> char" where
  "hex_digit n = ''0123456789abcdef'' ! n"

definition repr_char :: "char \<Rightarrow> char \<Rightarrow> string" where
  "repr_char q c =
     (let n = of_char c :: nat in
      if c = q \<or> n = 92 then [char_of (92 :: nat), c]
      else if n = 10 then [char_of (92 :: nat), CHR ''n'']
      else if n = 13 then [char_of (92 :: nat), CHR ''r'']
      else if n = 9 then [char_of (92 :: nat), CHR ''t'']
      else if n < 32 \<or> 127 \<le> n \<and> n \<le> 160 \<or> n = 173 then [char_of (92 :: nat), CHR ''x'', hex_digit (n div 16), hex_digit (n mod 16)]
      else [c])"

definition py_repr :: "string \<Rightarrow> string" where
  "py_repr s =
     (let single = char_of (39 :: nat); double = char_of (34 :: nat);
          q = (if single \<in> set s \<and> double \<notin> set s then double else single)
      in q # concat (map (repr_char q) s) @ [q])"

end
