(* ===== verification/A2A_Types.thy ===== *)
theory A2A_Types
  imports A2A_Prelude
begin

text \<open>
  The data that flows through a2akit: the fields of the v1.0 protocol objects (tasks, messages,
  parts, artifacts, statuses) that the framework reads or writes, JSON values for metadata, the
  stream events of \<^verbatim>\<open>schema.py\<close>, and the exceptions of \<^verbatim>\<open>storage/base.py\<close> and \<^verbatim>\<open>errors.py\<close>
  together with the built-in ones the framework raises or catches.
\<close>

section \<open>JSON values\<close>

datatype json =
    JNull | JBool bool | JInt int | JStr string
  | JList "json list" | JObj "(string \<times> json) list"

type_synonym mdict = "(string, json) pydict"

text \<open>\<open>join_strings sep xs\<close> is \<^verbatim>\<open>sep.join(xs)\<close>; \<open>json_repr\<close> is \<^verbatim>\<open>repr\<close> of the Python value.\<close>

fun join_strings :: "string \<Rightarrow> string list \<Rightarrow> string" where
  "join_strings sep [] = []"
| "join_strings sep [x] = x"
| "join_strings sep (x # y # zs) = x @ sep @ join_strings sep (y # zs)"

fun json_repr :: "json \<Rightarrow> string" where
  "json_repr JNull = ''None''"
| "json_repr (JBool b) = (if b then ''True'' else ''False'')"
| "json_repr (JInt n) = int_str n"
| "json_repr (JStr s) = py_repr s"
| "json_repr (JList xs) = ''['' @ join_strings '', '' (map json_repr xs) @ '']''"
| "json_repr (JObj d) = ''{'' @ join_strings '', '' (map (\<lambda>(k, v). py_repr k @ '': '' @ json_repr v) d) @ ''}''"

text \<open>\<^verbatim>\<open>str\<close> differs from \<^verbatim>\<open>repr\<close> only on strings.\<close>

fun json_str :: "json \<Rightarrow> string" where
  "json_str (JStr s) = s"
| "json_str j = json_repr j"

section \<open>Protocol objects\<close>

text \<open>The members of \<^verbatim>\<open>v10.TaskState\<close> that the framework uses, and their wire values.\<close>

datatype task_state =
    task_state_submitted | task_state_working | task_state_input_required
  | task_state_auth_required | task_state_completed | task_state_canceled
  | task_state_failed | task_state_rejected

instantiation task_state :: enum
begin

definition enum_task_state :: "task_state list" where
  "enum_task_state = [task_state_submitted, task_state_working, task_state_input_required,
     task_state_auth_required, task_state_completed, task_state_canceled,
     task_state_failed, task_state_rejected]"

definition enum_all_task_state :: "(task_state \<Rightarrow> bool) \<Rightarrow> bool" where
  "enum_all_task_state P \<longleftrightarrow> list_all P enum_class.enum"

definition enum_ex_task_state :: "(task_state \<Rightarrow> bool) \<Rightarrow> bool" where
  "enum_ex_task_state P \<longleftrightarrow> list_ex P enum_class.enum"

instance
proof
  have all: "x \<in> set enum_class.enum" for x :: task_state
    by (cases x) (simp_all add: enum_task_state_def)
  then show "UNIV = set (enum_class.enum :: task_state list)" by auto
  show "distinct (enum_class.enum :: task_state list)" by (simp add: enum_task_state_def)
  fix P :: "task_state \<Rightarrow> bool"
  show "enum_class.enum_all P = Ball UNIV P"
    using all by (auto simp: enum_all_task_state_def list_all_iff)
  show "enum_class.enum_ex P = Bex UNIV P"
    using all by (auto simp: enum_ex_task_state_def list_ex_iff)
qed

end

fun state_value :: "task_state \<Rightarrow> string" where
  "state_value task_state_submitted = ''TASK_STATE_SUBMITTED''"
| "state_value task_state_working = ''TASK_STATE_WORKING''"
| "state_value task_state_input_required = ''TASK_STATE_INPUT_REQUIRED''"
| "state_value task_state_auth_required = ''TASK_STATE_AUTH_REQUIRED''"
| "state_value task_state_completed = ''TASK_STATE_COMPLETED''"
| "state_value task_state_canceled = ''TASK_STATE_CANCELED''"
| "state_value task_state_failed = ''TASK_STATE_FAILED''"
| "state_value task_state_rejected = ''TASK_STATE_REJECTED''"

lemma state_value_inject [simp]: "state_value s = state_value t \<longleftrightarrow> s = t"
  by (cases s; cases t) simp_all

text \<open>A role is absent, a member of the v1.0 enumeration, or a legacy string.\<close>

datatype role = role_user | role_agent

datatype role_value = RNone | REnum role | RStr string

record part =
  p_text :: "string option"
  p_raw :: "string option"
  p_url :: "string option"
  p_data :: "json option"
  p_media_type :: "string option"
  p_filename :: "string option"

definition empty_part :: part where
  "empty_part = \<lparr>p_text = None, p_raw = None, p_url = None, p_data = None,
     p_media_type = None, p_filename = None\<rparr>"

definition text_part :: "string \<Rightarrow> part" where
  "text_part t = empty_part\<lparr>p_text := Some t\<rparr>"

record message =
  m_role :: role_value
  m_parts :: "part list"
  m_message_id :: string
  m_task_id :: "string option"
  m_context_id :: "string option"
  m_metadata :: "mdict option"
  m_reference_task_ids :: "string list"
  m_extensions :: "string list"

record artifact =
  a_artifact_id :: string
  a_name :: string
  a_description :: string
  a_parts :: "part list"
  a_metadata :: "mdict option"
  a_extensions :: "string list"

record task_status =
  ts_state :: task_state
  ts_timestamp :: "string option"
  ts_message :: "message option"

record task =
  t_id :: string
  t_context_id :: string
  t_status :: task_status
  t_history :: "message list option"
  t_artifacts :: "artifact list"
  t_metadata :: "mdict option"

abbreviation t_state :: "task \<Rightarrow> task_state" where
  "t_state t \<equiv> ts_state (t_status t)"

abbreviation history_list :: "task \<Rightarrow> message list" where
  "history_list t \<equiv> opt_list (t_history t)"

abbreviation metadata_dict :: "task \<Rightarrow> mdict" where
  "metadata_dict t \<equiv> opt_list (t_metadata t)"

text \<open>\<open>agent_message\<close> builds the agent messages of the framework: role agent, the given parts,
  a fresh id, bound to a task and a context, without reference ids, extensions.\<close>

definition agent_message ::
  "part list \<Rightarrow> string \<Rightarrow> string \<Rightarrow> string option \<Rightarrow> mdict option \<Rightarrow> message" where
  "agent_message parts mid tid ctx md =
     \<lparr>m_role = REnum role_agent, m_parts = parts, m_message_id = mid, m_task_id = Some tid,
      m_context_id = ctx, m_metadata = md, m_reference_task_ids = [], m_extensions = []\<rparr>"

lemma agent_message_simps [simp]:
  "m_role (agent_message ps mid tid c md) = REnum role_agent"
  "m_parts (agent_message ps mid tid c md) = ps"
  "m_message_id (agent_message ps mid tid c md) = mid"
  "m_task_id (agent_message ps mid tid c md) = Some tid"
  "m_context_id (agent_message ps mid tid c md) = c"
  by (simp_all add: agent_message_def)

section \<open>Stream events\<close>

record status_event =
  se_task_id :: string
  se_context_id :: string
  se_status :: task_status

record artifact_event =
  ae_task_id :: string
  ae_context_id :: string
  ae_artifact :: artifact
  ae_append :: bool
  ae_last_chunk :: bool

datatype stream_event =
    TaskSnapshot task
  | MessageEvent message
  | TaskStatusUpdateEvent status_event
  | TaskArtifactUpdateEvent artifact_event
  | DirectReply message
  | TerminalMarker status_event

definition DIRECT_REPLY_KEY :: string where
  "DIRECT_REPLY_KEY = ''_a2akit_direct_reply''"

section \<open>Exceptions\<close>

text \<open>
  Exceptions carry their message text where the framework uses it; \<open>ContextMismatchError\<close> carries
  the three values its text shows; \<open>HTTPException\<close> carries the status and the detail object. \<open>WorkerError\<close> stands for whatever user code raises,
  \<open>BackendError\<close> for a failure of a backend's transport, \<open>ExceptionGroup\<close> is what an anyio task
  group raises around the exception of its body, \<open>CancelledError\<close> is the cancellation
  exception, the only one here that \<^verbatim>\<open>except Exception\<close> does not catch.
\<close>

datatype exn =
    TaskNotFoundError string
  | TaskTerminalStateError string
  | TaskNotAcceptingMessagesError "task_state option"
  | TaskNotCancelableError string
  | UnsupportedOperationError string
  | ContextMismatchError string string string
  | ContentTypeNotSupportedError string
  | InvalidAgentResponseError string
  | ConcurrencyError string "int option"
  | AuthenticationRequiredError string string
  | PushConfigNotFoundError string
  | HTTPException int json
  | ValueError string
  | TypeError string
  | StopAsyncIteration
  | RuntimeError string
  | AttributeError string
  | AssertionError
  | DataError string
  | BackendError string
  | WorkerError string
  | ExceptionGroup exn
  | CancelledError

fun is_Exception :: "exn \<Rightarrow> bool" where
  "is_Exception CancelledError = False"
| "is_Exception _ = True"

fun is_TaskTerminalStateError :: "exn \<Rightarrow> bool" where
  "is_TaskTerminalStateError (TaskTerminalStateError _) = True"
| "is_TaskTerminalStateError _ = False"

fun is_ConcurrencyError :: "exn \<Rightarrow> bool" where
  "is_ConcurrencyError (ConcurrencyError _ _) = True"
| "is_ConcurrencyError _ = False"

definition is_lost_race :: "exn \<Rightarrow> bool" where
  "is_lost_race e \<longleftrightarrow> is_ConcurrencyError e \<or> is_TaskTerminalStateError e"

lemma is_lost_race_simps [simp]:
  "is_lost_race (ConcurrencyError a b)" "is_lost_race (TaskTerminalStateError a)"
  "\<not> is_lost_race (TaskNotFoundError a)" "\<not> is_lost_race (AttributeError a)"
  by (simp_all add: is_lost_race_def)

text \<open>\<^verbatim>\<open>try: m except Exception: log\<close>: every exception but cancellation is dropped.\<close>

definition swallow :: "('s, exn, unit) py \<Rightarrow> ('s, exn, unit) py" where
  "swallow m = catchE m (\<lambda>e. if is_Exception e then ret () else raise e)"

lemma wp_swallow [wp_simps]:
  "wp (swallow m) Q E = wp m Q (\<lambda>e. if is_Exception e then Q () else E e)"
  unfolding swallow_def wp_catchE wp_if wp_ret wp_raise ..

context preorder_rel begin

lemma keeps_swallow [keeps_intros]: "keeps R m \<Longrightarrow> keeps R (swallow m)"
  unfolding swallow_def by (intro keeps_intros)

end

end
