(* ===== verification/Storage_Base.thy ===== *)
theory Storage_Base
  imports A2A_Types
begin

text \<open>
  The storage interface (\<^verbatim>\<open>storage/base.py\<close>): terminal states, reserved metadata keys, the write
  descriptor of \<^verbatim>\<open>update_task\<close>, queries, the abstract class as a record of operations, and its
  contract. \<open>apply_update\<close> is the effect of one write on a task, as the abstract class documents
  it; the locales of \<open>Storage_Contract\<close> say when a backend must apply it, when it must refuse, and
  which version it must return. Clients are verified once, inside these locales.
\<close>

section \<open>Constants and descriptors\<close>

definition META_TENANT_KEY :: string where
  "META_TENANT_KEY = ''_a2akit_tenant''"

definition META_CREATED_AT_KEY :: string where
  "META_CREATED_AT_KEY = ''_a2akit_createdAt''"

definition META_LAST_MODIFIED_KEY :: string where
  "META_LAST_MODIFIED_KEY = ''_a2akit_lastModified''"

definition TERMINAL_STATES :: "task_state set" where
  "TERMINAL_STATES = {task_state_completed, task_state_canceled, task_state_failed,
     task_state_rejected}"

lemma TERMINAL_STATES_simps [simp]:
  "task_state_completed \<in> TERMINAL_STATES" "task_state_canceled \<in> TERMINAL_STATES"
  "task_state_failed \<in> TERMINAL_STATES" "task_state_rejected \<in> TERMINAL_STATES"
  "task_state_submitted \<notin> TERMINAL_STATES" "task_state_working \<notin> TERMINAL_STATES"
  "task_state_input_required \<notin> TERMINAL_STATES" "task_state_auth_required \<notin> TERMINAL_STATES"
  by (simp_all add: TERMINAL_STATES_def)

record artifact_write =
  aw_artifact :: artifact
  aw_append :: bool

text \<open>The keyword arguments of \<^verbatim>\<open>update_task\<close>; \<open>no_update\<close> has every one at its default.\<close>

record update =
  u_state :: "task_state option"
  u_status_message :: "message option"
  u_artifacts :: "artifact_write list option"
  u_messages :: "message list option"
  u_task_metadata :: "mdict option"
  u_expected_version :: "int option"

definition no_update :: update where
  "no_update = \<lparr>u_state = None, u_status_message = None, u_artifacts = None, u_messages = None,
     u_task_metadata = None, u_expected_version = None\<rparr>"

lemma no_update_simps [simp]:
  "u_state no_update = None" "u_status_message no_update = None" "u_artifacts no_update = None"
  "u_messages no_update = None" "u_task_metadata no_update = None"
  "u_expected_version no_update = None"
  by (simp_all add: no_update_def)

record list_query =
  q_context_id :: "string option"
  q_tenant :: "string option"
  q_status :: "task_state option"
  q_page_size :: int
  q_page_token :: "string option"
  q_history_length :: "int option"
  q_status_timestamp_after :: "string option"
  q_include_artifacts :: bool

text \<open>The field constraint \<^verbatim>\<open>ge=1, le=100\<close> of the model.\<close>

definition valid_query :: "list_query \<Rightarrow> bool" where
  "valid_query q \<longleftrightarrow> 1 \<le> q_page_size q \<and> q_page_size q \<le> 100"

record list_result =
  lr_tasks :: "task list"
  lr_next_page_token :: string
  lr_page_size :: int
  lr_total_size :: int

text \<open>\<^verbatim>\<open>_build_transition_record\<close>: the first non-empty text of the status message is recorded.\<close>

definition build_transition_record :: "string \<Rightarrow> string \<Rightarrow> message option \<Rightarrow> json" where
  "build_transition_record st ts msg =
     JObj ([(''state'', JStr st), (''timestamp'', JStr ts)] @
       (case msg of None \<Rightarrow> []
        | Some m \<Rightarrow> (case find (\<lambda>p. truthy (p_text p)) (m_parts m) of None \<Rightarrow> []
                     | Some p \<Rightarrow> [(''messageText'', JStr (the (p_text p)))])))"

text \<open>\<^verbatim>\<open>md.setdefault("stateTransitions", []).append(record)\<close>: a value that is not a list has no
  \<^verbatim>\<open>append\<close>.\<close>

definition append_transition :: "json \<Rightarrow> mdict \<Rightarrow> exn + mdict" where
  "append_transition r md = (case map_of md ''stateTransitions'' of
      None \<Rightarrow> Inr (AList.update ''stateTransitions'' (JList [r]) md)
    | Some (JList rs) \<Rightarrow> Inr (AList.update ''stateTransitions'' (JList (rs @ [r])) md)
    | Some _ \<Rightarrow> Inl (AttributeError ''append''))"

lemma append_transition_not_Nil: "append_transition r md = Inr md' \<Longrightarrow> md' \<noteq> []"
  by (auto simp: append_transition_def split: option.splits json.splits)

text \<open>The texts of the two guards, shared by the backends.\<close>

definition version_mismatch_text :: "string \<Rightarrow> int \<Rightarrow> int \<Rightarrow> string" where
  "version_mismatch_text tid expected current = ''Version mismatch for task '' @ tid
     @ '': expected '' @ int_str expected @ '', current '' @ int_str current"

definition terminal_transition_text :: "string \<Rightarrow> task_state \<Rightarrow> task_state \<Rightarrow> string" where
  "terminal_transition_text tid old new = ''Cannot transition terminal task '' @ tid
     @ '' from '' @ state_value old @ '' to '' @ state_value new"

section \<open>The abstract class\<close>

text \<open>
  The operations of \<^verbatim>\<open>class Storage\<close> that the framework calls, over a backend's state \<open>'s\<close>. The
  first argument of the writing operations is the value \<^verbatim>\<open>datetime.now(UTC).isoformat()\<close> returns
  in the call, the second one of \<open>so_create_task\<close> the value of \<^verbatim>\<open>uuid.uuid4()\<close>.
\<close>

record 's storage_ops =
  so_load_task :: "string \<Rightarrow> int option \<Rightarrow> bool \<Rightarrow> ('s, exn, task option) py"
  so_create_task :: "string \<Rightarrow> string \<Rightarrow> string \<Rightarrow> message \<Rightarrow> string option \<Rightarrow> ('s, exn, task) py"
  so_update_task :: "string \<Rightarrow> string \<Rightarrow> update \<Rightarrow> ('s, exn, int) py"
  so_get_version :: "string \<Rightarrow> ('s, exn, int option) py"
  so_list_tasks :: "list_query \<Rightarrow> ('s, exn, list_result) py"
  so_load_context :: "string \<Rightarrow> ('s, exn, json option) py"
  so_update_context :: "string \<Rightarrow> json \<Rightarrow> ('s, exn, unit) py"

section \<open>What a write does to a task\<close>

text \<open>Each artifact write is an upsert by artifact id: append the parts, replace, or add.\<close>

fun upsert_artifact :: "artifact \<Rightarrow> bool \<Rightarrow> artifact list \<Rightarrow> artifact list" where
  "upsert_artifact a app [] = [a]"
| "upsert_artifact a app (b # bs) =
     (if a_artifact_id b = a_artifact_id a
      then (if app then b\<lparr>a_parts := a_parts b @ a_parts a\<rparr> else a) # bs
      else b # upsert_artifact a app bs)"

definition upsert_all :: "artifact_write list \<Rightarrow> artifact list \<Rightarrow> artifact list" where
  "upsert_all ws as = fold (\<lambda>w. upsert_artifact (aw_artifact w) (aw_append w)) ws as"

lemma upsert_artifact_ids:
  "map a_artifact_id (upsert_artifact a app as) =
     map a_artifact_id as @ (if a_artifact_id a \<in> a_artifact_id ` set as then [] else [a_artifact_id a])"
  by (induction as) auto

lemma upsert_artifact_distinct:
  "distinct (map a_artifact_id as) \<Longrightarrow> distinct (map a_artifact_id (upsert_artifact a app as))"
  by (auto simp: upsert_artifact_ids)

lemma upsert_all_distinct:
  "distinct (map a_artifact_id as) \<Longrightarrow> distinct (map a_artifact_id (upsert_all ws as))"
  unfolding upsert_all_def by (induction ws arbitrary: as) (simp_all add: upsert_artifact_distinct)

lemma upsert_all_Nil [simp]: "upsert_all [] as = as"
  by (simp add: upsert_all_def)

definition new_status :: "string \<Rightarrow> update \<Rightarrow> task_status \<Rightarrow> task_status" where
  "new_status now u st = (case u_state u of
      Some s \<Rightarrow> \<lparr>ts_state = s, ts_timestamp = Some now, ts_message = u_status_message u\<rparr>
    | None \<Rightarrow> (case u_status_message u of None \<Rightarrow> st
              | Some m \<Rightarrow> st\<lparr>ts_timestamp := Some now, ts_message := Some m\<rparr>))"

definition new_metadata :: "string \<Rightarrow> update \<Rightarrow> mdict \<Rightarrow> exn + mdict" where
  "new_metadata now u md =
     (let md1 = dmerge md (opt_list (u_task_metadata u)) in
      case u_state u of
        Some s \<Rightarrow> (case append_transition
              (build_transition_record (state_value s) now (u_status_message u)) md1 of
            Inl e \<Rightarrow> Inl e
          | Inr md2 \<Rightarrow> Inr (AList.update META_LAST_MODIFIED_KEY (JStr now) md2))
      | None \<Rightarrow> (case u_status_message u of None \<Rightarrow> Inr md1
          | Some _ \<Rightarrow> Inr (AList.update META_LAST_MODIFIED_KEY (JStr now) md1)))"

definition apply_update :: "string \<Rightarrow> update \<Rightarrow> task \<Rightarrow> exn + task" where
  "apply_update now u t = (case new_metadata now u (metadata_dict t) of
      Inl e \<Rightarrow> Inl e
    | Inr md \<Rightarrow> Inr (t\<lparr>
        t_history := (if opt_list (u_messages u) = [] then t_history t
                      else Some (history_list t @ opt_list (u_messages u))),
        t_artifacts := upsert_all (opt_list (u_artifacts u)) (t_artifacts t),
        t_status := new_status now u (t_status t),
        t_metadata := (if md = [] then None else Some md)\<rparr>))"

lemma apply_update_fields:
  assumes "apply_update now u t = Inr t'"
  shows "t_id t' = t_id t" and "t_context_id t' = t_context_id t"
    and "history_list t' = history_list t @ opt_list (u_messages u)"
    and "t_artifacts t' = upsert_all (opt_list (u_artifacts u)) (t_artifacts t)"
    and "t_status t' = new_status now u (t_status t)"
  using assms by (auto simp: apply_update_def split: sum.splits if_splits)

lemma new_status_state [simp]:
  "ts_state (new_status now u st) = (case u_state u of None \<Rightarrow> ts_state st | Some s \<Rightarrow> s)"
  by (simp add: new_status_def split: option.split)

text \<open>Only a transition record on top of foreign \<^verbatim>\<open>stateTransitions\<close> data can be refused.\<close>

lemma new_metadata_no_state: "u_state u = None \<Longrightarrow> \<exists>md'. new_metadata now u md = Inr md'"
  by (simp add: new_metadata_def Let_def split: option.split)

definition transitions_ok :: "mdict \<Rightarrow> bool" where
  "transitions_ok md \<longleftrightarrow> (case map_of md ''stateTransitions'' of None \<Rightarrow> True
     | Some v \<Rightarrow> (case v of JList _ \<Rightarrow> True | _ \<Rightarrow> False))"

lemma append_transition_total:
  "transitions_ok md \<longleftrightarrow> (\<exists>md'. append_transition r md = Inr md')"
  by (auto simp: append_transition_def transitions_ok_def split: option.splits json.splits)

lemma apply_update_total:
  assumes "transitions_ok (dmerge (metadata_dict t) (opt_list (u_task_metadata u)))"
  shows "\<exists>t'. apply_update now u t = Inr t'"
proof -
  from iffD1 [OF append_transition_total assms] obtain md where
    "append_transition (build_transition_record
      (state_value (the (u_state u))) now (u_status_message u))
      (dmerge (metadata_dict t) (opt_list (u_task_metadata u))) = Inr md"
    by blast
  then show ?thesis
    by (auto simp: apply_update_def new_metadata_def Let_def split: option.split)
qed

text \<open>
  Keys of the task metadata that the framework itself maintains. A valid write does not carry
  them in \<^verbatim>\<open>task_metadata\<close>; every write the framework issues is valid.
\<close>

definition reserved_keys :: "string list" where
  "reserved_keys = [''_idempotency_key'', ''stateTransitions'', ''_a2akit_just_created'']"

definition valid_update :: "update \<Rightarrow> bool" where
  "valid_update u \<longleftrightarrow> distinct (map fst (opt_list (u_task_metadata u))) \<and>
     list_all (\<lambda>(k, _). k \<notin> set reserved_keys) (opt_list (u_task_metadata u))"

lemma valid_update_no_metadata [simp]: "u_task_metadata u = None \<Longrightarrow> valid_update u"
  by (simp add: valid_update_def)

lemma valid_update_reserved:
  assumes "valid_update u" and "k \<in> set reserved_keys"
  shows "map_of (dmerge md (opt_list (u_task_metadata u))) k = map_of md k"
proof -
  from assms have "map_of (opt_list (u_task_metadata u)) k = None"
    by (auto simp: valid_update_def map_of_eq_None_iff list_all_iff)
  with assms(1) show ?thesis by (simp add: map_of_dmerge valid_update_def)
qed

lemma append_transition_get:
  "append_transition r md = Inr md' \<Longrightarrow> k \<noteq> ''stateTransitions'' \<Longrightarrow> map_of md' k = map_of md k"
  by (auto simp: append_transition_def split: option.splits json.splits)

lemma append_transition_ok: "append_transition r md = Inr md' \<Longrightarrow> transitions_ok md'"
  by (auto simp: append_transition_def transitions_ok_def split: option.splits json.splits)

lemma transitions_ok_update [simp]:
  "k \<noteq> ''stateTransitions'' \<Longrightarrow> transitions_ok (AList.update k v md) = transitions_ok md"
  by (simp add: transitions_ok_def)

text \<open>The part of a stored task that later writes rely on.\<close>

definition task_meta_ok :: "task \<Rightarrow> bool" where
  "task_meta_ok t \<longleftrightarrow> transitions_ok (metadata_dict t) \<and>
     map_of (metadata_dict t) ''_a2akit_just_created'' = None"

lemma new_metadata_reserved:
  assumes "valid_update u" and "new_metadata now u md = Inr md'"
  shows "map_of md' ''_idempotency_key'' = map_of md ''_idempotency_key''"
    and "map_of md' ''_a2akit_just_created'' = map_of md ''_a2akit_just_created''"
    and "transitions_ok md \<Longrightarrow> transitions_ok md'"
proof -
  note r = valid_update_reserved [OF assms(1)]
  have res: "k \<in> set reserved_keys \<Longrightarrow> k \<noteq> META_LAST_MODIFIED_KEY" for k
    by (auto simp: reserved_keys_def META_LAST_MODIFIED_KEY_def)
  have k: "map_of md' k = map_of md k" if "k \<in> set reserved_keys" "k \<noteq> ''stateTransitions''" for k
    using assms(2) that res [OF that(1)] append_transition_get
    by (auto simp: new_metadata_def Let_def r [OF that(1)] split: option.splits sum.splits)
  show "map_of md' ''_idempotency_key'' = map_of md ''_idempotency_key''"
    "map_of md' ''_a2akit_just_created'' = map_of md ''_a2akit_just_created''"
    by (rule k; simp add: reserved_keys_def)+
  have st: "transitions_ok (dmerge md (opt_list (u_task_metadata u))) = transitions_ok md"
    using r [of "''stateTransitions''" md] by (simp add: transitions_ok_def reserved_keys_def)
  show "transitions_ok md \<Longrightarrow> transitions_ok md'"
    using assms(2) res [of "''stateTransitions''"] st append_transition_ok
    by (auto simp: new_metadata_def Let_def reserved_keys_def split: option.splits sum.splits)
qed

lemma valid_update_applies:
  assumes "valid_update u" and "task_meta_ok t"
  shows "\<exists>t'. apply_update now u t = Inr t' \<and> task_meta_ok t'
    \<and> map_of (metadata_dict t') ''_idempotency_key'' = map_of (metadata_dict t) ''_idempotency_key''"
proof -
  have "transitions_ok (dmerge (metadata_dict t) (opt_list (u_task_metadata u)))"
    using assms valid_update_reserved [OF assms(1), of "''stateTransitions''" "metadata_dict t"]
    by (simp add: task_meta_ok_def transitions_ok_def reserved_keys_def)
  then obtain t' where t': "apply_update now u t = Inr t'" using apply_update_total by blast
  then obtain md where md: "new_metadata now u (metadata_dict t) = Inr md"
    and tm: "metadata_dict t' = md"
    by (auto simp: apply_update_def split: sum.splits)
  from new_metadata_reserved [OF assms(1) md] assms(2) t' tm show ?thesis
    by (auto simp: task_meta_ok_def)
qed

section \<open>How a stored task may evolve\<close>

text \<open>
  \<open>task_le\<close> compares what a backend stores under one id before and after: it may be deleted, an
  id that is not (or no longer) stored stays so, and a task that stays keeps its identity, only
  extends its history, never leaves a terminal state, and changes only with a higher version.
\<close>

definition task_le :: "(task \<times> int) option \<Rightarrow> (task \<times> int) option \<Rightarrow> bool" where
  "task_le x y \<longleftrightarrow> (case x of None \<Rightarrow> y = None | Some (t, v) \<Rightarrow>
     (case y of None \<Rightarrow> True | Some (t', v') \<Rightarrow>
        t_id t' = t_id t \<and> t_context_id t' = t_context_id t
        \<and> prefix (history_list t) (history_list t') \<and> v \<le> v' \<and> (v = v' \<longrightarrow> t' = t)
        \<and> (t_state t \<in> TERMINAL_STATES \<longrightarrow> t_state t' = t_state t)))"

lemma task_le_refl [simp]: "task_le x x"
  by (auto simp: task_le_def split: option.splits)

lemma task_le_trans: "task_le x y \<Longrightarrow> task_le y z \<Longrightarrow> task_le x z"
  by (auto simp: task_le_def split: option.splits intro: prefix_order.trans)

lemma task_le_None [simp]: "task_le None y \<longleftrightarrow> y = None"
  by (simp add: task_le_def)

lemma task_le_terminal:
  "task_le (Some (t, v)) (Some (t', v')) \<Longrightarrow> t_state t \<in> TERMINAL_STATES \<Longrightarrow> t_state t' = t_state t"
  by (simp add: task_le_def)

lemma apply_update_le:
  assumes "apply_update now u t = Inr t'" and "u_state u = None \<or> t_state t \<notin> TERMINAL_STATES"
  shows "task_le (Some (t, v)) (Some (t', v + 1))"
  using apply_update_fields [OF assms(1)] assms(2) by (auto simp: task_le_def)

end
