(* ===== verification/Storage_Contract.thy ===== *)
theory Storage_Contract
  imports Storage_Base
begin

text \<open>
  The contract of \<^verbatim>\<open>class Storage\<close> as a locale. \<open>view\<close> is the abstract content of a backend (the
  stored task and its version per id), \<open>idem\<close> the task an idempotency key of a context stands
  for, \<open>inv\<close> the backend's own invariant. The laws are those of the docstrings of
  \<^verbatim>\<open>create_task\<close> and \<^verbatim>\<open>update_task\<close>: read-your-writes, optimistic concurrency, the terminal-state
  guard, atomicity (an error leaves the state as it was) and idempotent creation.
\<close>

text \<open>What \<^verbatim>\<open>load_task\<close> shows of a task: the last \<open>n\<close> messages, artifacts on request.\<close>

definition trim_history :: "int option \<Rightarrow> 'a list \<Rightarrow> 'a list" where
  "trim_history hl h = (case hl of None \<Rightarrow> h | Some n \<Rightarrow> drop (length h - nat n) h)"

definition load_view :: "int option \<Rightarrow> bool \<Rightarrow> task \<Rightarrow> task" where
  "load_view hl ia t = t\<lparr>t_history := map_option (trim_history hl) (t_history t),
     t_artifacts := (if ia then t_artifacts t else [])\<rparr>"

definition valid_length :: "int option \<Rightarrow> bool" where
  "valid_length hl \<longleftrightarrow> (case hl of None \<Rightarrow> True | Some n \<Rightarrow> 0 \<le> n)"

lemma trim_history_None [simp]: "trim_history None h = h"
  by (simp add: trim_history_def)

lemma load_view_full [simp]: "load_view None True t = t"
  by (cases "t_history t") (simp_all add: load_view_def)

lemma load_view_simps [simp]:
  "t_id (load_view hl ia t) = t_id t" "t_context_id (load_view hl ia t) = t_context_id t"
  "t_status (load_view hl ia t) = t_status t" "t_metadata (load_view hl ia t) = t_metadata t"
  by (simp_all add: load_view_def)

text \<open>The task a creation stores, and the transient marker on the returned copy.\<close>

definition initial_task ::
  "string \<Rightarrow> string \<Rightarrow> string \<Rightarrow> message \<Rightarrow> string option \<Rightarrow> task" where
  "initial_task now uid ctx msg key =
     \<lparr>t_id = uid, t_context_id = ctx,
      t_status = \<lparr>ts_state = task_state_submitted, ts_timestamp = Some now, ts_message = None\<rparr>,
      t_history = Some [msg\<lparr>m_task_id := Some uid, m_context_id := Some ctx\<rparr>],
      t_artifacts = [],
      t_metadata = Some ((if truthy key then [(''_idempotency_key'', JStr (the key))] else []) @
        [(''stateTransitions'',
            JList [build_transition_record (state_value task_state_submitted) now None]),
         (META_CREATED_AT_KEY, JStr now), (META_LAST_MODIFIED_KEY, JStr now)])\<rparr>"

definition mark_created :: "task \<Rightarrow> task" where
  "mark_created t =
     t\<lparr>t_metadata := Some (AList.update ''_a2akit_just_created'' (JBool True) (metadata_dict t))\<rparr>"

lemma initial_task_simps [simp]:
  "t_id (initial_task now uid ctx m k) = uid"
  "t_context_id (initial_task now uid ctx m k) = ctx"
  "t_state (initial_task now uid ctx m k) = task_state_submitted"
  by (simp_all add: initial_task_def)

lemma initial_task_meta_ok: "task_meta_ok (initial_task now uid ctx m k)"
  by (simp add: initial_task_def task_meta_ok_def transitions_ok_def META_CREATED_AT_KEY_def
      META_LAST_MODIFIED_KEY_def)

lemma initial_task_key:
  "truthy k \<Longrightarrow> map_of (metadata_dict (initial_task now uid ctx m k)) ''_idempotency_key''
    = Some (JStr (the k))"
  "\<not> truthy k \<Longrightarrow> map_of (metadata_dict (initial_task now uid ctx m k)) ''_idempotency_key'' = None"
  by (simp_all add: initial_task_def META_CREATED_AT_KEY_def META_LAST_MODIFIED_KEY_def)

text \<open>What a creation adds to the index of idempotency keys.\<close>

definition remember :: "string \<Rightarrow> string option \<Rightarrow> string \<Rightarrow> (string \<Rightarrow> string \<Rightarrow> string option) \<Rightarrow> string \<Rightarrow> string \<Rightarrow> string option" where
  "remember ctx key uid ix = (\<lambda>c k. if truthy key \<and> c = ctx \<and> k = the key then Some uid else ix c k)"

lemma remember_same [simp]: "truthy key \<Longrightarrow> remember ctx key uid ix ctx (the key) = Some uid"
  "k \<noteq> '''' \<Longrightarrow> remember ctx (Some k) uid ix ctx k = Some uid"
  by (simp_all add: remember_def)

locale storage_writes =
  fixes so :: "'s storage_ops"
    and inv :: "'s \<Rightarrow> bool"
    and view :: "'s \<Rightarrow> string \<Rightarrow> (task \<times> int) option"
    and idem :: "'s \<Rightarrow> string \<Rightarrow> string \<Rightarrow> string option"
  assumes load: "inv s \<Longrightarrow> valid_length hl \<Longrightarrow>
      so_load_task so tid hl ia s = (Inr (map_option (load_view hl ia \<circ> fst) (view s tid)), s)"
    and version: "inv s \<Longrightarrow> so_get_version so tid s = (Inr (map_option snd (view s tid)), s)"
    and view_meta: "inv s \<Longrightarrow> view s tid = Some (t, v) \<Longrightarrow> task_meta_ok t"
    and update_missing: "inv s \<Longrightarrow> view s tid = None \<Longrightarrow>
      \<exists>msg. so_update_task so now tid u s = (Inl (TaskNotFoundError msg), s)"
    and update_stale: "inv s \<Longrightarrow> view s tid = Some (t, v) \<Longrightarrow> u_expected_version u = Some e \<Longrightarrow> e \<noteq> v \<Longrightarrow>
      valid_update u \<Longrightarrow> \<exists>msg. so_update_task so now tid u s = (Inl (ConcurrencyError msg (Some v)), s)"
    and update_terminal: "inv s \<Longrightarrow> view s tid = Some (t, v) \<Longrightarrow>
      u_expected_version u \<in> {None, Some v} \<Longrightarrow> u_state u \<noteq> None \<Longrightarrow> t_state t \<in> TERMINAL_STATES \<Longrightarrow>
      valid_update u \<Longrightarrow> \<exists>msg. so_update_task so now tid u s = (Inl (TaskTerminalStateError msg), s)"
    and update_ok: "inv s \<Longrightarrow> view s tid = Some (t, v) \<Longrightarrow>
      u_expected_version u \<in> {None, Some v} \<Longrightarrow> u_state u = None \<or> t_state t \<notin> TERMINAL_STATES \<Longrightarrow>
      valid_update u \<Longrightarrow> apply_update now u t = Inr t' \<Longrightarrow>
      \<exists>s'. so_update_task so now tid u s = (Inr (v + 1), s') \<and> inv s'
        \<and> view s' = (view s)(tid \<mapsto> (t', v + 1)) \<and> idem s' = idem s"
    and view_id: "inv s \<Longrightarrow> view s tid = Some (t, v) \<Longrightarrow> t_id t = tid"
    and context_load: "inv s \<Longrightarrow> \<exists>j. so_load_context so ctx s = (Inr j, s)"
    and context_update: "inv s \<Longrightarrow> \<exists>s'. so_update_context so ctx j s = (Inr (), s') \<and> inv s'
        \<and> view s' = view s \<and> idem s' = idem s \<and> so_load_context so ctx s' = (Inr (Some j), s')"
begin

text \<open>The five outcomes of a valid write.\<close>

lemma update_cases:
  assumes "inv s" and "valid_update u"
  obtains (missing) msg where "view s tid = None"
      "so_update_task so now tid u s = (Inl (TaskNotFoundError msg), s)"
  | (stale) t v msg where "view s tid = Some (t, v)" "u_expected_version u \<notin> {None, Some v}"
      "so_update_task so now tid u s = (Inl (ConcurrencyError msg (Some v)), s)"
  | (terminal) t v msg where "view s tid = Some (t, v)" "u_state u \<noteq> None"
      "t_state t \<in> TERMINAL_STATES" "u_expected_version u \<in> {None, Some v}"
      "so_update_task so now tid u s = (Inl (TaskTerminalStateError msg), s)"
  | (written) t v t' s' where "view s tid = Some (t, v)"
      "u_state u = None \<or> t_state t \<notin> TERMINAL_STATES" "u_expected_version u \<in> {None, Some v}"
      "apply_update now u t = Inr t'" "so_update_task so now tid u s = (Inr (v + 1), s')"
      "inv s'" "view s' = (view s)(tid \<mapsto> (t', v + 1))" "idem s' = idem s"
proof (cases "view s tid")
  case None
  with update_missing [OF assms(1)] missing show thesis by blast
next
  case (Some p)
  obtain t v where p: "p = (t, v)" by fastforce
  note tv = Some [unfolded p]
  show thesis
  proof (cases "u_expected_version u \<in> {None, Some v}")
    case False
    then obtain e where "u_expected_version u = Some e" "e \<noteq> v" by auto
    with update_stale [OF assms(1) tv _ _ assms(2)] stale [OF tv False] show thesis by blast
  next
    case ver: True
    show thesis
    proof (cases "u_state u \<noteq> None \<and> t_state t \<in> TERMINAL_STATES")
      case True
      with update_terminal [OF assms(1) tv ver _ _ assms(2)] terminal [OF tv] ver show thesis by blast
    next
      case False
      then have g: "u_state u = None \<or> t_state t \<notin> TERMINAL_STATES" by blast
      obtain t' where t': "apply_update now u t = Inr t'"
        using valid_update_applies [OF assms(2) view_meta [OF assms(1) tv]] by blast
      from update_ok [OF assms(1) tv ver g assms(2) t'] written [OF tv g ver t'] show thesis by blast
    qed
  qed
qed

lemma update_inv:
  assumes "inv s" and "valid_update u"
  shows "inv (snd (so_update_task so now tid u s))"
  using assms(1,2) by (cases rule: update_cases [of s u tid now]) (use assms in auto)

text \<open>Every write takes every task along \<open>task_le\<close>.\<close>

lemma update_le:
  assumes "inv s" and "valid_update u"
  shows "task_le (view s tid') (view (snd (so_update_task so now tid u s)) tid')"
  using assms
proof (cases rule: update_cases [of s u tid now])
  case (written t v t' s')
  then show ?thesis using apply_update_le [OF written(4,2)] by simp
qed simp_all

text \<open>Read your writes.\<close>

lemma read_your_write:
  assumes "inv s" and "valid_update u" and "so_update_task so now tid u s = (Inr v', s')"
    and "view s tid = Some (t, v)"
  shows "\<exists>t'. apply_update now u t = Inr t' \<and> v' = v + 1
    \<and> so_load_task so tid None True s' = (Inr (Some t'), s')
    \<and> so_get_version so tid s' = (Inr (Some v'), s')"
  using assms(1,2)
proof (cases rule: update_cases [of s u tid now])
  case (written t1 w t' s'')
  with assms(3,4) have "inv s'" "view s' tid = Some (t', v + 1)" "v' = v + 1"
    "apply_update now u t = Inr t'" by auto
  then show ?thesis using load [of s' None tid True] version by (simp add: valid_length_def)
qed (use assms in auto)

end

text \<open>Creation, and the index of idempotency keys that makes it idempotent within a context.\<close>

locale storage_core = storage_writes +
  assumes idem_view: "inv s \<Longrightarrow> idem s ctx k = Some tid \<Longrightarrow>
      \<exists>t v. view s tid = Some (t, v) \<and> t_id t = tid \<and> t_context_id t = ctx"
    and create_hit_fresh: "inv s \<Longrightarrow> truthy key \<Longrightarrow> idem s ctx (the key) = Some tid \<Longrightarrow> view s uid = None \<Longrightarrow>
      so_create_task so now uid ctx msg key s = (Inr (fst (the (view s tid))), s)"
    and create_new: "inv s \<Longrightarrow> \<not> truthy key \<or> idem s ctx (the key) = None \<Longrightarrow> view s uid = None \<Longrightarrow>
      \<exists>s'. so_create_task so now uid ctx msg key s
          = (Inr (mark_created (initial_task now uid ctx msg key)), s') \<and> inv s'
        \<and> view s' = (view s)(uid \<mapsto> (initial_task now uid ctx msg key, 1))
        \<and> idem s' = remember ctx key uid (idem s)"

text \<open>A backend may also promise that a known key wins whatever identifier was drawn for the new task, and that it looks at the
  version before anything else.\<close>

locale storage_contract = storage_core +
  assumes create_hit: "inv s \<Longrightarrow> truthy key \<Longrightarrow> idem s ctx (the key) = Some tid \<Longrightarrow>
      so_create_task so now uid ctx msg key s = (Inr (fst (the (view s tid))), s)"
    and stale_first: "inv s \<Longrightarrow> view s tid = Some (t, v) \<Longrightarrow> u_expected_version u = Some e \<Longrightarrow> e \<noteq> v \<Longrightarrow>
      \<exists>msg. so_update_task so now tid u s = (Inl (ConcurrencyError msg (Some v)), s)"
begin

text \<open>Optimistic concurrency: of two writers that read the same version, the second is refused.\<close>

lemma occ_second_writer_refused:
  assumes "inv s" and "valid_update u" and "u_expected_version u = Some v"
    and "so_update_task so now tid u s = (Inr v', s')" and "u_expected_version u' = Some v"
  shows "\<exists>msg. so_update_task so now' tid u' s' = (Inl (ConcurrencyError msg (Some v')), s')"
  using assms(1,2)
proof (cases rule: update_cases [of s u tid now])
  case (written t w t' s'')
  with assms(3,4) have "w = v" "v' = v + 1" "s'' = s'" by auto
  with written have "view s' tid = Some (t', v')" "inv s'" by auto
  from stale_first [OF this(2,1) assms(5)] \<open>v' = v + 1\<close> show ?thesis by simp
qed (use assms in auto)

text \<open>Idempotent creation: a second creation under the same key changes nothing, returns the
  stored task, and carries no marker.\<close>

lemma create_twice:
  assumes "inv s" and "truthy key" and "idem s ctx (the key) = None" and "view s uid = None"
    and "so_create_task so now uid ctx msg key s = (Inr t1, s1)"
  shows "\<exists>t2. so_create_task so now' uid' ctx msg' key s1 = (Inr t2, s1)
    \<and> t_id t2 = t_id t1 \<and> t1 = mark_created t2
    \<and> map_of (metadata_dict t2) ''_a2akit_just_created'' = None"
proof -
  from create_new [OF assms(1) disjI2 [OF assms(3)] assms(4), of now msg] assms(2,5)
  have t1: "t1 = mark_created (initial_task now uid ctx msg key)" and s1: "inv s1"
    "view s1 uid = Some (initial_task now uid ctx msg key, 1)" "idem s1 ctx (the key) = Some uid"
    by auto
  from create_hit [OF s1(1) assms(2) s1(3)] s1(2)
  have "so_create_task so now' uid' ctx msg' key s1 = (Inr (initial_task now uid ctx msg key), s1)"
    by simp
  with t1 initial_task_meta_ok [of now uid ctx msg key] show ?thesis
    by (simp add: mark_created_def task_meta_ok_def)
qed

end

end
