(* ===== verification/Storage_Memory.thy ===== *)
theory Storage_Memory
  imports Storage_Contract Push_Store
begin

text \<open>
  The in-memory backend (\<^verbatim>\<open>storage/memory.py\<close>). The three dictionaries are a record; every
  method of \<^verbatim>\<open>InMemoryStorage\<close> is one definition. Python's deep copies are what makes the values
  of the model independent, so they leave no trace here. \<open>InMemoryStorage_ops\<close> packs the methods
  the framework calls, and the interpretation \<open>mem\<close> shows that they meet the storage contract.
\<close>

record mem_store =
  ms_tasks :: "(string, task) pydict"
  ms_contexts :: "(string, json) pydict"
  ms_versions :: "(string, int) pydict"

definition InMemoryStorage_init :: mem_store where
  "InMemoryStorage_init = \<lparr>ms_tasks = [], ms_contexts = [], ms_versions = []\<rparr>"

definition InMemoryStorage_trim_history :: "'a list option \<Rightarrow> int option \<Rightarrow> 'a list option" where
  "InMemoryStorage_trim_history h hl = (case (hl, h) of
      (None, _) \<Rightarrow> h
    | (_, None) \<Rightarrow> h
    | (Some n, Some xs) \<Rightarrow> if n = 0 then Some [] else Some (slice_from (- n) xs))"

definition InMemoryStorage_present :: "int option \<Rightarrow> bool \<Rightarrow> task \<Rightarrow> task" where
  "InMemoryStorage_present hl ia t =
     (let t1 = t\<lparr>t_history := InMemoryStorage_trim_history (t_history t) hl\<rparr>
      in if \<not> ia then t1\<lparr>t_artifacts := []\<rparr> else t1)"

definition InMemoryStorage_load_task ::
  "string \<Rightarrow> int option \<Rightarrow> bool \<Rightarrow> (mem_store, exn, task option) py" where
  "InMemoryStorage_load_task tid hl ia st = (case map_of (ms_tasks st) tid of
      None \<Rightarrow> (Inr None, st)
    | Some t \<Rightarrow> (Inr (Some (InMemoryStorage_present hl ia t)), st))"

subsection \<open>Listing\<close>

definition ts_str :: "task \<Rightarrow> string" where
  "ts_str t = (case ts_timestamp (t_status t) of None \<Rightarrow> '''' | Some s \<Rightarrow> s)"

definition sort_key :: "task \<Rightarrow> string \<times> string" where
  "sort_key t = (ts_str t, t_id t)"

text \<open>\<^verbatim>\<open>sorted(xs, key=k, reverse=True)\<close> keeps the order of equal elements.\<close>

definition sorted_reverse :: "('a \<Rightarrow> 'b::linorder) \<Rightarrow> 'a list \<Rightarrow> 'a list" where
  "sorted_reverse k xs = rev (List.sort_key k (rev xs))"

definition query_matches :: "list_query \<Rightarrow> task \<Rightarrow> bool" where
  "query_matches q t \<longleftrightarrow>
     (truthy (q_context_id q) \<longrightarrow> t_context_id t = the (q_context_id q)) \<and>
     (q_status q \<noteq> None \<longrightarrow> t_state t = the (q_status q)) \<and>
     (truthy (q_tenant q) \<longrightarrow>
        map_of (metadata_dict t) META_TENANT_KEY = Some (JStr (the (q_tenant q)))) \<and>
     (truthy (q_status_timestamp_after q) \<longrightarrow> \<not> ts_str t \<le> the (q_status_timestamp_after q))"

definition page_offset :: "string option \<Rightarrow> int" where
  "page_offset tok =
     (if truthy tok then case py_int (the tok) of None \<Rightarrow> 0 | Some n \<Rightarrow> n else 0)"

definition InMemoryStorage_list_tasks :: "list_query \<Rightarrow> (mem_store, exn, list_result) py" where
  "InMemoryStorage_list_tasks q st =
     (let all_tasks = sorted_reverse sort_key (map snd (ms_tasks st));
          filtered = filter (query_matches q) all_tasks;
          total_size = int (length filtered);
          offset = page_offset (q_page_token q);
          page = slice offset (offset + q_page_size q) filtered;
          results = map (InMemoryStorage_present (q_history_length q) (q_include_artifacts q)) page;
          next_offset = offset + q_page_size q;
          next_token = (if next_offset < total_size then int_str next_offset else '''')
      in (Inr \<lparr>lr_tasks = results, lr_next_page_token = next_token,
               lr_page_size = q_page_size q, lr_total_size = total_size\<rparr>, st))"

subsection \<open>Creation\<close>

definition idem_match :: "string \<Rightarrow> string \<Rightarrow> task \<Rightarrow> bool" where
  "idem_match ctx key t \<longleftrightarrow> t_context_id t = ctx \<and>
     map_of (metadata_dict t) ''_idempotency_key'' = Some (JStr key)"

definition InMemoryStorage_create_task ::
  "string \<Rightarrow> string \<Rightarrow> string \<Rightarrow> message \<Rightarrow> string option \<Rightarrow> (mem_store, exn, task) py" where
  "InMemoryStorage_create_task now uid ctx msg key st =
     (case (if truthy key then find (idem_match ctx (the key)) (map snd (ms_tasks st)) else None) of
        Some t \<Rightarrow> (Inr t, st)
      | None \<Rightarrow>
          let history_msg = msg\<lparr>m_task_id := Some uid, m_context_id := Some ctx\<rparr>;
              meta0 = (if truthy key then [(''_idempotency_key'', JStr (the key))] else []);
              meta1 = AList.update ''stateTransitions''
                (JList [build_transition_record (state_value task_state_submitted) now None]) meta0;
              meta2 = AList.update META_CREATED_AT_KEY (JStr now) meta1;
              meta3 = AList.update META_LAST_MODIFIED_KEY (JStr now) meta2;
              task = \<lparr>t_id = uid, t_context_id = ctx,
                t_status = \<lparr>ts_state = task_state_submitted, ts_timestamp = Some now,
                            ts_message = None\<rparr>,
                t_history = Some [history_msg], t_artifacts = [], t_metadata = Some meta3\<rparr>;
              st1 = st\<lparr>ms_tasks := AList.update uid task (ms_tasks st),
                        ms_versions := AList.update uid 1 (ms_versions st)\<rparr>;
              returned = task\<lparr>t_metadata := Some
                (AList.update ''_a2akit_just_created'' (JBool True) (metadata_dict task))\<rparr>
          in (Inr returned, st1))"

subsection \<open>Update\<close>

definition InMemoryStorage_get_task_or_raise :: "string \<Rightarrow> (mem_store, exn, task) py" where
  "InMemoryStorage_get_task_or_raise tid st = (case map_of (ms_tasks st) tid of
      None \<Rightarrow> (Inl (TaskNotFoundError ''task not found''), st)
    | Some t \<Rightarrow> (Inr t, st))"

definition InMemoryStorage_apply_artifact :: "artifact \<Rightarrow> bool \<Rightarrow> task \<Rightarrow> task" where
  "InMemoryStorage_apply_artifact a app t =
     (case index_of (\<lambda>b. a_artifact_id b = a_artifact_id a) (t_artifacts t) of
        Some i \<Rightarrow>
          if app then t\<lparr>t_artifacts := (t_artifacts t)
             [i := (t_artifacts t ! i)\<lparr>a_parts := a_parts (t_artifacts t ! i) @ a_parts a\<rparr>]\<rparr>
          else t\<lparr>t_artifacts := (t_artifacts t)[i := a]\<rparr>
      | None \<Rightarrow> t\<lparr>t_artifacts := t_artifacts t @ [a]\<rparr>)"

text \<open>The status part of the write: new status, transition record, last-modified stamp.\<close>

definition InMemoryStorage_apply_status ::
  "string \<Rightarrow> update \<Rightarrow> task \<Rightarrow> mdict \<Rightarrow> exn + task \<times> mdict" where
  "InMemoryStorage_apply_status now u work md = (case u_state u of
      Some s \<Rightarrow>
        (let work1 = work\<lparr>t_status := \<lparr>ts_state = s, ts_timestamp = Some now,
                                        ts_message = u_status_message u\<rparr>\<rparr>
         in case append_transition
                (build_transition_record (state_value s) now (u_status_message u)) md of
              Inl e \<Rightarrow> Inl e
            | Inr md1 \<Rightarrow> Inr (work1, AList.update META_LAST_MODIFIED_KEY (JStr now) md1))
    | None \<Rightarrow> (case u_status_message u of
          None \<Rightarrow> Inr (work, md)
        | Some m \<Rightarrow> Inr (work\<lparr>t_status := \<lparr>ts_state = t_state work, ts_timestamp = Some now,
                                             ts_message = Some m\<rparr>\<rparr>,
                         AList.update META_LAST_MODIFIED_KEY (JStr now) md)))"

definition InMemoryStorage_update_task ::
  "string \<Rightarrow> string \<Rightarrow> update \<Rightarrow> (mem_store, exn, int) py" where
  "InMemoryStorage_update_task now tid u =
     bindE (InMemoryStorage_get_task_or_raise tid) (\<lambda>task st.
       let current_version = (case map_of (ms_versions st) tid of None \<Rightarrow> 1 | Some v \<Rightarrow> v) in
       if u_expected_version u \<noteq> None \<and> the (u_expected_version u) \<noteq> current_version then
         (Inl (ConcurrencyError
            (version_mismatch_text tid (the (u_expected_version u)) current_version)
            (Some current_version)), st)
       else if u_state u \<noteq> None \<and> t_state task \<in> TERMINAL_STATES then
         (Inl (TaskTerminalStateError
            (terminal_transition_text tid (t_state task) (the (u_state u)))), st)
       else
         let work0 = task;
             work1 = (case u_messages u of None \<Rightarrow> work0 | Some ms \<Rightarrow>
                if ms = [] then work0 else work0\<lparr>t_history := Some (history_list work0 @ ms)\<rparr>);
             work2 = (case u_artifacts u of None \<Rightarrow> work1 | Some ws \<Rightarrow>
                fold (\<lambda>aw w. InMemoryStorage_apply_artifact (aw_artifact aw) (aw_append aw) w) ws work1);
             md0 = metadata_dict work2;
             md1 = (case u_task_metadata u of None \<Rightarrow> md0 | Some tm \<Rightarrow> dmerge md0 tm)
         in case InMemoryStorage_apply_status now u work2 md1 of
              Inl e \<Rightarrow> (Inl e, st)
            | Inr (work3, md2) \<Rightarrow>
                let work4 = work3\<lparr>t_metadata := (if md2 = [] then None else Some md2)\<rparr>;
                    new_version = current_version + 1
                in (Inr new_version,
                    st\<lparr>ms_tasks := AList.update tid work4 (ms_tasks st),
                       ms_versions := AList.update tid new_version (ms_versions st)\<rparr>))"

subsection \<open>Deletion, versions, contexts\<close>

text \<open>The second component of the state is the push-config store bound to the storage, if any.\<close>

definition cascade_push_delete_for_task :: "string \<Rightarrow> push_store option \<Rightarrow> push_store option" where
  "cascade_push_delete_for_task tid ps =
     (case ps of None \<Rightarrow> None | Some p \<Rightarrow> Some (snd (push_delete_configs_for_task tid p)))"

definition cascade_push_delete_for_tasks ::
  "string list \<Rightarrow> push_store option \<Rightarrow> push_store option" where
  "cascade_push_delete_for_tasks tids ps = (case ps of None \<Rightarrow> None
     | Some p \<Rightarrow> Some (fold (\<lambda>tid q. snd (push_delete_configs_for_task tid q)) tids p))"

definition InMemoryStorage_delete_task ::
  "string \<Rightarrow> mem_store \<times> push_store option \<Rightarrow> bool \<times> mem_store \<times> push_store option" where
  "InMemoryStorage_delete_task tid = (\<lambda>(st, ps).
     let existed = map_of (ms_tasks st) tid \<noteq> None;
         st1 = st\<lparr>ms_versions := AList.delete tid (ms_versions st),
                  ms_tasks := AList.delete tid (ms_tasks st)\<rparr>
     in (existed, st1, if existed then cascade_push_delete_for_task tid ps else ps))"

definition InMemoryStorage_delete_context ::
  "string \<Rightarrow> mem_store \<times> push_store option \<Rightarrow> nat \<times> mem_store \<times> push_store option" where
  "InMemoryStorage_delete_context ctx = (\<lambda>(st, ps).
     let to_delete = map fst (filter (\<lambda>(tid, t). t_context_id t = ctx) (ms_tasks st));
         st1 = fold (\<lambda>tid s. s\<lparr>ms_tasks := AList.delete tid (ms_tasks s),
                               ms_versions := AList.delete tid (ms_versions s)\<rparr>) to_delete st;
         st2 = st1\<lparr>ms_contexts := AList.delete ctx (ms_contexts st1)\<rparr>
     in (length to_delete, st2, cascade_push_delete_for_tasks to_delete ps))"

definition InMemoryStorage_get_version :: "string \<Rightarrow> (mem_store, exn, int option) py" where
  "InMemoryStorage_get_version tid st = (Inr (map_of (ms_versions st) tid), st)"

definition InMemoryStorage_load_context :: "string \<Rightarrow> (mem_store, exn, json option) py" where
  "InMemoryStorage_load_context ctx st = (Inr (map_of (ms_contexts st) ctx), st)"

definition InMemoryStorage_update_context :: "string \<Rightarrow> json \<Rightarrow> (mem_store, exn, unit) py" where
  "InMemoryStorage_update_context ctx v st =
     (Inr (), st\<lparr>ms_contexts := AList.update ctx v (ms_contexts st)\<rparr>)"

definition InMemoryStorage_ops :: "mem_store storage_ops" where
  "InMemoryStorage_ops = \<lparr>
     so_load_task = InMemoryStorage_load_task,
     so_create_task = InMemoryStorage_create_task,
     so_update_task = InMemoryStorage_update_task,
     so_get_version = InMemoryStorage_get_version,
     so_list_tasks = InMemoryStorage_list_tasks,
     so_load_context = InMemoryStorage_load_context,
     so_update_context = InMemoryStorage_update_context\<rparr>"

lemma InMemoryStorage_ops_simps [simp]:
  "so_load_task InMemoryStorage_ops = InMemoryStorage_load_task"
  "so_create_task InMemoryStorage_ops = InMemoryStorage_create_task"
  "so_update_task InMemoryStorage_ops = InMemoryStorage_update_task"
  "so_get_version InMemoryStorage_ops = InMemoryStorage_get_version"
  "so_list_tasks InMemoryStorage_ops = InMemoryStorage_list_tasks"
  "so_load_context InMemoryStorage_ops = InMemoryStorage_load_context"
  "so_update_context InMemoryStorage_ops = InMemoryStorage_update_context"
  by (simp_all add: InMemoryStorage_ops_def)

section \<open>The backend meets the contract\<close>

text \<open>Abstract content, idempotency index and invariant of the in-memory backend.\<close>

definition mem_view :: "mem_store \<Rightarrow> string \<Rightarrow> (task \<times> int) option" where
  "mem_view st tid = (case map_of (ms_tasks st) tid of None \<Rightarrow> None
     | Some t \<Rightarrow> Some (t, case map_of (ms_versions st) tid of None \<Rightarrow> 1 | Some v \<Rightarrow> v))"

definition mem_idem :: "mem_store \<Rightarrow> string \<Rightarrow> string \<Rightarrow> string option" where
  "mem_idem st ctx key = map_option t_id (find (idem_match ctx key) (map snd (ms_tasks st)))"

definition mem_inv :: "mem_store \<Rightarrow> bool" where
  "mem_inv st \<longleftrightarrow> distinct (map fst (ms_tasks st)) \<and>
     (\<forall>tid. map_of (ms_versions st) tid = None \<longleftrightarrow> map_of (ms_tasks st) tid = None) \<and>
     (\<forall>(tid, t) \<in> set (ms_tasks st). t_id t = tid \<and> task_meta_ok t)"

lemma mem_inv_init: "mem_inv InMemoryStorage_init"
  by (simp add: mem_inv_def InMemoryStorage_init_def)

lemma mem_inv_task: "mem_inv st \<Longrightarrow> map_of (ms_tasks st) tid = Some t \<Longrightarrow> t_id t = tid \<and> task_meta_ok t"
  by (auto simp: mem_inv_def dest: map_of_SomeD)

lemma mem_view_eq:
  assumes "mem_inv st"
  shows "mem_view st tid = Some (t, v) \<longleftrightarrow>
    map_of (ms_tasks st) tid = Some t \<and> map_of (ms_versions st) tid = Some v"
proof -
  from assms have "map_of (ms_versions st) tid = None \<longleftrightarrow> map_of (ms_tasks st) tid = None"
    by (simp add: mem_inv_def)
  then show ?thesis
    by (cases "map_of (ms_tasks st) tid"; cases "map_of (ms_versions st) tid")
      (simp_all add: mem_view_def)
qed

text \<open>The index-based artifact upsert is the reference one.\<close>

lemma index_update_upsert:
  "(case index_of (\<lambda>b. a_artifact_id b = a_artifact_id a) as of
      Some i \<Rightarrow> if app then as[i := (as ! i)\<lparr>a_parts := a_parts (as ! i) @ a_parts a\<rparr>] else as[i := a]
    | None \<Rightarrow> as @ [a]) = upsert_artifact a app as"
  by (induction as) (auto split: option.splits)

lemma apply_artifact_upsert:
  "InMemoryStorage_apply_artifact a app t = t\<lparr>t_artifacts := upsert_artifact a app (t_artifacts t)\<rparr>"
  unfolding InMemoryStorage_apply_artifact_def index_update_upsert [symmetric]
  by (simp split: option.split)

lemma fold_apply_artifact:
  "fold (\<lambda>aw w. InMemoryStorage_apply_artifact (aw_artifact aw) (aw_append aw) w) ws t
   = t\<lparr>t_artifacts := upsert_all ws (t_artifacts t)\<rparr>"
  unfolding upsert_all_def by (induction ws arbitrary: t) (simp_all add: apply_artifact_upsert)

lemma apply_status_eq:
  "InMemoryStorage_apply_status now u w (dmerge md (opt_list (u_task_metadata u))) =
     (case new_metadata now u md of Inl e \<Rightarrow> Inl e
      | Inr md' \<Rightarrow> Inr (w\<lparr>t_status := new_status now u (t_status w)\<rparr>, md'))"
  by (auto simp: InMemoryStorage_apply_status_def new_metadata_def new_status_def Let_def
      split: option.splits sum.splits)

text \<open>The whole write: guards in the order of the code, then \<open>apply_update\<close>.\<close>

lemma InMemoryStorage_update_task_spec:
  "InMemoryStorage_update_task now tid u st = (case mem_view st tid of
     None \<Rightarrow> (Inl (TaskNotFoundError ''task not found''), st)
   | Some (t, v) \<Rightarrow>
       if u_expected_version u \<notin> {None, Some v} then
         (Inl (ConcurrencyError
            (version_mismatch_text tid (the (u_expected_version u)) v) (Some v)), st)
       else if u_state u \<noteq> None \<and> t_state t \<in> TERMINAL_STATES then
         (Inl (TaskTerminalStateError
            (terminal_transition_text tid (t_state t) (the (u_state u)))), st)
       else case apply_update now u t of
         Inl e \<Rightarrow> (Inl e, st)
       | Inr t' \<Rightarrow> (Inr (v + 1),
           st\<lparr>ms_tasks := AList.update tid t' (ms_tasks st),
              ms_versions := AList.update tid (v + 1) (ms_versions st)\<rparr>))"
proof (cases "map_of (ms_tasks st) tid")
  case None
  then show ?thesis
    by (simp add: InMemoryStorage_update_task_def InMemoryStorage_get_task_or_raise_def
        mem_view_def py_defs)
next
  case (Some t)
  define v where "v = (case map_of (ms_versions st) tid of None \<Rightarrow> 1 | Some v \<Rightarrow> v)"
  have view: "mem_view st tid = Some (t, v)" by (simp add: mem_view_def v_def Some)
  have guard: "u_expected_version u \<noteq> None \<and> the (u_expected_version u) \<noteq> v
      \<longleftrightarrow> u_expected_version u \<notin> {None, Some v}"
    by (cases "u_expected_version u") auto
  define h where "h = (if opt_list (u_messages u) = [] then t_history t
                 else Some (history_list t @ opt_list (u_messages u)))"
  define as where "as = upsert_all (opt_list (u_artifacts u)) (t_artifacts t)"
  have w1: "(case u_messages u of None \<Rightarrow> t | Some ms \<Rightarrow>
      if ms = [] then t else t\<lparr>t_history := Some (history_list t @ ms)\<rparr>) = t\<lparr>t_history := h\<rparr>"
    by (simp add: h_def split: option.split)
  have w2: "(case u_artifacts u of None \<Rightarrow> t\<lparr>t_history := h\<rparr> | Some ws \<Rightarrow>
      fold (\<lambda>aw w. InMemoryStorage_apply_artifact (aw_artifact aw) (aw_append aw) w) ws (t\<lparr>t_history := h\<rparr>))
    = t\<lparr>t_history := h, t_artifacts := as\<rparr>"
    by (simp add: fold_apply_artifact as_def split: option.split)
  have md: "(case u_task_metadata u of None \<Rightarrow> m | Some tm \<Rightarrow> dmerge m tm)
      = dmerge m (opt_list (u_task_metadata u))" for m
    by (simp split: option.split)
  have md0: "metadata_dict (t\<lparr>t_history := h, t_artifacts := as\<rparr>) = metadata_dict t" by simp
  have au: "apply_update now u t = (case new_metadata now u (metadata_dict t) of Inl e \<Rightarrow> Inl e
      | Inr md \<Rightarrow> Inr (t\<lparr>t_history := h, t_artifacts := as, t_status := new_status now u (t_status t),
          t_metadata := (if md = [] then None else Some md)\<rparr>))"
    unfolding apply_update_def h_def as_def by (rule refl)
  show ?thesis
    unfolding InMemoryStorage_update_task_def InMemoryStorage_get_task_or_raise_def view
    unfolding Let_def bindE_def tryE_def Some option.case prod.case sum.case v_def [symmetric]
      guard w1 w2 md0 md apply_status_eq au
    by (simp split: sum.split)
qed

section \<open>Interpretation\<close>

lemma mem_inv_update:
  assumes "mem_inv st" and "t_id t' = tid" and "task_meta_ok t'"
  shows "mem_inv (st\<lparr>ms_tasks := AList.update tid t' (ms_tasks st),
                     ms_versions := AList.update tid v (ms_versions st)\<rparr>)"
  using assms by (auto simp: mem_inv_def dest!: in_set_update)

lemma mem_view_update:
  "mem_view (st\<lparr>ms_tasks := AList.update tid t' (ms_tasks st),
                ms_versions := AList.update tid v (ms_versions st)\<rparr>) = (mem_view st)(tid \<mapsto> (t', v))"
  by (rule ext) (simp add: mem_view_def split: option.split)

text \<open>A replaced task keeps its place in the dictionary, so the first match stays the first.\<close>

lemma find_update_same:
  assumes "map_of d k = Some x" and "P x = P y" and "f x = f y"
  shows "map_option f (find P (map snd (AList.update k y d))) = map_option f (find P (map snd d))"
  using assms by (induction d) (auto split: if_splits)

lemma find_update_fresh:
  assumes "k \<notin> fst ` set d"
  shows "find P (map snd (AList.update k y d)) = (case find P (map snd d) of None \<Rightarrow> if P y then Some y else None | x \<Rightarrow> x)"
  using assms by (induction d) (auto split: if_splits)

lemma mem_idem_update:
  assumes "map_of (ms_tasks st) tid = Some t" and "t_id t' = t_id t"
    and "t_context_id t' = t_context_id t"
    and "map_of (metadata_dict t') ''_idempotency_key'' = map_of (metadata_dict t) ''_idempotency_key''"
  shows "mem_idem (st\<lparr>ms_tasks := AList.update tid t' (ms_tasks st),
                      ms_versions := AList.update tid v (ms_versions st)\<rparr>) = mem_idem st"
  by (auto simp: mem_idem_def fun_eq_iff idem_match_def assms intro!: find_update_same [OF assms(1)])

lemma InMemoryStorage_present_load_view:
  "valid_length hl \<Longrightarrow> InMemoryStorage_present hl ia t = load_view hl ia t"
proof -
  assume "valid_length hl"
  then have "InMemoryStorage_trim_history h hl = map_option (trim_history hl) h" for h :: "message list option"
  proof (cases hl)
    case (Some n)
    with \<open>valid_length hl\<close> have "0 \<le> n" by (simp add: valid_length_def)
    then show ?thesis
      using Some slice_from_neg [of "nat n"]
      by (cases h; cases "n = 0") (simp_all add: InMemoryStorage_trim_history_def trim_history_def)
  qed (cases h; simp add: InMemoryStorage_trim_history_def)
  then show ?thesis by (simp add: InMemoryStorage_present_def load_view_def Let_def)
qed

lemma mem_create_new:
  assumes "mem_inv st" and "\<not> truthy key \<or> mem_idem st ctx (the key) = None"
  shows "InMemoryStorage_create_task now uid ctx msg key st =
    (Inr (mark_created (initial_task now uid ctx msg key)),
     st\<lparr>ms_tasks := AList.update uid (initial_task now uid ctx msg key) (ms_tasks st),
        ms_versions := AList.update uid 1 (ms_versions st)\<rparr>)"
proof -
  have "(if truthy key then find (idem_match ctx (the key)) (map snd (ms_tasks st)) else None) = None"
    using assms(2) by (auto simp: mem_idem_def)
  then show ?thesis
    by (simp add: InMemoryStorage_create_task_def Let_def initial_task_def mark_created_def
        META_CREATED_AT_KEY_def META_LAST_MODIFIED_KEY_def)
qed

lemma mem_find_stored:
  assumes "mem_inv st" and "find p (map snd (ms_tasks st)) = Some t"
  shows "map_of (ms_tasks st) (t_id t) = Some t \<and> p t"
proof -
  from find_SomeD [OF assms(2)] obtain tid where "(tid, t) \<in> set (ms_tasks st)" "p t" by auto
  moreover from this(1) assms(1) have "t_id t = tid" by (auto simp: mem_inv_def)
  ultimately show ?thesis using assms(1) by (auto simp: mem_inv_def intro: map_of_is_SomeI)
qed

lemma mem_create_known:
  assumes "mem_inv s" and "truthy key" and "mem_idem s ctx (the key) = Some tid"
  shows "so_create_task InMemoryStorage_ops now uid ctx msg key s = (Inr (fst (the (mem_view s tid))), s)"
proof -
  obtain t where t: "find (idem_match ctx (the key)) (map snd (ms_tasks s)) = Some t" "t_id t = tid"
    using assms(3) by (auto simp: mem_idem_def)
  from mem_find_stored [OF assms(1) t(1)] t assms show ?thesis
    by (simp add: InMemoryStorage_create_task_def mem_view_def)
qed

interpretation mem: storage_contract InMemoryStorage_ops mem_inv mem_view mem_idem
proof (unfold_locales, goal_cases)
  case (1 s hl tid ia)
  then show ?case
    by (auto simp: InMemoryStorage_load_task_def mem_view_def InMemoryStorage_present_load_view
        split: option.split)
next
  case (2 s tid)
  then have "map_of (ms_versions s) tid = None \<longleftrightarrow> map_of (ms_tasks s) tid = None"
    by (simp add: mem_inv_def)
  then show ?case
    by (auto simp: InMemoryStorage_get_version_def mem_view_def split: option.split)
next
  case (3 s tid t v)
  then show ?case using mem_inv_task mem_view_eq by blast
next
  case (11 s ctx k tid)
  then obtain t where t: "find (idem_match ctx k) (map snd (ms_tasks s)) = Some t" "t_id t = tid"
    by (auto simp: mem_idem_def)
  from mem_find_stored [OF 11(1) t(1)] t(2) show ?case by (auto simp: mem_view_def idem_match_def)
next
  case (4 s tid now u)
  then show ?case by (simp add: InMemoryStorage_update_task_spec)
next
  case (5 s tid t v u e now)
  then show ?case by (simp add: InMemoryStorage_update_task_spec)
next
  case (6 s tid t v u now)
  then show ?case by (simp add: InMemoryStorage_update_task_spec)
next
  case (7 s tid t v u now t')
  from 7(1,2) have t: "map_of (ms_tasks s) tid = Some t" "t_id t = tid" "task_meta_ok t"
    using mem_inv_task mem_view_eq by blast+
  from valid_update_applies [OF 7(5) t(3), of now] 7(6)
  have t': "task_meta_ok t'"
    "map_of (metadata_dict t') ''_idempotency_key'' = map_of (metadata_dict t) ''_idempotency_key''"
    by simp_all
  show ?case
    using 7 t t' apply_update_fields(1,2) [OF 7(6)]
    by (auto simp: InMemoryStorage_update_task_spec mem_inv_update mem_view_update mem_idem_update)
next
  case (12 s key ctx tid uid now msg)
  then show ?case using mem_create_known by simp
next
  case (13 s key ctx uid now msg)
  let ?t = "initial_task now uid ctx msg key"
  from 13(3) have fresh: "map_of (ms_tasks s) uid = None" by (auto simp: mem_view_def split: option.splits)
  then have "uid \<notin> fst ` set (ms_tasks s)" by (simp add: map_of_eq_None_iff)
  note upd = find_update_fresh [OF this, of _ ?t]
  have "map_option t_id (find (idem_match c k) (map snd (AList.update uid ?t (ms_tasks s)))) = remember ctx key uid (mem_idem s) c k" for c k
    using 13(2) initial_task_key [of key now uid ctx msg]
    by (cases "truthy key") (auto simp: upd remember_def mem_idem_def idem_match_def split: option.split)
  then show ?case
    using 13 mem_create_new [OF 13(1,2), of now uid msg] initial_task_meta_ok [of now uid ctx msg key]
    by (auto simp: mem_inv_update mem_view_update mem_idem_def fun_eq_iff)
next
  case (8 s tid t v)
  then show ?case using mem_inv_task mem_view_eq by blast
next
  case (9 s ctx)
  then show ?case by (simp add: InMemoryStorage_load_context_def)
next
  case (10 s ctx j)
  then show ?case
    by (simp add: InMemoryStorage_update_context_def InMemoryStorage_load_context_def mem_inv_def
        mem_view_def [abs_def] mem_idem_def [abs_def] cong: option.case_cong)
next
  case (14 s key ctx tid now uid msg)
  then show ?case by (rule mem_create_known)
next
  case (15 s tid t v u e now)
  then show ?case by (simp add: InMemoryStorage_update_task_spec)
qed

section \<open>Listing and pagination\<close>

lemma sorted_reverse_props:
  "set (sorted_reverse k xs) = set xs" "length (sorted_reverse k xs) = length xs"
  "sorted_wrt (\<lambda>a b. k b \<le> k a) (sorted_reverse k xs)"
  "distinct xs \<Longrightarrow> distinct (sorted_reverse k xs)"
proof -
  have "sorted_wrt (\<lambda>a b. k a \<le> k b) (List.sort_key k (rev xs))"
    using sorted_sort_key [of k "rev xs"] by (simp add: sorted_map)
  then show "sorted_wrt (\<lambda>a b. k b \<le> k a) (sorted_reverse k xs)"
    by (simp add: sorted_reverse_def sorted_wrt_rev)
qed (simp_all add: sorted_reverse_def)

text \<open>All tasks a query selects, in the order of the listing.\<close>

definition selected :: "list_query \<Rightarrow> mem_store \<Rightarrow> task list" where
  "selected q st = filter (query_matches q) (sorted_reverse sort_key (map snd (ms_tasks st)))"

lemma query_matches_token [simp]: "query_matches (q\<lparr>q_page_token := tok\<rparr>) = query_matches q"
  by (rule ext) (simp add: query_matches_def)

lemma selected_token [simp]: "selected (q\<lparr>q_page_token := tok\<rparr>) st = selected q st"
  by (simp add: selected_def)

lemma list_tasks_at:
  assumes "page_offset (q_page_token q) = int k" and "q_page_size q = int p"
  shows "InMemoryStorage_list_tasks q st = (Inr \<lparr>
     lr_tasks = map (InMemoryStorage_present (q_history_length q) (q_include_artifacts q))
       (take p (drop k (selected q st))),
     lr_next_page_token = (if k + p < length (selected q st) then int_str (int (k + p)) else ''''),
     lr_page_size = int p, lr_total_size = int (length (selected q st))\<rparr>, st)"
proof -
  have "slice (int k) (int k + int p) xs = take p (drop k xs)" for xs :: "task list"
    using slice_nonneg [of k "k + p" xs] by simp
  with assms show ?thesis
    by (simp add: InMemoryStorage_list_tasks_def Let_def selected_def)
qed

text \<open>A client that follows \<^verbatim>\<open>nextPageToken\<close> until it is empty; \<open>None\<close> when the fuel runs out.\<close>

fun walk_pages :: "nat \<Rightarrow> list_query \<Rightarrow> mem_store \<Rightarrow> task list option" where
  "walk_pages 0 q st = None"
| "walk_pages (Suc n) q st = (case fst (InMemoryStorage_list_tasks q st) of
      Inl _ \<Rightarrow> None
    | Inr r \<Rightarrow> if lr_next_page_token r = '''' then Some (lr_tasks r)
        else map_option ((@) (lr_tasks r))
          (walk_pages n (q\<lparr>q_page_token := Some (lr_next_page_token r)\<rparr>) st))"

lemma page_offset_int_str [simp]: "page_offset (Some (int_str i)) = i"
  by (simp add: page_offset_def)

lemma walk_pages_from:
  assumes "page_offset (q_page_token q) = int k" and "q_page_size q = int p" and "0 < p"
    and "length (selected q st) < n + k" and "0 < n"
  shows "walk_pages n q st = Some (map
    (InMemoryStorage_present (q_history_length q) (q_include_artifacts q)) (drop k (selected q st)))"
  using assms
proof (induction n arbitrary: q k)
  case 0
  then show ?case by simp
next
  case (Suc n)
  show ?case
  proof (cases "k + p < length (selected q st)")
    case False
    with Suc.prems show ?thesis by (simp add: list_tasks_at)
  next
    case True
    let ?q = "q\<lparr>q_page_token := Some (int_str (int (k + p)))\<rparr>"
    have "walk_pages n ?q st = Some (map
      (InMemoryStorage_present (q_history_length q) (q_include_artifacts q)) (drop (k + p) (selected q st)))"
      using Suc.IH [of ?q "k + p"] Suc.prems True by simp
    moreover have "take p (drop k (selected q st)) @ drop (k + p) (selected q st) = drop k (selected q st)"
      by (metis append_take_drop_id drop_drop add.commute)
    ultimately show ?thesis
      using True by (simp add: list_tasks_at [OF Suc.prems(1,2)] flip: map_append)
  qed
qed

section \<open>Deletion\<close>

lemma fold_delete_tasks:
  "ms_tasks (fold (\<lambda>tid s. s\<lparr>ms_tasks := AList.delete tid (ms_tasks s),
       ms_versions := AList.delete tid (ms_versions s)\<rparr>) ids st)
     = filter (\<lambda>x. fst x \<notin> set ids) (ms_tasks st)"
  "ms_versions (fold (\<lambda>tid s. s\<lparr>ms_tasks := AList.delete tid (ms_tasks s),
       ms_versions := AList.delete tid (ms_versions s)\<rparr>) ids st)
     = filter (\<lambda>x. fst x \<notin> set ids) (ms_versions st)"
  by (induction ids arbitrary: st) (auto simp: AList.delete_eq filter_filter intro: filter_cong)

lemma map_of_filter_notin:
  "map_of (filter (\<lambda>x. fst x \<notin> A) d) k = (if k \<in> A then None else map_of d k)"
  by (induction d) auto

lemma fold_cascade:
  "push_list_configs tid' (fold (\<lambda>tid q. snd (push_delete_configs_for_task tid q)) tids p)
     = (if tid' \<in> set tids then [] else push_list_configs tid' p)"
  by (induction tids arbitrary: p) (auto simp: mem_push.cascade_list)

lemma delete_context_view:
  assumes "distinct (map fst (ms_tasks st))" and "InMemoryStorage_delete_context ctx (st, ps) = (n, st', ps')"
  shows "mem_view st' tid = (case mem_view st tid of None \<Rightarrow> None
      | Some (t, v) \<Rightarrow> if t_context_id t = ctx then None else Some (t, v))"
proof -
  let ?ids = "set (map fst (filter (\<lambda>(tid, t). t_context_id t = ctx) (ms_tasks st)))"
  have ids: "tid \<in> ?ids \<longleftrightarrow> (\<exists>t. map_of (ms_tasks st) tid = Some t \<and> t_context_id t = ctx)"
    using map_of_eq_Some_iff [of "ms_tasks st" tid] assms(1)
    by (auto simp: image_iff Bex_def)
  have st': "map_of (ms_tasks st') tid = (if tid \<in> ?ids then None else map_of (ms_tasks st) tid)"
    "map_of (ms_versions st') tid = (if tid \<in> ?ids then None else map_of (ms_versions st) tid)"
    using assms(2)
    by (auto simp: InMemoryStorage_delete_context_def Let_def fold_delete_tasks map_of_filter_notin
        simp del: set_map)
  show ?thesis using ids unfolding mem_view_def st' by (auto split: option.split)
qed

end
