(* ===== verification/Broker_Memory.thy ===== *)
theory Broker_Memory
  imports A2A_Types
begin

text \<open>
  The in-memory broker and cancel registry (\<^verbatim>\<open>broker/base.py\<close>, \<^verbatim>\<open>broker/memory.py\<close>). The registry
  maps a task id to the flag of its event. The broker is a first-in first-out queue of operations
  with their attempt number; a handle is the pair it yields, \<open>ack\<close> does nothing and \<open>nack\<close> puts
  the operation back with the next attempt number. Sending on a closed stream raises.
\<close>

section \<open>Cancel registry\<close>

type_synonym cancel_registry = "(string, bool) pydict"

definition CancelRegistry_request_cancel :: "string \<Rightarrow> cancel_registry \<Rightarrow> cancel_registry" where
  "CancelRegistry_request_cancel tid cr = AList.update tid True cr"

definition CancelRegistry_is_cancelled :: "string \<Rightarrow> cancel_registry \<Rightarrow> bool" where
  "CancelRegistry_is_cancelled tid cr = (case map_of cr tid of None \<Rightarrow> False | Some b \<Rightarrow> b)"

text \<open>\<^verbatim>\<open>setdefault(task_id, Event())\<close>: the scope it returns reads the flag of the entry.\<close>

definition CancelRegistry_on_cancel :: "string \<Rightarrow> cancel_registry \<Rightarrow> cancel_registry" where
  "CancelRegistry_on_cancel tid cr =
     (case map_of cr tid of None \<Rightarrow> AList.update tid False cr | Some _ \<Rightarrow> cr)"

definition CancelRegistry_cleanup :: "string \<Rightarrow> bool \<Rightarrow> cancel_registry \<Rightarrow> cancel_registry" where
  "CancelRegistry_cleanup tid release_key cr = (if release_key then AList.delete tid cr else cr)"

text \<open>The contract of the abstract class: a request is seen until the key is released, releasing
  concerns one task only, is idempotent, and is not done for a paused turn.\<close>

locale cancel_registry =
  fixes request :: "string \<Rightarrow> 'c \<Rightarrow> 'c"
    and is_set :: "string \<Rightarrow> 'c \<Rightarrow> bool"
    and scope :: "string \<Rightarrow> 'c \<Rightarrow> 'c"
    and cleanup :: "string \<Rightarrow> bool \<Rightarrow> 'c \<Rightarrow> 'c"
  assumes set_request: "is_set tid' (request tid cr) \<longleftrightarrow> tid' = tid \<or> is_set tid' cr"
    and set_scope: "is_set tid' (scope tid cr) \<longleftrightarrow> is_set tid' cr"
    and set_cleanup: "is_set tid' (cleanup tid rel cr) \<longleftrightarrow> is_set tid' cr \<and> \<not> (rel \<and> tid' = tid)"
    and cleanup_twice: "cleanup tid rel (cleanup tid rel cr) = cleanup tid rel cr"
begin

text \<open>A request that arrives during or between turns survives any number of paused turns.\<close>

lemma request_survives_pauses:
  "is_set tid ((cleanup tid False ^^ n) (request tid cr))"
  by (induction n) (simp_all add: set_request set_cleanup)

lemma release_forgets: "\<not> is_set tid (cleanup tid True cr)"
  by (simp add: set_cleanup)

end

interpretation mem_cancel: cancel_registry CancelRegistry_request_cancel CancelRegistry_is_cancelled
  CancelRegistry_on_cancel CancelRegistry_cleanup
  by unfold_locales
    (auto simp: CancelRegistry_request_cancel_def CancelRegistry_is_cancelled_def
      CancelRegistry_on_cancel_def CancelRegistry_cleanup_def AList.delete_idem split: option.splits)

section \<open>Broker\<close>

text \<open>\<^verbatim>\<open>SendMessageRequest\<close> and its configuration, as far as the framework reads them. The push
  configuration comes in the flat shape of v1.0 or the nested one of v0.3.\<close>

record inline_push =
  ip_id :: "string option"
  ip_url :: string
  ip_token :: "string option"
  ip_auth_v10 :: "(string option \<times> string option) option"
  ip_auth_v03 :: "(string list option \<times> string option) option"

record send_config =
  sc_return_immediately :: "bool option"
  sc_history_length :: "int option"
  sc_accepted_output_modes :: "string list"
  sc_task_push :: "inline_push option"
  sc_push_v03 :: "inline_push option"

record send_request =
  sr_message :: message
  sr_configuration :: "send_config option"
  sr_tenant :: "string option"

record run_op =
  ro_params :: send_request
  ro_is_new_task :: bool
  ro_request_context :: mdict

record enqueued_op =
  eo_op :: run_op
  eo_attempt :: int

record broker =
  br_queue :: "enqueued_op list"
  br_closed :: bool

definition InMemoryBroker_send :: "enqueued_op \<Rightarrow> (broker, exn, unit) py" where
  "InMemoryBroker_send e b =
     (if br_closed b then (Inl (BackendError ''ClosedResourceError''), b)
      else (Inr (), b\<lparr>br_queue := br_queue b @ [e]\<rparr>))"

definition InMemoryBroker_run_task ::
  "send_request \<Rightarrow> bool \<Rightarrow> mdict option \<Rightarrow> (broker, exn, unit) py" where
  "InMemoryBroker_run_task params is_new rc =
     InMemoryBroker_send \<lparr>eo_op = \<lparr>ro_params = params, ro_is_new_task = is_new,
                                   ro_request_context = opt_list rc\<rparr>, eo_attempt = 1\<rparr>"

definition InMemoryBroker_shutdown :: "broker \<Rightarrow> broker" where
  "InMemoryBroker_shutdown b = b\<lparr>br_closed := True\<rparr>"

text \<open>One step of \<^verbatim>\<open>receive_task_operations\<close>: the next handle, or \<open>None\<close> when the queue is empty
  (the iteration then waits, or ends if the stream was closed).\<close>

definition InMemoryBroker_receive :: "broker \<Rightarrow> enqueued_op option \<times> broker" where
  "InMemoryBroker_receive b =
     (case br_queue b of [] \<Rightarrow> (None, b) | e # es \<Rightarrow> (Some e, b\<lparr>br_queue := es\<rparr>))"

definition OperationHandle_ack :: "enqueued_op \<Rightarrow> (broker, exn, unit) py" where
  "OperationHandle_ack e b = (Inr (), b)"

definition InMemoryBroker_requeue :: "enqueued_op \<Rightarrow> (broker, exn, unit) py" where
  "InMemoryBroker_requeue e = InMemoryBroker_send e"

definition OperationHandle_nack :: "enqueued_op \<Rightarrow> (broker, exn, unit) py" where
  "OperationHandle_nack e =
     InMemoryBroker_requeue \<lparr>eo_op = eo_op e, eo_attempt = eo_attempt e + 1\<rparr>"

lemma nack_open:
  "\<not> br_closed b \<Longrightarrow> OperationHandle_nack e b
     = (Inr (), b\<lparr>br_queue := br_queue b @ [\<lparr>eo_op = eo_op e, eo_attempt = eo_attempt e + 1\<rparr>]\<rparr>)"
  by (simp add: OperationHandle_nack_def InMemoryBroker_requeue_def InMemoryBroker_send_def)

end
