(* ===== verification/Event_Bus.thy ===== *)
theory Event_Bus
  imports A2A_Types Complex_Main
begin

text \<open>
  The in-memory event bus (\<^verbatim>\<open>event_bus/memory.py\<close>): per-task subscribers, a bounded replay buffer,
  a monotonic event counter and the deadlines after which replay state may be purged.

  The memory streams of anyio are not part of the repository: a subscriber's stream is a value of
  the type parameter \<open>'q\<close>, and \<open>send\<close> stands for \<^verbatim>\<open>send_nowait\<close>, which delivers the item, reports a
  dead stream (closed or broken) or would block. Every entry carries the identity of its stream
  object. \<open>now\<close> is the value of \<^verbatim>\<open>time.monotonic()\<close>.
\<close>

fun is_stream_terminal :: "stream_event \<Rightarrow> bool" where
  "is_stream_terminal (TerminalMarker _) = True"
| "is_stream_terminal _ = False"

datatype 'q send_result = Sent 'q | StreamDead | WouldBlock

type_synonym buffered_event = "int \<times> stream_event"

type_synonym bus_item = "string \<times> stream_event"

record 'q event_bus =
  eb_replay_buffer_size :: nat
  eb_subs :: "(string, (nat \<times> 'q) list) pydict"
  eb_replay_buffers :: "(string, buffered_event list) pydict"
  eb_event_counters :: "(string, int) pydict"
  eb_purge_deadlines :: "(string, rat) pydict"
  eb_next_stream :: nat

definition replay_ttl_s :: rat where
  "replay_ttl_s = 60"

definition EventBus_init :: "nat \<Rightarrow> 'q event_bus" where
  "EventBus_init n = \<lparr>eb_replay_buffer_size = n, eb_subs = [], eb_replay_buffers = [],
     eb_event_counters = [], eb_purge_deadlines = [], eb_next_stream = 0\<rparr>"

text \<open>\<^verbatim>\<open>deque(maxlen=n).append(x)\<close> drops the oldest entries beyond \<open>n\<close>.\<close>

definition deque_append :: "nat \<Rightarrow> 'a list \<Rightarrow> 'a \<Rightarrow> 'a list" where
  "deque_append n xs x = drop (Suc (length xs) - n) (xs @ [x])"

definition EventBus_purge_expired :: "rat \<Rightarrow> 'q event_bus \<Rightarrow> 'q event_bus" where
  "EventBus_purge_expired now eb =
     (let expired = map fst (filter (\<lambda>(tid, deadline). deadline \<le> now) (eb_purge_deadlines eb))
      in fold (\<lambda>tid b. b\<lparr>eb_purge_deadlines := AList.delete tid (eb_purge_deadlines b),
                         eb_replay_buffers := AList.delete tid (eb_replay_buffers b),
                         eb_event_counters := AList.delete tid (eb_event_counters b)\<rparr>) expired eb)"

text \<open>The fan-out: each live stream gets the item or drops it, dead ones are collected.\<close>

fun fan_out ::
  "(bus_item \<Rightarrow> 'q \<Rightarrow> 'q send_result) \<Rightarrow> bus_item \<Rightarrow> (nat \<times> 'q) list \<Rightarrow> (nat \<times> 'q) list \<times> nat list" where
  "fan_out send item [] = ([], [])"
| "fan_out send item ((i, s) # ss) =
     (let (rest, dead) = fan_out send item ss in
      case send item s of
        Sent s' \<Rightarrow> ((i, s') # rest, dead)
      | WouldBlock \<Rightarrow> ((i, s) # rest, dead)
      | StreamDead \<Rightarrow> ((i, s) # rest, i # dead))"

definition drop_subscribers :: "string \<Rightarrow> nat list \<Rightarrow> 'q event_bus \<Rightarrow> 'q event_bus" where
  "drop_subscribers tid dead eb = (case map_of (eb_subs eb) tid of
      None \<Rightarrow> eb
    | Some lst \<Rightarrow>
        if lst = [] then eb
        else let lst1 = filter (\<lambda>(i, _). i \<notin> set dead) lst in
          if lst1 = [] then eb\<lparr>eb_subs := AList.delete tid (eb_subs eb)\<rparr>
          else eb\<lparr>eb_subs := AList.update tid lst1 (eb_subs eb)\<rparr>)"

definition EventBus_publish ::
  "(bus_item \<Rightarrow> 'q \<Rightarrow> 'q send_result) \<Rightarrow> rat \<Rightarrow> string \<Rightarrow> stream_event \<Rightarrow> 'q event_bus
    \<Rightarrow> string \<times> 'q event_bus" where
  "EventBus_publish send now tid ev eb =
     (let eb0 = EventBus_purge_expired now eb;
          eb1 = eb0\<lparr>eb_purge_deadlines := AList.delete tid (eb_purge_deadlines eb0)\<rparr>;
          counter = (case map_of (eb_event_counters eb1) tid of None \<Rightarrow> 0 | Some c \<Rightarrow> c) + 1;
          eb2 = eb1\<lparr>eb_event_counters := AList.update tid counter (eb_event_counters eb1)\<rparr>;
          event_id = int_str counter;
          buf = opt_list (map_of (eb_replay_buffers eb2) tid);
          eb3 = eb2\<lparr>eb_replay_buffers := AList.update tid
                  (deque_append (eb_replay_buffer_size eb2) buf (counter, ev)) (eb_replay_buffers eb2)\<rparr>;
          subscribers = opt_list (map_of (eb_subs eb3) tid)
      in if subscribers = [] then (event_id, eb3)
         else
           let (subs1, dead) = fan_out send (event_id, ev) subscribers;
               eb4 = eb3\<lparr>eb_subs := AList.update tid subs1 (eb_subs eb3)\<rparr>
           in (event_id, if dead = [] then eb4 else drop_subscribers tid dead eb4))"

text \<open>Entering and leaving the context manager \<^verbatim>\<open>subscribe\<close>: registration yields the stream's
  identity and the counter at that moment; leaving removes the stream again.\<close>

definition EventBus_subscribe ::
  "'q \<Rightarrow> string \<Rightarrow> 'q event_bus \<Rightarrow> (nat \<times> int) \<times> 'q event_bus" where
  "EventBus_subscribe q0 tid eb =
     (let i = eb_next_stream eb;
          eb1 = eb\<lparr>eb_next_stream := Suc i,
                   eb_subs := AList.update tid (opt_list (map_of (eb_subs eb) tid) @ [(i, q0)]) (eb_subs eb)\<rparr>;
          snapshot_id = (case map_of (eb_event_counters eb1) tid of None \<Rightarrow> 0 | Some c \<Rightarrow> c)
      in ((i, snapshot_id), eb1))"

definition EventBus_unsubscribe :: "string \<Rightarrow> nat \<Rightarrow> 'q event_bus \<Rightarrow> 'q event_bus" where
  "EventBus_unsubscribe tid i eb = drop_subscribers tid [i] eb"

text \<open>The two phases of \<^verbatim>\<open>_iter_events\<close>. A phase yields items and says how it ended: the stream is
  open and waits for more, it was closed by a terminal event, or it raised.\<close>

datatype stream_end = Waiting | Closed | StreamError exn

fun replay_phase :: "int \<Rightarrow> int \<Rightarrow> buffered_event list \<Rightarrow> bus_item list \<times> int \<times> stream_end" where
  "replay_phase after_id last_id [] = ([], last_id, Waiting)"
| "replay_phase after_id last_id ((i, ev) # buf) =
     (if i > after_id then
        if is_stream_terminal ev then ([(int_str i, ev)], i, Closed)
        else case replay_phase after_id i buf of (ys, l, e) \<Rightarrow> ((int_str i, ev) # ys, l, e)
      else replay_phase after_id last_id buf)"

fun live_phase :: "int \<Rightarrow> bus_item list \<Rightarrow> bus_item list \<times> stream_end" where
  "live_phase last_id [] = ([], Waiting)"
| "live_phase last_id ((eid, ev) # items) =
     (case (if eid = [] then Some 0 else py_int eid) of
        None \<Rightarrow> ([], StreamError (ValueError eid))
      | Some i \<Rightarrow>
          if i \<le> last_id then live_phase last_id items
          else if is_stream_terminal ev then ([(eid, ev)], Closed)
          else case live_phase last_id items of (ys, e) \<Rightarrow> ((eid, ev) # ys, e))"

text \<open>\<open>received\<close>: the items that arrive on the subscription's stream.\<close>

definition EventBus_iter_events ::
  "'q event_bus \<Rightarrow> string \<Rightarrow> string option \<Rightarrow> int \<Rightarrow> bus_item list \<Rightarrow> bus_item list \<times> stream_end" where
  "EventBus_iter_events eb tid after_event_id snapshot_id received =
     (case after_event_id of
        None \<Rightarrow> live_phase snapshot_id received
      | Some a \<Rightarrow>
          (let after_id = (case py_int a of None \<Rightarrow> 0 | Some n \<Rightarrow> n);
               buf = opt_list (map_of (eb_replay_buffers eb) tid)
           in case replay_phase after_id 0 buf of
                (ys, l, Closed) \<Rightarrow> (ys, Closed)
              | (ys, l, _) \<Rightarrow> (case live_phase l received of (zs, e) \<Rightarrow> (ys @ zs, e))))"

definition EventBus_cleanup :: "rat \<Rightarrow> string \<Rightarrow> 'q event_bus \<Rightarrow> 'q event_bus" where
  "EventBus_cleanup now tid eb =
     (let eb1 = eb\<lparr>eb_subs := AList.delete tid (eb_subs eb)\<rparr>;
          eb2 = eb1\<lparr>eb_purge_deadlines := AList.update tid (now + replay_ttl_s) (eb_purge_deadlines eb1)\<rparr>
      in EventBus_purge_expired now eb2)"

section \<open>Invariant: consecutive ids\<close>

abbreviation counter_of :: "'q event_bus \<Rightarrow> string \<Rightarrow> int" where
  "counter_of eb tid \<equiv> (case map_of (eb_event_counters eb) tid of None \<Rightarrow> 0 | Some c \<Rightarrow> c)"

abbreviation buffer_of :: "'q event_bus \<Rightarrow> string \<Rightarrow> buffered_event list" where
  "buffer_of eb tid \<equiv> opt_list (map_of (eb_replay_buffers eb) tid)"

text \<open>The buffer of a task holds the last events, numbered without gaps up to the counter.\<close>

definition buffer_ok :: "nat \<Rightarrow> int \<Rightarrow> buffered_event list \<Rightarrow> bool" where
  "buffer_ok n c buf \<longleftrightarrow> 0 \<le> c \<and> int (length buf) = min (int n) c
     \<and> map fst buf = [c - int (length buf) + 1 .. c]"

definition bus_inv :: "'q event_bus \<Rightarrow> bool" where
  "bus_inv eb \<longleftrightarrow>
     (\<forall>tid. buffer_ok (eb_replay_buffer_size eb) (counter_of eb tid) (buffer_of eb tid))"

lemma fold_purge:
  fixes eb :: "'q event_bus"
  defines "p \<equiv> (\<lambda>tid b. b\<lparr>eb_purge_deadlines := AList.delete tid (eb_purge_deadlines b),
                         eb_replay_buffers := AList.delete tid (eb_replay_buffers b),
                         eb_event_counters := AList.delete tid (eb_event_counters b)\<rparr>)"
  shows "eb_replay_buffer_size (fold p ids eb) = eb_replay_buffer_size eb"
    "eb_subs (fold p ids eb) = eb_subs eb"
    "eb_next_stream (fold p ids eb) = eb_next_stream eb"
    "map_of (eb_replay_buffers (fold p ids eb)) tid
       = (if tid \<in> set ids then None else map_of (eb_replay_buffers eb) tid)"
    "map_of (eb_event_counters (fold p ids eb)) tid
       = (if tid \<in> set ids then None else map_of (eb_event_counters eb) tid)"
    "map_of (eb_purge_deadlines (fold p ids eb)) tid
       = (if tid \<in> set ids then None else map_of (eb_purge_deadlines eb) tid)"
  unfolding p_def by (induction ids arbitrary: eb) auto

text \<open>The tasks whose grace window has elapsed.\<close>

definition expired_at :: "rat \<Rightarrow> 'q event_bus \<Rightarrow> string set" where
  "expired_at now eb = fst ` set (filter (\<lambda>(tid, deadline). deadline \<le> now) (eb_purge_deadlines eb))"

lemma purge_expired_simps [simp]:
  "eb_replay_buffer_size (EventBus_purge_expired now eb) = eb_replay_buffer_size eb"
  "eb_subs (EventBus_purge_expired now eb) = eb_subs eb"
  "eb_next_stream (EventBus_purge_expired now eb) = eb_next_stream eb"
  "map_of (eb_replay_buffers (EventBus_purge_expired now eb)) tid
     = (if tid \<in> expired_at now eb then None else map_of (eb_replay_buffers eb) tid)"
  "map_of (eb_event_counters (EventBus_purge_expired now eb)) tid
     = (if tid \<in> expired_at now eb then None else map_of (eb_event_counters eb) tid)"
  "map_of (eb_purge_deadlines (EventBus_purge_expired now eb)) tid
     = (if tid \<in> expired_at now eb then None else map_of (eb_purge_deadlines eb) tid)"
  by (simp_all add: EventBus_purge_expired_def Let_def fold_purge expired_at_def)

lemma not_expired_without_deadline:
  "map_of (eb_purge_deadlines eb) tid = None \<Longrightarrow> tid \<notin> expired_at now eb"
  by (auto simp: expired_at_def map_of_eq_None_iff)

lemma drop_subscribers_simps [simp]:
  "eb_replay_buffer_size (drop_subscribers tid dead eb) = eb_replay_buffer_size eb"
  "eb_replay_buffers (drop_subscribers tid dead eb) = eb_replay_buffers eb"
  "eb_event_counters (drop_subscribers tid dead eb) = eb_event_counters eb"
  "eb_purge_deadlines (drop_subscribers tid dead eb) = eb_purge_deadlines eb"
  by (auto simp: drop_subscribers_def Let_def split: option.split)

text \<open>What a publication does to counters, buffers and deadlines; \<open>kept\<close> is what the lazy purge
  left of a task.\<close>

lemma publish_state:
  fixes eb :: "'q event_bus" and send now tid ev
  defines "eb' \<equiv> snd (EventBus_publish send now tid ev eb)"
    and "c \<equiv> counter_of (EventBus_purge_expired now eb) tid"
  shows "fst (EventBus_publish send now tid ev eb) = int_str (c + 1)"
    "eb_replay_buffer_size eb' = eb_replay_buffer_size eb"
    "map_of (eb_event_counters eb') t = (if t = tid then Some (c + 1)
       else map_of (eb_event_counters (EventBus_purge_expired now eb)) t)"
    "map_of (eb_replay_buffers eb') t = (if t = tid then Some (deque_append (eb_replay_buffer_size eb)
         (buffer_of (EventBus_purge_expired now eb) tid) (c + 1, ev))
       else map_of (eb_replay_buffers (EventBus_purge_expired now eb)) t)"
    "map_of (eb_purge_deadlines eb') t = (if t = tid then None
       else map_of (eb_purge_deadlines (EventBus_purge_expired now eb)) t)"
  unfolding eb'_def c_def
  by (simp_all add: EventBus_publish_def Let_def split: prod.split)

lemma length_deque_append: "length (deque_append n xs x) = min n (Suc (length xs))"
  by (auto simp: deque_append_def)

lemma buffer_ok_empty [simp]: "buffer_ok n 0 []"
  by (simp add: buffer_ok_def)

lemma bus_inv_init: "bus_inv (EventBus_init n)"
  by (simp add: bus_inv_def EventBus_init_def)

lemma bus_inv_purge: "bus_inv eb \<Longrightarrow> bus_inv (EventBus_purge_expired now eb)"
  by (simp add: bus_inv_def)

lemma tl_upto: "tl [i..j] = [i + 1..j]"
  by (cases "i \<le> j") (simp_all add: upto_rec1)

lemma drop_upto: "drop n [i..j] = [i + int n..j]"
  by (induction n arbitrary: i) (simp_all add: drop_Suc tl_upto algebra_simps)

lemma buffer_ok_append:
  assumes "buffer_ok n c buf"
  shows "buffer_ok n (c + 1) (deque_append n buf (c + 1, ev))"
proof -
  let ?l = "length buf"
  from assms have c: "0 \<le> c" and len: "int ?l = min (int n) c"
    and ids: "map fst buf = [c - int ?l + 1 .. c]"
    by (simp_all add: buffer_ok_def)
  have "map fst (buf @ [(c + 1, ev)]) = [c - int ?l + 1 .. c + 1]"
    using ids upto_rec2 [of "c - int ?l + 1" "c + 1"] by simp
  then have "map fst (deque_append n buf (c + 1, ev)) = drop (Suc ?l - n) [c - int ?l + 1 .. c + 1]"
    unfolding deque_append_def by (metis drop_map)
  then have "map fst (deque_append n buf (c + 1, ev)) = [c - int ?l + 1 + int (Suc ?l - n) .. c + 1]"
    by (simp add: drop_upto)
  moreover have "c - int ?l + 1 + int (Suc ?l - n) = c + 1 - int (min n (Suc ?l)) + 1"
    by (simp add: min_def of_nat_diff)
  moreover have "int (min n (Suc ?l)) = min (int n) (c + 1)" using len by simp
  ultimately show ?thesis using c by (simp add: buffer_ok_def length_deque_append)
qed

lemma bus_inv_publish:
  assumes "bus_inv eb"
  shows "bus_inv (snd (EventBus_publish send now tid ev eb))"
  using bus_inv_purge [OF assms, of now] buffer_ok_append
  by (simp add: bus_inv_def publish_state)

lemma bus_inv_subscribe: "bus_inv eb \<Longrightarrow> bus_inv (snd (EventBus_subscribe q0 tid eb))"
  by (simp add: bus_inv_def EventBus_subscribe_def Let_def)

lemma bus_inv_unsubscribe: "bus_inv eb \<Longrightarrow> bus_inv (EventBus_unsubscribe tid i eb)"
  by (simp add: bus_inv_def EventBus_unsubscribe_def)

lemma bus_inv_cleanup: "bus_inv eb \<Longrightarrow> bus_inv (EventBus_cleanup now tid eb)"
  unfolding EventBus_cleanup_def Let_def
  by (rule bus_inv_purge) (simp add: bus_inv_def)

section \<open>Replay\<close>

text \<open>A stream shows events up to and including the first terminal one.\<close>

fun cut_terminal :: "bus_item list \<Rightarrow> bus_item list" where
  "cut_terminal [] = []"
| "cut_terminal (x # xs) = (if is_stream_terminal (snd x) then [x] else x # cut_terminal xs)"

definition wire :: "buffered_event \<Rightarrow> bus_item" where
  "wire b = (int_str (fst b), snd b)"

lemma replay_phase_items:
  "fst (replay_phase a l buf) = cut_terminal (map wire (filter (\<lambda>b. fst b > a) buf))"
  by (induction a l buf rule: replay_phase.induct) (auto simp: wire_def split: prod.splits)

text \<open>Publishing a list of events, each at its own time.\<close>

definition publish_all ::
  "(bus_item \<Rightarrow> 'q \<Rightarrow> 'q send_result) \<Rightarrow> string \<Rightarrow> (rat \<times> stream_event) list \<Rightarrow> 'q event_bus \<Rightarrow> 'q event_bus" where
  "publish_all send tid evs eb = fold (\<lambda>(now, ev) b. snd (EventBus_publish send now tid ev b)) evs eb"

text \<open>The ids the events get when the counter stands at \<open>c\<close>.\<close>

definition numbered :: "int \<Rightarrow> (rat \<times> stream_event) list \<Rightarrow> buffered_event list" where
  "numbered c evs = zip [c + 1 .. c + int (length evs)] (map snd evs)"

lemma numbered_Nil [simp]: "numbered c [] = []"
  by (simp add: numbered_def)

lemma numbered_snoc: "numbered c (evs @ [(t, ev)]) = numbered c evs @ [(c + 1 + int (length evs), ev)]"
  unfolding numbered_def using upto_rec2 [of "c + 1" "c + 1 + int (length evs)"]
  by (simp add: algebra_simps)

lemma length_numbered [simp]: "length (numbered c evs) = length evs"
  by (simp add: numbered_def)

lemma deque_append_last:
  "deque_append n (drop (length xs - n) xs) x = drop (length (xs @ [x]) - n) (xs @ [x])"
proof (cases "n \<le> length xs")
  case True
  show ?thesis
  proof (cases n)
    case (Suc m)
    with True have "length xs - m = Suc (length xs - Suc m)" by simp
    with Suc True show ?thesis by (simp add: deque_append_def drop_Suc drop_tl)
  qed (simp add: deque_append_def)
next
  case False
  then show ?thesis by (simp add: deque_append_def)
qed

text \<open>\<open>shows_events eb tid evs\<close>: the bus has seen exactly the events \<open>evs\<close> of the task.\<close>

definition shows_events :: "'q event_bus \<Rightarrow> string \<Rightarrow> (rat \<times> stream_event) list \<Rightarrow> bool" where
  "shows_events eb tid evs \<longleftrightarrow> map_of (eb_purge_deadlines eb) tid = None
     \<and> counter_of eb tid = int (length evs)
     \<and> buffer_of eb tid = drop (length evs - eb_replay_buffer_size eb) (numbered 0 evs)"

lemma shows_events_publish:
  assumes "shows_events eb tid evs"
  shows "shows_events (snd (EventBus_publish send t tid ev eb)) tid (evs @ [(t, ev)])"
proof -
  from assms have "tid \<notin> expired_at t eb" by (simp add: shows_events_def not_expired_without_deadline)
  with assms deque_append_last [of "eb_replay_buffer_size eb" "numbered 0 evs"] show ?thesis
    by (simp add: shows_events_def publish_state numbered_snoc algebra_simps)
qed

lemma publish_all_append: "publish_all send tid (xs @ ys) eb = publish_all send tid ys (publish_all send tid xs eb)"
  by (simp add: publish_all_def)

lemma publish_all_Cons:
  "publish_all send tid ((t, ev) # xs) eb
     = publish_all send tid xs (snd (EventBus_publish send t tid ev eb))"
  by (simp add: publish_all_def)

lemma shows_events_publish_all:
  "shows_events eb tid evs \<Longrightarrow> shows_events (publish_all send tid xs eb) tid (evs @ xs)"
proof (induction xs arbitrary: eb evs)
  case (Cons x xs)
  obtain t ev where x: "x = (t, ev)" by fastforce
  from Cons.IH [OF shows_events_publish [OF Cons.prems, of send t ev]] show ?case
    by (simp add: x publish_all_Cons)
qed (simp add: publish_all_def)

lemma publish_all_size [simp]:
  "eb_replay_buffer_size (publish_all send tid xs eb) = eb_replay_buffer_size eb"
proof (induction xs arbitrary: eb)
  case (Cons x xs)
  then show ?case by (cases x) (simp add: publish_all_Cons publish_state)
qed (simp add: publish_all_def)

lemma publish_all_no_subs:
  "map_of (eb_subs eb) tid = None \<Longrightarrow> map_of (eb_subs (publish_all send tid xs eb)) tid = None"
proof (induction xs arbitrary: eb)
  case (Cons x xs)
  obtain t ev where x: "x = (t, ev)" by fastforce
  from Cons.prems have "map_of (eb_subs (snd (EventBus_publish send t tid ev eb))) tid = None"
    by (simp add: EventBus_publish_def Let_def)
  with Cons.IH show ?case by (simp add: x publish_all_Cons)
qed (simp add: publish_all_def)

text \<open>The stream with identity \<open>i\<close> among the subscribers of a task, and the invariant that
  identities are unique.\<close>

abbreviation subs_of :: "'q event_bus \<Rightarrow> string \<Rightarrow> (nat \<times> 'q) list" where
  "subs_of eb tid \<equiv> opt_list (map_of (eb_subs eb) tid)"

definition streams_ok :: "'q event_bus \<Rightarrow> string \<Rightarrow> bool" where
  "streams_ok eb tid \<longleftrightarrow> distinct (map fst (subs_of eb tid))
     \<and> (\<forall>i \<in> fst ` set (subs_of eb tid). i < eb_next_stream eb)"

lemma fan_out_Cons:
  "fst (fan_out send item (p # ss)) = (fst p, case send item (snd p) of Sent q \<Rightarrow> q | _ \<Rightarrow> snd p)
     # fst (fan_out send item ss)"
  "snd (fan_out send item (p # ss)) = (if send item (snd p) = StreamDead then [fst p] else [])
     @ snd (fan_out send item ss)"
  by (cases p; auto simp: Let_def split: prod.split send_result.split)+

lemma fan_out_ids: "map fst (fst (fan_out send item ss)) = map fst ss"
  by (induction ss) (simp_all add: fan_out_Cons)

lemma fan_out_dead: "set (snd (fan_out send item ss)) \<subseteq> fst ` set ss"
  by (induction ss) (auto simp: fan_out_Cons)

lemma fan_out_sent:
  assumes "distinct (map fst ss)" and "map_of ss i = Some q" and "send item q = Sent q'"
  shows "map_of (fst (fan_out send item ss)) i = Some q' \<and> i \<notin> set (snd (fan_out send item ss))"
  using assms
proof (induction ss)
  case (Cons p ss)
  then show ?case
    using fan_out_dead [of send item ss] by (cases "fst p = i") (auto simp: fan_out_Cons)
qed simp

lemma drop_subscribers_ids:
  "subs_of (drop_subscribers tid dead eb) tid = filter (\<lambda>(i, _). i \<notin> set dead) (subs_of eb tid)"
  by (auto simp: drop_subscribers_def Let_def split: option.split)

lemma map_of_filter_keys: "P i \<Longrightarrow> map_of (filter (\<lambda>(i, _). P i) xs) i = map_of xs i"
  by (induction xs) auto

lemma distinct_filter_keys:
  "distinct (map fst xs) \<Longrightarrow> distinct (map fst (filter P xs))"
  by (induction xs) auto

text \<open>A publication reaches every stream that accepts it.\<close>

lemma publish_stream:
  assumes "streams_ok eb tid" and "map_of (subs_of eb tid) i = Some q"
    and "send (fst (EventBus_publish send t tid ev eb), ev) q = Sent q'"
  shows "map_of (subs_of (snd (EventBus_publish send t tid ev eb)) tid) i = Some q'"
    and "streams_ok (snd (EventBus_publish send t tid ev eb)) tid"
proof -
  let ?item = "(fst (EventBus_publish send t tid ev eb), ev)"
  let ?fo = "fan_out send ?item (subs_of eb tid)"
  have ne: "subs_of eb tid \<noteq> []" using assms(2) by auto
  have fo: "map_of (fst ?fo) i = Some q'" "i \<notin> set (snd ?fo)"
    using fan_out_sent [of "subs_of eb tid" i q send ?item q'] assms by (simp_all add: streams_ok_def)
  have subs: "subs_of (snd (EventBus_publish send t tid ev eb)) tid
      = filter (\<lambda>(j, _). j \<notin> set (snd ?fo)) (fst ?fo)"
    using ne by (auto simp: EventBus_publish_def Let_def drop_subscribers_ids split: prod.splits if_splits)
  show "map_of (subs_of (snd (EventBus_publish send t tid ev eb)) tid) i = Some q'"
    unfolding subs using fo by (simp add: map_of_filter_keys)
  have next_id: "eb_next_stream (snd (EventBus_publish send t tid ev eb)) = eb_next_stream eb"
    by (auto simp: EventBus_publish_def Let_def drop_subscribers_def split: prod.splits option.splits)
  have ids: "fst ` set (subs_of (snd (EventBus_publish send t tid ev eb)) tid) \<subseteq> fst ` set (subs_of eb tid)"
    unfolding subs using fan_out_ids [of send ?item "subs_of eb tid"]
    by (metis (no_types) filter_is_subset image_mono list.set_map)
  have "distinct (map fst (subs_of (snd (EventBus_publish send t tid ev eb)) tid))"
    unfolding subs using assms(1) by (intro distinct_filter_keys) (simp add: fan_out_ids streams_ok_def)
  with ids assms(1) show "streams_ok (snd (EventBus_publish send t tid ev eb)) tid"
    unfolding streams_ok_def next_id by blast
qed

text \<open>
  \<open>lossless cap send\<close>: what the documentation of anyio says of a memory stream that is open and
  holds fewer than \<open>cap\<close> items: \<^verbatim>\<open>send_nowait\<close> queues the item at the end.
\<close>

definition lossless :: "nat \<Rightarrow> (bus_item \<Rightarrow> bus_item list \<Rightarrow> bus_item list send_result) \<Rightarrow> bool" where
  "lossless cap send \<longleftrightarrow> (\<forall>item q. length q < cap \<longrightarrow> send item q = Sent (q @ [item]))"

lemma publish_all_stream:
  assumes "lossless cap send" and "streams_ok eb tid" and "map_of (subs_of eb tid) i = Some q"
    and "length q + length evs \<le> cap" and "map_of (eb_purge_deadlines eb) tid = None"
  shows "map_of (subs_of (publish_all send tid evs eb) tid) i
    = Some (q @ map wire (numbered (counter_of eb tid) evs))"
  using assms
proof (induction evs arbitrary: eb q)
  case Nil
  then show ?case by (simp add: publish_all_def)
next
  case (Cons x evs)
  obtain t ev where x: "x = (t, ev)" by fastforce
  let ?eb = "snd (EventBus_publish send t tid ev eb)"
  have ne: "tid \<notin> expired_at t eb" using Cons.prems(5) by (rule not_expired_without_deadline)
  have id: "fst (EventBus_publish send t tid ev eb) = int_str (counter_of eb tid + 1)"
    using ne by (simp add: publish_state)
  have sent: "send (fst (EventBus_publish send t tid ev eb), ev) q
      = Sent (q @ [(int_str (counter_of eb tid + 1), ev)])"
    using Cons.prems(1,4) id by (simp add: lossless_def)
  have cnt: "counter_of ?eb tid = counter_of eb tid + 1"
    using ne by (simp add: publish_state)
  have num: "numbered (counter_of eb tid) (x # evs)
      = (counter_of eb tid + 1, ev) # numbered (counter_of eb tid + 1) evs"
    by (simp add: numbered_def x upto_rec1 algebra_simps)
  have "map_of (subs_of (publish_all send tid evs ?eb) tid) i
    = Some ((q @ [(int_str (counter_of eb tid + 1), ev)]) @ map wire (numbered (counter_of ?eb tid) evs))"
    using Cons.prems publish_stream [of eb tid i q send t ev, OF Cons.prems(2,3) sent]
    by (intro Cons.IH) (simp_all add: publish_state)
  then show ?case unfolding num unfolding x publish_all_Cons by (simp add: cnt wire_def [of "(_, _)"])
qed

section \<open>Exactly once, in order\<close>

lemma snd_wire [simp]: "snd (wire b) = snd b"
  by (simp add: wire_def)

lemma live_phase_items:
  "fst (live_phase l (map wire xs)) = cut_terminal (map wire (filter (\<lambda>b. fst b > l) xs))"
  by (induction xs) (auto simp: wire_def not_le split: prod.splits)

definition has_terminal :: "buffered_event list \<Rightarrow> bool" where
  "has_terminal xs \<longleftrightarrow> list_ex (is_stream_terminal \<circ> snd) xs"

lemma cut_terminal_append:
  "cut_terminal (map wire xs @ map wire ys) = (if has_terminal xs then cut_terminal (map wire xs)
     else map wire xs @ cut_terminal (map wire ys))"
  by (induction xs) (auto simp: has_terminal_def)

lemma cut_terminal_id: "\<not> has_terminal xs \<Longrightarrow> cut_terminal (map wire xs) = map wire xs"
  using cut_terminal_append [of xs "[]"] by simp

text \<open>How the replay ends, and the id it hands over to the live phase.\<close>

lemma replay_phase_end:
  fixes a l buf
  defines "xs \<equiv> filter (\<lambda>b. fst b > a) buf"
  shows "snd (snd (replay_phase a l buf)) = (if has_terminal xs then Closed else Waiting)"
    and "\<not> has_terminal xs \<Longrightarrow> fst (snd (replay_phase a l buf)) = (if xs = [] then l else fst (last xs))"
  unfolding xs_def
  by (induction a l buf rule: replay_phase.induct) (auto simp: has_terminal_def split: prod.splits)

lemma numbered_nth: "i < length evs \<Longrightarrow> numbered c evs ! i = (c + 1 + int i, snd (evs ! i))"
  by (simp add: numbered_def)

lemma numbered_append: "numbered c (xs @ ys) = numbered c xs @ numbered (c + int (length xs)) ys"
  by (rule nth_equalityI) (auto simp: numbered_nth nth_append)

lemma drop_numbered: "drop k (numbered c evs) = numbered (c + int k) (drop k evs)"
  by (rule nth_equalityI) (auto simp: numbered_nth)

lemma in_numberedD: "b \<in> set (numbered c evs) \<Longrightarrow> c < fst b \<and> fst b \<le> c + int (length evs)"
  by (auto simp: in_set_conv_nth numbered_nth)

lemma filter_numbered:
  assumes "c \<le> k"
  shows "filter (\<lambda>b. fst b > k) (numbered c evs) = drop (nat (k - c)) (numbered c evs)"
proof -
  have e: "numbered c evs = numbered c (take (nat (k - c)) evs) @ numbered (c + int (length (take (nat (k - c)) evs))) (drop (nat (k - c)) evs)"
    by (metis append_take_drop_id numbered_append)
  have "filter (\<lambda>b. fst b > k) (numbered c (take (nat (k - c)) evs)) = []"
    using assms by (auto simp: filter_empty_conv dest!: in_numberedD)
  moreover have "filter (\<lambda>b. fst b > k) (numbered k (drop (nat (k - c)) evs))
      = numbered k (drop (nat (k - c)) evs)"
    by (auto simp: filter_id_conv dest!: in_numberedD)
  moreover have "numbered (c + int (length (take (nat (k - c)) evs))) (drop (nat (k - c)) evs)
      = numbered k (drop (nat (k - c)) evs)"
    using assms by (cases "nat (k - c) \<le> length evs") auto
  ultimately have "filter (\<lambda>b. fst b > k) (numbered c evs) = numbered k (drop (nat (k - c)) evs)"
    by (subst e) simp
  with assms show ?thesis by (simp add: drop_numbered)
qed

lemma filter_drop_numbered:
  "d \<le> k \<Longrightarrow> filter (\<lambda>b. fst b > int k) (drop d (numbered 0 L)) = drop k (numbered 0 L)"
  using filter_numbered [of "int d" "int k" "drop d L"]
  by (auto simp: drop_numbered nat_diff_distrib)

text \<open>
  A subscriber that reconnects after event \<open>k\<close>. The task has published \<open>evs\<close> when the subscription
  is registered and \<open>xs\<close> more when the iteration starts; \<open>ys\<close> follow live. Items of \<open>xs\<close> are both in
  the replay buffer and in the stream.
\<close>

lemma iter_events_after:
  fixes evs xs ys :: "(rat \<times> stream_event) list"
  assumes k: "k \<le> length evs" and window: "length evs + length xs \<le> k + n"
    and buf: "buffer_of eb tid = drop (length (evs @ xs) - n) (numbered 0 (evs @ xs))"
    and rec: "received = map wire (numbered (int (length evs)) (xs @ ys))"
  shows "fst (EventBus_iter_events eb tid (Some (int_str (int k))) snap received)
    = cut_terminal (map wire (drop k (numbered 0 (evs @ xs @ ys))))"
proof -
  let ?m = "length evs + length xs"
  let ?xs = "drop k (numbered 0 (evs @ xs))"
  have flt: "filter (\<lambda>b. fst b > int k) (buffer_of eb tid) = ?xs"
    using window unfolding buf by (intro filter_drop_numbered) simp
  have all: "drop k (numbered 0 (evs @ xs @ ys)) = ?xs @ numbered (int ?m) ys"
    using k by (simp add: numbered_append)
  have rp: "fst (replay_phase (int k) 0 (buffer_of eb tid)) = cut_terminal (map wire ?xs)"
    by (simp add: replay_phase_items flt)
  note fin = replay_phase_end [where a = "int k" and l = 0 and buf = "buffer_of eb tid", unfolded flt]
  show ?thesis
  proof (cases "has_terminal ?xs")
    case True
    then show ?thesis using rp fin(1)
      by (auto simp: EventBus_iter_events_def Let_def all cut_terminal_append split: prod.splits)
  next
    case False
    let ?l = "if ?xs = [] then 0 else fst (last ?xs)"
    have live: "fst (live_phase ?l received) = cut_terminal (map wire (numbered (int ?m) ys))"
    proof (cases "?xs = []")
      case True
      then have "length evs + length xs \<le> k" by simp
      with k have "length evs = k" "xs = []" by (cases xs; simp)+
      moreover have "filter (\<lambda>b. fst b > 0) (numbered (int k) ys) = numbered (int k) ys"
        by (auto simp: filter_id_conv dest!: in_numberedD)
      ultimately show ?thesis using True by (simp add: rec live_phase_items)
    next
      case F: False
      then have "0 < ?m" by auto
      have "last ?xs = numbered 0 (evs @ xs) ! (?m - 1)"
        using F by (simp add: last_conv_nth)
      then have "fst (last ?xs) = int ?m"
        using \<open>0 < ?m\<close> by (simp add: numbered_nth of_nat_diff)
      with F have l: "?l = int ?m" by (simp only: if_False)
      show ?thesis unfolding l rec live_phase_items
        using filter_numbered [of "int (length evs)" "int ?m" "xs @ ys"]
        by (simp add: numbered_append)
    qed
    show ?thesis using rp fin False live
      by (auto simp: EventBus_iter_events_def Let_def all cut_terminal_append cut_terminal_id
          split: prod.splits stream_end.splits)
  qed
qed

section \<open>Properties\<close>

text \<open>The states a bus can reach.\<close>

inductive bus_reach :: "(bus_item \<Rightarrow> 'q \<Rightarrow> 'q send_result) \<Rightarrow> nat \<Rightarrow> 'q event_bus \<Rightarrow> bool" for send n where
  start: "bus_reach send n (EventBus_init n)"
| publish: "bus_reach send n eb \<Longrightarrow> bus_reach send n (snd (EventBus_publish send now tid ev eb))"
| subscribe: "bus_reach send n eb \<Longrightarrow> bus_reach send n (snd (EventBus_subscribe q0 tid eb))"
| unsubscribe: "bus_reach send n eb \<Longrightarrow> bus_reach send n (EventBus_unsubscribe tid i eb)"
| cleanup: "bus_reach send n eb \<Longrightarrow> bus_reach send n (EventBus_cleanup now tid eb)"

lemma bus_reach_inv: "bus_reach send n eb \<Longrightarrow> bus_inv eb \<and> eb_replay_buffer_size eb = n"
  by (induction rule: bus_reach.induct)
    (simp_all add: bus_inv_init bus_inv_publish bus_inv_subscribe bus_inv_unsubscribe bus_inv_cleanup
      publish_state, simp_all add: EventBus_init_def EventBus_subscribe_def EventBus_unsubscribe_def
      EventBus_cleanup_def Let_def)

text \<open>In every state the bus can reach, the replay buffer of a task holds the most
  recent events (as many as fit, or all there were), and their ids run without a gap up to the
  event counter of the task.\<close>

theorem bus_ids_consecutive:
  assumes "bus_reach send n eb"
  shows "map fst (buffer_of eb tid) = [counter_of eb tid - int (length (buffer_of eb tid)) + 1 .. counter_of eb tid]
    \<and> int (length (buffer_of eb tid)) = min (int n) (counter_of eb tid)"
  using bus_reach_inv [OF assms] by (simp add: bus_inv_def buffer_ok_def)

theorem bus_ids_consecutive_witness:
  "map fst (buffer_of (snd (EventBus_publish (\<lambda>x q. Sent (q @ [x])) 5 ''t'' (DirectReply (agent_message [] ''m'' ''t'' None None))
     (EventBus_init 3 :: bus_item list event_bus))) ''t'') = [1]"
proof -
  let ?eb = "snd (EventBus_publish (\<lambda>x q. Sent (q @ [x])) 5 ''t'' (DirectReply (agent_message [] ''m'' ''t'' None None))
     (EventBus_init 3 :: bus_item list event_bus))"
  have "counter_of ?eb ''t'' = 1" "length (buffer_of ?eb ''t'') = 1"
    by (simp_all add: publish_state EventBus_init_def expired_at_def deque_append_def)
  then show ?thesis
    using bus_ids_consecutive [OF bus_reach.publish [OF bus_reach.start], of "\<lambda>x q. Sent (q @ [x])" 5 "''t''"
      "DirectReply (agent_message [] ''m'' ''t'' None None)" 3 "''t''"] by simp
qed


text \<open>A stream of five slots; a task with two events before the subscription, one before the
  iteration and two afterwards; the client has seen the first event.\<close>

definition slots5 :: "bus_item \<Rightarrow> bus_item list \<Rightarrow> bus_item list send_result" where
  "slots5 item q = (if length q < 5 then Sent (q @ [item]) else WouldBlock)"

definition sample_msg :: "string \<Rightarrow> stream_event" where
  "sample_msg m = MessageEvent (agent_message [text_part m] m ''t'' None None)"

definition sample_bus :: "bus_item list event_bus" where
  "sample_bus = publish_all slots5 ''t'' [(0, sample_msg ''a''), (1, sample_msg ''b'')] (EventBus_init 3)"


end
