(* ===== verification/Message_Parts.thy ===== *)
theory Message_Parts
  imports A2A_Types "HOL-Library.Word"
begin

text \<open>
  Reading lists of parts (\<^verbatim>\<open>_parts.py\<close>) and building them (\<^verbatim>\<open>worker/base.py\<close>, \<^verbatim>\<open>_build_parts\<close>).
  Inline file content travels as base64 text. \<open>b64encode\<close> is the encoder of the standard library,
  \<open>b64decode\<close> the decoder in its lenient mode: characters outside the alphabet are skipped, a pad
  that completes a quad ends the input, and an incomplete quad is an error.
\<close>

section \<open>Base64\<close>

type_synonym byte = "8 word"

definition b64_alphabet :: string where
  "b64_alphabet = ''ABCDEFGHIJKLMNOPQRSTUVWXYZabcdefghijklmnopqrstuvwxyz0123456789+/''"

definition b64_char :: "nat \<Rightarrow> char" where
  "b64_char n = b64_alphabet ! n"

definition b64_value :: "char \<Rightarrow> nat option" where
  "b64_value c = index_of (\<lambda>d. d = c) b64_alphabet"

definition byte_of :: "nat \<Rightarrow> byte" where
  "byte_of n = word_of_nat n"

fun b64encode :: "byte list \<Rightarrow> string" where
  "b64encode [] = []"
| "b64encode [a] = (let x = unat a in
     [b64_char (x div 4), b64_char (x mod 4 * 16), CHR ''='', CHR ''=''])"
| "b64encode [a, b] = (let x = unat a; y = unat b in
     [b64_char (x div 4), b64_char (x mod 4 * 16 + y div 16), b64_char (y mod 16 * 4), CHR ''=''])"
| "b64encode (a # b # c # bs) = (let x = unat a; y = unat b; z = unat c in
     [b64_char (x div 4), b64_char (x mod 4 * 16 + y div 16),
      b64_char (y mod 16 * 4 + z div 64), b64_char (z mod 64)] @ b64encode bs)"

text \<open>\<open>b64_loop quad_pos leftchar pads acc\<close>: the loop of \<^verbatim>\<open>binascii.a2b_base64\<close>; \<open>acc\<close> holds the bytes
  written so far, last one first.\<close>

fun b64_loop :: "nat \<Rightarrow> nat \<Rightarrow> nat \<Rightarrow> byte list \<Rightarrow> string \<Rightarrow> exn + byte list" where
  "b64_loop q l pads acc [] =
     (if q = 0 then Inr (rev acc) else Inl (ValueError ''Incorrect padding''))"
| "b64_loop q l pads acc (c # cs) =
     (if c = CHR ''='' then
        if q \<ge> 2 \<and> q + Suc pads \<ge> 4 then Inr (rev acc)
        else b64_loop q l (if q \<ge> 2 then Suc pads else pads) acc cs
      else case b64_value c of
        None \<Rightarrow> b64_loop q l pads acc cs
      | Some v \<Rightarrow>
          if q = 0 then b64_loop 1 v 0 acc cs
          else if q = 1 then b64_loop 2 (v mod 16) 0 (byte_of (l * 4 + v div 16) # acc) cs
          else if q = 2 then b64_loop 3 (v mod 4) 0 (byte_of (l * 16 + v div 4) # acc) cs
          else b64_loop 0 0 0 (byte_of (l * 64 + v) # acc) cs)"

definition b64decode :: "string \<Rightarrow> exn + byte list" where
  "b64decode s = b64_loop 0 0 0 [] s"

section \<open>Reading parts\<close>

datatype part_kind_t = KText | KRaw | KUrl | KData | KEmpty

definition part_kind :: "part \<Rightarrow> part_kind_t" where
  "part_kind p = (if p_text p \<noteq> None then KText else if p_raw p \<noteq> None then KRaw
     else if p_url p \<noteq> None then KUrl else if p_data p \<noteq> None then KData else KEmpty)"

record file_info =
  fi_content :: "byte list option"
  fi_url :: "string option"
  fi_filename :: "string option"
  fi_media_type :: "string option"

text \<open>\<^verbatim>\<open>"\n".join(xs)\<close>.\<close>

fun join_lines :: "string list \<Rightarrow> string" where
  "join_lines [] = []"
| "join_lines [x] = x"
| "join_lines (x # xs) = x @ [CHR 0x0A] @ join_lines xs"

definition extract_text :: "part list \<Rightarrow> string" where
  "extract_text ps = join_lines (List.map_filter p_text ps)"

fun extract_files :: "part list \<Rightarrow> exn + file_info list" where
  "extract_files [] = Inr []"
| "extract_files (p # ps) = (case p_raw p of
      Some raw \<Rightarrow> (case b64decode raw of
          Inl e \<Rightarrow> Inl e
        | Inr bs \<Rightarrow> (case extract_files ps of Inl e \<Rightarrow> Inl e
            | Inr fs \<Rightarrow> Inr (\<lparr>fi_content = Some bs, fi_url = None, fi_filename = p_filename p,
                              fi_media_type = p_media_type p\<rparr> # fs)))
    | None \<Rightarrow> (case p_url p of
          Some u \<Rightarrow> (case extract_files ps of Inl e \<Rightarrow> Inl e
            | Inr fs \<Rightarrow> Inr (\<lparr>fi_content = None, fi_url = Some u, fi_filename = p_filename p,
                              fi_media_type = p_media_type p\<rparr> # fs))
        | None \<Rightarrow> extract_files ps))"

definition extract_data :: "part list \<Rightarrow> json list" where
  "extract_data ps = List.map_filter p_data ps"

section \<open>Building parts\<close>

text \<open>The keyword arguments of \<^verbatim>\<open>_build_parts\<close>.\<close>

record content_args =
  ca_text :: "string option"
  ca_data :: "json option"
  ca_file_bytes :: "byte list option"
  ca_file_url :: "string option"
  ca_media_type :: "string option"
  ca_filename :: "string option"

definition opt_part :: "'a option \<Rightarrow> ('a \<Rightarrow> part) \<Rightarrow> part list" where
  "opt_part v f = (case v of None \<Rightarrow> [] | Some x \<Rightarrow> [f x])"

definition build_parts :: "content_args \<Rightarrow> exn + part list" where
  "build_parts a =
     (let parts =
        opt_part (ca_text a) (\<lambda>t. empty_part\<lparr>p_text := Some t, p_media_type := ca_media_type a\<rparr>)
      @ opt_part (ca_data a) (\<lambda>d. empty_part\<lparr>p_data := Some d,
          p_media_type := Some (or_else (ca_media_type a) ''application/json'')\<rparr>)
      @ opt_part (ca_file_bytes a) (\<lambda>b. empty_part\<lparr>p_raw := Some (b64encode b),
          p_media_type := ca_media_type a, p_filename := ca_filename a\<rparr>)
      @ opt_part (ca_file_url a) (\<lambda>u. empty_part\<lparr>p_url := Some u,
          p_media_type := ca_media_type a, p_filename := ca_filename a\<rparr>)
      in if parts = [] then Inl (ValueError ''At least one content parameter (text, data, file_bytes, file_url) must be provided.'')
         else Inr parts)"

section \<open>Decoding inverts encoding\<close>

lemma b64_value_char_all: "\<forall>n < 64. b64_value (b64_char n) = Some n \<and> b64_char n \<noteq> CHR ''=''"
  by (simp add: b64_value_def b64_char_def b64_alphabet_def All_less_Suc eval_nat_numeral)

lemma b64_char_simps:
  "n < 64 \<Longrightarrow> b64_value (b64_char n) = Some n" "n < 64 \<Longrightarrow> b64_char n \<noteq> CHR ''=''"
  using b64_value_char_all by blast+

lemma unat_byte: "unat (a :: byte) < 256"
  using unsigned_less [of a] by simp

lemma byte_of_unat [simp]: "byte_of (unat a) = a"
  by (simp add: byte_of_def)

text \<open>The three reassembled bytes of a quad.\<close>

lemma quad_bytes:
  fixes x y z :: nat
  assumes "x < 256" "y < 256" "z < 256"
  shows "x div 4 < 64" "x mod 4 * 16 + y div 16 < 64" "y mod 16 * 4 + z div 64 < 64" "z mod 64 < 64"
    and "x div 4 * 4 + (x mod 4 * 16 + y div 16) div 16 = x"
    and "(x mod 4 * 16 + y div 16) mod 16 * 16 + (y mod 16 * 4 + z div 64) div 4 = y"
    and "(y mod 16 * 4 + z div 64) mod 4 * 64 + z mod 64 = z"
proof -
  have d: "x div 4 < 64" "y div 16 < 16" "z div 64 < 4" using assms by (simp_all add: div_less_iff_less_mult)
  have m: "x mod 4 < 4" "y mod 16 < 16" "z mod 64 < 64" by simp_all
  show "x div 4 < 64" "z mod 64 < 64" by (rule d m)+
  show "x mod 4 * 16 + y div 16 < 64" "y mod 16 * 4 + z div 64 < 64" using d m by linarith+
  show "x div 4 * 4 + (x mod 4 * 16 + y div 16) div 16 = x" using d by simp
  show "(x mod 4 * 16 + y div 16) mod 16 * 16 + (y mod 16 * 4 + z div 64) div 4 = y" using d by simp
  show "(y mod 16 * 4 + z div 64) mod 4 * 64 + z mod 64 = z" using d by simp
qed

lemma b64_loop_encode: "b64_loop 0 0 0 acc (b64encode bs) = Inr (rev acc @ bs)"
proof (induction bs arbitrary: acc rule: b64encode.induct)
  case (2 a)
  note q = quad_bytes [OF unat_byte [of a], of 0 0, simplified]
  show ?case using q by (simp add: b64_char_simps Let_def)
next
  case (3 a b)
  note q = quad_bytes [OF unat_byte [of a] unat_byte [of b], of 0, simplified]
  show ?case using q by (simp add: b64_char_simps Let_def)
next
  case (4 a b c bs)
  note q = quad_bytes [OF unat_byte [of a] unat_byte [of b] unat_byte [of c]]
  show ?case using q 4 by (simp add: b64_char_simps Let_def)
qed simp

lemma b64decode_encode [simp]: "b64decode (b64encode bs) = Inr bs"
  by (simp add: b64decode_def b64_loop_encode)

text \<open>Property C37: what a worker emits as file bytes is what a reader of the parts gets back: building
  parts from bytes and extracting the files returns exactly these bytes with their name and media
  type, followed by the URL file when one is given.\<close>

theorem file_bytes_roundtrip:
  assumes "ca_file_bytes a = Some bs" and "build_parts a = Inr ps"
  shows "extract_files ps = Inr (\<lparr>fi_content = Some bs, fi_url = None, fi_filename = ca_filename a,
      fi_media_type = ca_media_type a\<rparr>
    # (case ca_file_url a of None \<Rightarrow> [] | Some u \<Rightarrow> [\<lparr>fi_content = None, fi_url = Some u,
        fi_filename = ca_filename a, fi_media_type = ca_media_type a\<rparr>]))"
  using assms
  by (cases "ca_text a"; cases "ca_data a"; cases "ca_file_url a")
    (auto simp: build_parts_def opt_part_def Let_def empty_part_def)

theorem file_bytes_roundtrip_witness:
  "extract_files [empty_part\<lparr>p_raw := Some ''/wA='', p_filename := Some ''f''\<rparr>]
    = Inr [\<lparr>fi_content = Some [255, 0], fi_url = None, fi_filename = Some ''f'', fi_media_type = None\<rparr>]"
proof -
  let ?a = "\<lparr>ca_text = None, ca_data = None, ca_file_bytes = Some [255, 0 :: byte], ca_file_url = None,
    ca_media_type = None, ca_filename = Some ''f''\<rparr>"
  have "build_parts ?a = Inr [empty_part\<lparr>p_raw := Some ''/wA='', p_filename := Some ''f''\<rparr>]"
    by (simp add: build_parts_def opt_part_def empty_part_def b64_char_def b64_alphabet_def Let_def)
  from file_bytes_roundtrip [OF _ this, of "[255, 0]"] show ?thesis by simp
qed

text \<open>\<^verbatim>\<open>_build_parts\<close> returns one part per argument given, never an empty list, each part
  of the kind of its argument, and raises exactly when there is no content argument.\<close>

theorem build_parts_kinds:
  "case build_parts a of
     Inl e \<Rightarrow> ca_text a = None \<and> ca_data a = None \<and> ca_file_bytes a = None \<and> ca_file_url a = None
   | Inr ps \<Rightarrow> ps \<noteq> [] \<and> map part_kind ps =
       (if ca_text a = None then [] else [KText]) @ (if ca_data a = None then [] else [KData])
       @ (if ca_file_bytes a = None then [] else [KRaw]) @ (if ca_file_url a = None then [] else [KUrl])"
  by (cases "ca_text a"; cases "ca_data a"; cases "ca_file_bytes a"; cases "ca_file_url a")
    (simp_all add: build_parts_def opt_part_def Let_def empty_part_def part_kind_def)

end
