(* ===== verification/Runtime.thy ===== *)
theory Runtime
  imports Storage_Memory Broker_Memory Event_Bus Message_Parts
begin

text \<open>
  The state the request handlers and workers share, and the calls they make on it.

  \<open>world\<close> holds the backends (storage, event bus, cancel registry, broker queue, push-config store),
  the context object of the turn being run, and the background coroutines that were started.
  \<open>env\<close> holds what stays fixed: the storage operations, the clocks and \<^verbatim>\<open>uuid.uuid4()\<close> as supplies
  indexed by a tick counter, and the faults a networked bus or broker may show.

  Other coroutines and processes run between two storage calls of a method. Their effect is
  explicit: \<open>w_interf\<close> lists what they do to the storage, one entry before each storage call. The
  theorems hold for every such list that respects the storage contract (\<open>rely\<close>), so they cover
  all interleavings at storage operations, which are atomic.

  \<open>w_trace\<close> records the effects in the order in which they happen: successful writes, published
  events, hook calls, webhook deliveries.
\<close>

section \<open>State\<close>

record history_message =
  hm_role :: string
  hm_text :: string
  hm_parts :: "part list"
  hm_message_id :: string

record previous_artifact =
  pr_artifact_id :: string
  pr_name :: "string option"
  pr_parts :: "part list"

text \<open>The fields of \<^verbatim>\<open>TaskContextImpl\<close> (\<^verbatim>\<open>worker/base.py\<close>).\<close>

record task_ctx =
  tc_task_id :: string
  tc_context_id :: "string option"
  tc_message_id :: string
  tc_user_text :: string
  tc_parts :: "part list"
  tc_metadata :: mdict
  tc_history :: "history_message list"
  tc_previous_artifacts :: "previous_artifact list"
  tc_turn_ended :: bool
  tc_version :: "int option"
  tc_request_context :: mdict
  tc_accepted_output_modes :: "string list option"
  tc_reference_task_ids :: "string list"
  tc_message_extensions :: "string list"
  tc_pending_artifacts :: "artifact_write list"
  tc_last_flush :: rat
  tc_flush_interval :: rat
  tc_flush_count :: nat

datatype hook_kind = OnStateChange | OnWorking | OnTurnEnd | OnTerminal

datatype effect =
    EWrite string update int
  | EPublish string stream_event
  | EHook hook_kind string "task_state option" "message option"
  | EDeliver "task_push_config list" task

datatype background =
    EnqueueOrFail string send_request bool "mdict option"
  | ForceCancelAfter string rat

text \<open>The counters and timers of \<^verbatim>\<open>TracingEmitter\<close>.\<close>

record metrics =
  mt_task_timers :: "(string, rat) pydict"
  mt_active :: int
  mt_total :: "string list"
  mt_errors :: int
  mt_durations :: "(rat \<times> string) list"

record ('s, 'q) world =
  w_store :: 's
  w_interf :: "('s \<Rightarrow> 's) list"
  w_bus :: "'q event_bus"
  w_cancel :: cancel_registry
  w_broker :: broker
  w_push :: "push_store option"
  w_metrics :: metrics
  w_ctx :: task_ctx
  w_background :: "background list"
  w_tick :: nat
  w_trace :: "effect list"

record ('s, 'q) env =
  e_so :: "'s storage_ops"
  e_uuid :: "nat \<Rightarrow> string"
  e_now :: "nat \<Rightarrow> string"
  e_mono :: "nat \<Rightarrow> rat"
  e_send :: "bus_item \<Rightarrow> 'q \<Rightarrow> 'q send_result"
  e_bus_fault :: "nat \<Rightarrow> exn option"
  e_broker_fault :: "nat \<Rightarrow> (bool \<times> exn) option"
  e_otel :: bool

type_synonym ('s, 'q, 'a) act = "(('s, 'q) world, exn, 'a) py"

section \<open>Calls\<close>

definition tick :: "(nat \<Rightarrow> 'a) \<Rightarrow> ('s, 'q, 'a) act" where
  "tick f = (\<lambda>w. (Inr (f (w_tick w)), w\<lparr>w_tick := Suc (w_tick w)\<rparr>))"

definition emit_effect :: "effect \<Rightarrow> ('s, 'q, unit) act" where
  "emit_effect x = modify (\<lambda>w. w\<lparr>w_trace := w_trace w @ [x]\<rparr>)"

text \<open>A storage call: first whatever others did to the storage in the meantime, then the call.\<close>

definition store_call :: "('s, exn, 'a) py \<Rightarrow> ('s, 'q, 'a) act" where
  "store_call m = (\<lambda>w.
     let s0 = (case w_interf w of [] \<Rightarrow> w_store w | f # _ \<Rightarrow> f (w_store w)) in
     case m s0 of (r, s1) \<Rightarrow> (r, w\<lparr>w_store := s1, w_interf := tl (w_interf w)\<rparr>))"

definition storage_load_task :: "('s, 'q) env \<Rightarrow> string \<Rightarrow> int option \<Rightarrow> ('s, 'q, task option) act" where
  "storage_load_task env tid hl = store_call (so_load_task (e_so env) tid hl True)"

definition storage_get_version :: "('s, 'q) env \<Rightarrow> string \<Rightarrow> ('s, 'q, int option) act" where
  "storage_get_version env tid = store_call (so_get_version (e_so env) tid)"

definition storage_list_tasks :: "('s, 'q) env \<Rightarrow> list_query \<Rightarrow> ('s, 'q, list_result) act" where
  "storage_list_tasks env q = store_call (so_list_tasks (e_so env) q)"

definition storage_update_task :: "('s, 'q) env \<Rightarrow> string \<Rightarrow> update \<Rightarrow> ('s, 'q, int) act" where
  "storage_update_task env tid u =
     bindE (tick (e_now env)) (\<lambda>now.
     bindE (store_call (so_update_task (e_so env) now tid u)) (\<lambda>v.
     thenE (emit_effect (EWrite tid u v)) (ret v)))"

definition storage_create_task ::
  "('s, 'q) env \<Rightarrow> string \<Rightarrow> message \<Rightarrow> string option \<Rightarrow> ('s, 'q, task) act" where
  "storage_create_task env ctx msg key =
     bindE (tick (e_uuid env)) (\<lambda>uid. bindE (tick (e_now env)) (\<lambda>now.
       store_call (so_create_task (e_so env) now uid ctx msg key)))"

text \<open>The event bus: a networked bus may fail instead of publishing.\<close>

definition bus_publish :: "('s, 'q) env \<Rightarrow> string \<Rightarrow> stream_event \<Rightarrow> ('s, 'q, unit) act" where
  "bus_publish env tid ev =
     bindE (tick (\<lambda>n. (e_mono env n, e_bus_fault env n))) (\<lambda>(now, fault). case fault of
         Some e \<Rightarrow> raise e
       | None \<Rightarrow> thenE (modify (\<lambda>w. w\<lparr>w_bus := snd (EventBus_publish (e_send env) now tid ev (w_bus w))\<rparr>))
                   (emit_effect (EPublish tid ev)))"

definition bus_cleanup :: "('s, 'q) env \<Rightarrow> string \<Rightarrow> ('s, 'q, unit) act" where
  "bus_cleanup env tid =
     bindE (tick (\<lambda>n. (e_mono env n, e_bus_fault env n))) (\<lambda>(now, fault). case fault of
         Some e \<Rightarrow> raise e
       | None \<Rightarrow> modify (\<lambda>w. w\<lparr>w_bus := EventBus_cleanup now tid (w_bus w)\<rparr>))"

definition on_cancel_registry :: "(cancel_registry \<Rightarrow> cancel_registry) \<Rightarrow> ('s, 'q, unit) act" where
  "on_cancel_registry f = modify (\<lambda>w. w\<lparr>w_cancel := f (w_cancel w)\<rparr>)"

definition on_broker :: "(broker, exn, 'a) py \<Rightarrow> ('s, 'q, 'a) act" where
  "on_broker m = (\<lambda>w. case m (w_broker w) of (r, b) \<Rightarrow> (r, w\<lparr>w_broker := b\<rparr>))"

text \<open>\<^verbatim>\<open>broker.run_task\<close>: a networked broker may raise, before or after the operation was queued.\<close>

definition broker_run_task ::
  "('s, 'q) env \<Rightarrow> send_request \<Rightarrow> bool \<Rightarrow> mdict option \<Rightarrow> ('s, 'q, unit) act" where
  "broker_run_task env params is_new rc =
     bindE (tick (e_broker_fault env)) (\<lambda>fault. case fault of
         None \<Rightarrow> on_broker (InMemoryBroker_run_task params is_new rc)
       | Some (took_effect, e) \<Rightarrow>
           thenE (unless (\<not> took_effect) (on_broker (InMemoryBroker_run_task params is_new rc))) (raise e))"

definition on_ctx :: "(task_ctx \<Rightarrow> task_ctx) \<Rightarrow> ('s, 'q, unit) act" where
  "on_ctx f = modify (\<lambda>w. w\<lparr>w_ctx := f (w_ctx w)\<rparr>)"

definition spawn :: "background \<Rightarrow> ('s, 'q, unit) act" where
  "spawn b = modify (\<lambda>w. w\<lparr>w_background := w_background w @ [b]\<rparr>)"

named_theorems call_defs \<open>unfolding of the calls\<close>

lemmas [call_defs] = tick_def emit_effect_def store_call_def storage_load_task_def storage_get_version_def
  storage_list_tasks_def storage_update_task_def storage_create_task_def bus_publish_def bus_cleanup_def
  on_cancel_registry_def on_broker_def broker_run_task_def on_ctx_def spawn_def

section \<open>Announcements follow writes\<close>

text \<open>
  A terminal marker closes the streams of the clients. \<open>announced_ok\<close> says of a trace that every
  marker announces a state which an earlier, successful write of that task stored.
\<close>

fun written_by :: "effect \<Rightarrow> (string \<times> task_state) set" where
  "written_by (EWrite tid u v) = (case u_state u of None \<Rightarrow> {} | Some st \<Rightarrow> {(tid, st)})"
| "written_by _ = {}"

definition written :: "effect list \<Rightarrow> (string \<times> task_state) set" where
  "written xs = (\<Union>x \<in> set xs. written_by x)"

fun announces :: "effect \<Rightarrow> (string \<times> task_state) option" where
  "announces (EPublish tid (TerminalMarker se)) = Some (tid, ts_state (se_status se))"
| "announces _ = None"

fun announced_after :: "(string \<times> task_state) set \<Rightarrow> effect list \<Rightarrow> bool" where
  "announced_after S [] = True"
| "announced_after S (x # xs) \<longleftrightarrow>
     (case announces x of None \<Rightarrow> True | Some p \<Rightarrow> p \<in> S) \<and> announced_after (S \<union> written_by x) xs"

definition announced_ok :: "effect list \<Rightarrow> bool" where
  "announced_ok xs = announced_after {} xs"

lemma written_simps [simp]:
  "written [] = {}" "written (x # xs) = written_by x \<union> written xs"
  "written (xs @ ys) = written xs \<union> written ys"
  by (auto simp: written_def)

lemma announced_after_append:
  "announced_after S (xs @ ys) \<longleftrightarrow> announced_after S xs \<and> announced_after (S \<union> written xs) ys"
  by (induction xs arbitrary: S) (auto simp: Un_assoc)

lemma announced_ok_snoc:
  "announced_ok (xs @ [x]) \<longleftrightarrow> announced_ok xs \<and> (case announces x of None \<Rightarrow> True | Some p \<Rightarrow> p \<in> written xs)"
  by (simp add: announced_ok_def announced_after_append)

definition anno :: "effect list \<Rightarrow> effect list \<Rightarrow> bool" where
  "anno tr tr' \<longleftrightarrow> prefix tr tr' \<and> (announced_ok tr \<longrightarrow> announced_ok tr')"

lemma anno_refl [simp]: "anno tr tr"
  by (simp add: anno_def)

lemma anno_trans: "anno a b \<Longrightarrow> anno b c \<Longrightarrow> anno a c"
  by (auto simp: anno_def)

lemma anno_snoc [simp]: "announces x = None \<Longrightarrow> anno tr (tr @ [x])"
  by (simp add: anno_def announced_ok_snoc)

lemma anno_written: "anno tr tr' \<Longrightarrow> p \<in> written tr \<Longrightarrow> p \<in> written tr'"
  by (auto simp: anno_def prefix_def)

section \<open>Interference and what every method keeps\<close>

text \<open>
  \<open>rely I V tid w\<close>: the storage is in order, and whatever others do to it keeps it in order and
  takes task \<open>tid\<close> along \<open>task_le\<close>, as every write of the framework does. \<open>guar I V tid\<close> is what
  a method guarantees in return, and that its announcements follow its writes.
\<close>

definition honours ::
  "('s \<Rightarrow> bool) \<Rightarrow> ('s \<Rightarrow> string \<Rightarrow> (task \<times> int) option) \<Rightarrow> string \<Rightarrow> ('s \<Rightarrow> 's) \<Rightarrow> bool" where
  "honours I V tid f \<longleftrightarrow> (\<forall>s. I s \<longrightarrow> I (f s) \<and> task_le (V s tid) (V (f s) tid))"

definition rely ::
  "('s \<Rightarrow> bool) \<Rightarrow> ('s \<Rightarrow> string \<Rightarrow> (task \<times> int) option) \<Rightarrow> string \<Rightarrow> ('s, 'q) world \<Rightarrow> bool" where
  "rely I V tid w \<longleftrightarrow> I (w_store w) \<and> (\<forall>f \<in> set (w_interf w). honours I V tid f)"

definition guar ::
  "('s \<Rightarrow> bool) \<Rightarrow> ('s \<Rightarrow> string \<Rightarrow> (task \<times> int) option) \<Rightarrow> string \<Rightarrow>
   ('s, 'q) world \<Rightarrow> ('s, 'q) world \<Rightarrow> bool" where
  "guar I V tid w w' \<longleftrightarrow> (rely I V tid w \<longrightarrow> rely I V tid w'
     \<and> task_le (V (w_store w) tid) (V (w_store w') tid) \<and> anno (w_trace w) (w_trace w'))"

interpretation guar: preorder_rel "guar I V tid"
  by unfold_locales (auto simp: guar_def intro: task_le_trans anno_trans)

lemma keeps_guar_modify:
  "(\<And>w. w_store (f w) = w_store w \<and> w_interf (f w) = w_interf w \<and> anno (w_trace w) (w_trace (f w)))
    \<Longrightarrow> keeps (guar I V tid) (modify f)"
  by (simp add: keeps_def guar_def rely_def modify_def)

lemma keeps_guar_store_call:
  assumes "\<And>s. I s \<Longrightarrow> I (snd (m s)) \<and> task_le (V s tid) (V (snd (m s)) tid)"
  shows "keeps (guar I V tid) (store_call m)"
proof (rule keepsI, unfold guar_def, intro conjI impI)
  fix w
  show "anno (w_trace w) (w_trace (snd (store_call m w)))"
    by (simp add: store_call_def Let_def split: prod.split)
next
  fix w
  assume w: "rely I V tid w"
  let ?s = "case w_interf w of [] \<Rightarrow> w_store w | f # _ \<Rightarrow> f (w_store w)"
  from w have "I ?s \<and> task_le (V (w_store w) tid) (V ?s tid)"
    by (auto simp: rely_def honours_def split: list.split)
  moreover with assms have "I (snd (m ?s)) \<and> task_le (V ?s tid) (V (snd (m ?s)) tid)" by blast
  moreover from w have "\<forall>f \<in> set (tl (w_interf w)). honours I V tid f"
    by (cases "w_interf w") (auto simp: rely_def)
  ultimately show "rely I V tid (snd (store_call m w))"
    "task_le (V (w_store w) tid) (V (w_store (snd (store_call m w))) tid)"
    by (auto simp: rely_def store_call_def Let_def intro: task_le_trans split: prod.split)
qed

text \<open>
  \<open>achieves I V tid P m Q\<close>: under interference, from a state with \<open>P\<close>, the method \<open>m\<close> keeps the guarantee on
  every path, and when it returns a value, \<open>Q\<close> holds.
\<close>

named_theorems achieves_intros \<open>rules for what methods achieve under interference\<close>

definition achieves ::
  "('s \<Rightarrow> bool) \<Rightarrow> ('s \<Rightarrow> string \<Rightarrow> (task \<times> int) option) \<Rightarrow> string \<Rightarrow> (('s, 'q) world \<Rightarrow> bool)
    \<Rightarrow> ('s, 'q, 'a) act \<Rightarrow> ('a \<Rightarrow> ('s, 'q) world \<Rightarrow> bool) \<Rightarrow> bool" where
  "achieves I V tid P m Q \<longleftrightarrow> (\<forall>w. rely I V tid w \<longrightarrow> P w \<longrightarrow>
     wp m (\<lambda>x w'. guar I V tid w w' \<and> Q x w') (\<lambda>_ w'. guar I V tid w w') w)"

text \<open>\<open>stable\<close>: facts that neither other methods nor the guarantee's steps can undo.\<close>

definition stable ::
  "('s \<Rightarrow> bool) \<Rightarrow> ('s \<Rightarrow> string \<Rightarrow> (task \<times> int) option) \<Rightarrow> string \<Rightarrow> (('s, 'q) world \<Rightarrow> bool) \<Rightarrow> bool" where
  "stable I V tid P \<longleftrightarrow> (\<forall>w w'. rely I V tid w \<longrightarrow> guar I V tid w w' \<longrightarrow> P w \<longrightarrow> P w')"

lemma stable_written [simp]: "stable I V tid (\<lambda>w. p \<in> written (w_trace w))"
  by (auto simp: stable_def guar_def intro: anno_written)

lemma stable_const [simp]: "stable I V tid (\<lambda>_. b)"
  by (simp add: stable_def)

lemma stable_imp [simp]: "stable I V tid P \<Longrightarrow> stable I V tid (\<lambda>w. b \<longrightarrow> P w)"
  unfolding stable_def by blast

lemma stable_conj [simp]: "stable I V tid P \<Longrightarrow> stable I V tid Q \<Longrightarrow> stable I V tid (\<lambda>w. P w \<and> Q w)"
  unfolding stable_def by blast

lemma achieves_keeps:
  assumes "achieves I V tid (\<lambda>_. True) m (\<lambda>_ _. True)"
  shows "keeps (guar I V tid) m"
proof (rule keepsI)
  fix w
  obtain r w' where m: "m w = (r, w')" by fastforce
  show "guar I V tid w (snd (m w))"
  proof (cases "rely I V tid w")
    case True
    with assms have "wp m (\<lambda>_ w'. guar I V tid w w') (\<lambda>_ w'. guar I V tid w w') w"
      by (simp add: achieves_def)
    with m show ?thesis by (cases r) (simp_all add: wp_def)
  qed (simp add: guar_def)
qed

lemma achieves_pres: "keeps (guar I V tid) m \<Longrightarrow> stable I V tid P \<Longrightarrow> achieves I V tid P m (\<lambda>_. P)"
  unfolding achieves_def stable_def by (blast intro: wp_mono [OF wp_keeps])

lemma achieves_weaken:
  assumes "achieves I V tid P' m Q'" and "\<And>w. P w \<Longrightarrow> P' w" and "\<And>x w. Q' x w \<Longrightarrow> Q x w"
  shows "achieves I V tid P m Q"
  unfolding achieves_def
proof (intro allI impI)
  fix w
  assume "rely I V tid w" "P w"
  with assms(1,2) have "wp m (\<lambda>x w'. guar I V tid w w' \<and> Q' x w') (\<lambda>_ w'. guar I V tid w w') w"
    by (simp add: achieves_def)
  then show "wp m (\<lambda>x w'. guar I V tid w w' \<and> Q x w') (\<lambda>_ w'. guar I V tid w w') w"
    by (rule wp_mono) (use assms(3) in auto)
qed

lemma achieves_ret [achieves_intros]: "(\<And>w. P w \<Longrightarrow> Q x w) \<Longrightarrow> achieves I V tid P (ret x) Q"
  by (simp add: achieves_def wp_simps guar.R_refl)

lemma achieves_raise [achieves_intros]: "achieves I V tid P (raise e) Q"
  by (simp add: achieves_def wp_simps guar.R_refl)

lemma achieves_tryE [achieves_intros]:
  assumes "achieves I V tid P m R" and "\<And>e. achieves I V tid (\<lambda>_. True) (h e) Q"
    and "\<And>x. achieves I V tid (R x) (k x) Q"
  shows "achieves I V tid P (tryE m h k) Q"
  unfolding achieves_def wp_tryE
proof (intro allI impI)
  fix w
  assume w: "rely I V tid w" "P w"
  have step: "wp n (\<lambda>x w''. guar I V tid w' w'' \<and> Q x w'') (\<lambda>_ w''. guar I V tid w' w'') w' \<Longrightarrow>
      guar I V tid w w' \<Longrightarrow> wp n (\<lambda>x w''. guar I V tid w w'' \<and> Q x w'') (\<lambda>_ w''. guar I V tid w w'') w'" for n w'
    by (erule wp_mono) (blast intro: guar.R_trans)+
  have rl: "guar I V tid w w' \<Longrightarrow> rely I V tid w'" for w' using w(1) by (simp add: guar_def)
  from assms(1) w have "wp m (\<lambda>x w'. guar I V tid w w' \<and> R x w') (\<lambda>_ w'. guar I V tid w w') w"
    by (simp add: achieves_def)
  then show "wp m (\<lambda>x. wp (k x) (\<lambda>x w''. guar I V tid w w'' \<and> Q x w'') (\<lambda>_ w''. guar I V tid w w''))
      (\<lambda>e. wp (h e) (\<lambda>x w''. guar I V tid w w'' \<and> Q x w'') (\<lambda>_ w''. guar I V tid w w'')) w"
    by (rule wp_mono) (use assms(2,3) rl in \<open>auto simp: achieves_def intro!: step\<close>)
qed

lemma achieves_catchE [achieves_intros]:
  "achieves I V tid P m Q \<Longrightarrow> (\<And>e. achieves I V tid (\<lambda>_. True) (h e) Q) \<Longrightarrow> achieves I V tid P (catchE m h) Q"
  unfolding catchE_def by (rule achieves_tryE [where R = Q]) (simp_all add: achieves_ret)

lemma achieves_bindE [achieves_intros]:
  "achieves I V tid P m R \<Longrightarrow> (\<And>x. achieves I V tid (R x) (k x) Q) \<Longrightarrow> achieves I V tid P (bindE m k) Q"
  unfolding bindE_def by (intro achieves_intros)

lemma achieves_thenE [achieves_intros]:
  "achieves I V tid P m R \<Longrightarrow> (\<And>x. achieves I V tid (R x) k Q) \<Longrightarrow> achieves I V tid P (thenE m k) Q"
  unfolding thenE_def by (intro achieves_intros)

lemma achieves_if [achieves_intros]:
  "(b \<Longrightarrow> achieves I V tid P m Q) \<Longrightarrow> (\<not> b \<Longrightarrow> achieves I V tid P k Q) \<Longrightarrow> achieves I V tid P (if b then m else k) Q"
  by simp

lemma achieves_case_option [achieves_intros]:
  "achieves I V tid P m Q \<Longrightarrow> (\<And>x. achieves I V tid P (k x) Q) \<Longrightarrow>
   achieves I V tid P (case z of None \<Rightarrow> m | Some x \<Rightarrow> k x) Q"
  by (cases z) simp_all

text \<open>Calls that leave the storage alone.\<close>

lemma keeps_guar_tick [keeps_intros]: "keeps (guar I V tid) (tick f)"
  by (simp add: keeps_def guar_def rely_def tick_def)

lemma keeps_guar_emit [keeps_intros]: "announces x = None \<Longrightarrow> keeps (guar I V tid) (emit_effect x)"
  by (simp add: emit_effect_def keeps_guar_modify)

lemma keeps_guar_on_ctx [keeps_intros]: "keeps (guar I V tid) (on_ctx f)"
  by (simp add: on_ctx_def keeps_guar_modify)

lemma keeps_guar_spawn [keeps_intros]: "keeps (guar I V tid) (spawn b)"
  by (simp add: spawn_def keeps_guar_modify)

lemma keeps_guar_on_cancel_registry [keeps_intros]: "keeps (guar I V tid) (on_cancel_registry f)"
  by (simp add: on_cancel_registry_def keeps_guar_modify)

lemma keeps_guar_on_broker [keeps_intros]: "keeps (guar I V tid) (on_broker m)"
  by (simp add: keeps_def guar_def rely_def on_broker_def split: prod.split)

lemma keeps_guar_bus_publish [keeps_intros]:
  assumes "\<not> is_stream_terminal ev"
  shows "keeps (guar I V tid) (bus_publish env tid' ev)"
proof -
  from assms have "announces (EPublish tid' ev) = None" by (cases ev) simp_all
  then show ?thesis unfolding bus_publish_def by (intro keeps_intros keeps_guar_modify) simp_all
qed

text \<open>A marker may be published once the state is written.\<close>

lemma guar_publish_marker:
  assumes "(tid', ts_state (se_status se)) \<in> written (w_trace w)"
  shows "guar I V tid w (snd (bus_publish env tid' (TerminalMarker se) w))"
  using assms
  by (auto simp: bus_publish_def tick_def emit_effect_def py_defs guar_def rely_def anno_def
      announced_ok_snoc split: option.split)

lemma keeps_guar_bus_cleanup [keeps_intros]: "keeps (guar I V tid) (bus_cleanup env tid')"
  unfolding bus_cleanup_def by (intro keeps_intros keeps_guar_modify) simp_all

lemma keeps_guar_broker_run_task [keeps_intros]: "keeps (guar I V tid) (broker_run_task env p n rc)"
  unfolding broker_run_task_def by (intro keeps_intros)

section \<open>Calls that write nothing\<close>

text \<open>
  \<open>quiet w\<close>: nobody interferes. \<open>idle I V w w'\<close>: the method wrote nothing to the storage and left the
  context object, registry, broker, push store and background tasks alone; without interference
  the content of the storage is the same.
\<close>

definition quiet :: "('s, 'q) world \<Rightarrow> bool" where
  "quiet w \<longleftrightarrow> set (w_interf w) \<subseteq> {id}"

fun is_write :: "effect \<Rightarrow> bool" where
  "is_write (EWrite _ _ _) = True"
| "is_write _ = False"

definition writes :: "('s, 'q) world \<Rightarrow> effect list" where
  "writes w = filter is_write (w_trace w)"

definition frame :: "('s, 'q) world \<Rightarrow> ('s, 'q) world \<Rightarrow> bool" where
  "frame w w' \<longleftrightarrow> w_ctx w' = w_ctx w \<and> w_cancel w' = w_cancel w \<and> w_broker w' = w_broker w
     \<and> w_push w' = w_push w \<and> w_background w' = w_background w"

definition idle ::
  "('s \<Rightarrow> bool) \<Rightarrow> ('s \<Rightarrow> string \<Rightarrow> (task \<times> int) option) \<Rightarrow> ('s, 'q) world \<Rightarrow> ('s, 'q) world \<Rightarrow> bool" where
  "idle I V w w' \<longleftrightarrow> frame w w' \<and> writes w' = writes w
     \<and> (I (w_store w) \<and> quiet w \<longrightarrow> I (w_store w') \<and> quiet w' \<and> V (w_store w') = V (w_store w))"

interpretation idle: preorder_rel "idle I V"
  by unfold_locales (auto simp: idle_def frame_def)

lemma quiet_Nil: "w_interf w = [] \<Longrightarrow> quiet w"
  by (simp add: quiet_def)

lemma quiet_step: "quiet w \<Longrightarrow> quiet (w\<lparr>w_store := s, w_interf := tl (w_interf w)\<rparr>)"
  by (cases "w_interf w") (simp_all add: quiet_def)

lemma store_call_quiet:
  assumes "quiet w" and "m (w_store w) = (r, s')"
  shows "store_call m w = (r, w\<lparr>w_store := s', w_interf := tl (w_interf w)\<rparr>)"
  using assms by (cases "w_interf w") (auto simp: store_call_def quiet_def)

lemma keeps_idle_modify:
  "(\<And>w. frame w (f w) \<and> writes (f w) = writes w \<and> w_store (f w) = w_store w \<and> w_interf (f w) = w_interf w)
    \<Longrightarrow> keeps (idle I V) (modify f)"
  by (simp add: keeps_def idle_def modify_def quiet_def)

lemma keeps_idle_tick [keeps_intros]: "keeps (idle I V) (tick f)"
  by (simp add: keeps_def idle_def tick_def frame_def writes_def quiet_def)

lemma keeps_idle_emit [keeps_intros]: "\<not> is_write x \<Longrightarrow> keeps (idle I V) (emit_effect x)"
  unfolding emit_effect_def by (intro keeps_idle_modify) (simp add: frame_def writes_def)

lemma keeps_idle_store_call:
  assumes "\<And>s. I s \<Longrightarrow> I (snd (m s)) \<and> V (snd (m s)) = V s"
  shows "keeps (idle I V) (store_call m)"
proof (rule keepsI)
  fix w
  have "idle I V w (snd (store_call m w)) \<longleftrightarrow> (I (w_store w) \<and> quiet w \<longrightarrow>
      I (w_store (snd (store_call m w))) \<and> quiet (snd (store_call m w))
      \<and> V (w_store (snd (store_call m w))) = V (w_store w))"
    by (simp add: idle_def frame_def writes_def store_call_def Let_def split: prod.split)
  moreover have "I (w_store w) \<and> quiet w \<longrightarrow>
      I (w_store (snd (store_call m w))) \<and> quiet (snd (store_call m w))
      \<and> V (w_store (snd (store_call m w))) = V (w_store w)"
    using assms [of "w_store w"] store_call_quiet [of w m]
    by (cases "m (w_store w)") (auto simp: quiet_step)
  ultimately show "idle I V w (snd (store_call m w))" by simp
qed

lemma keeps_idle_bus_publish [keeps_intros]: "keeps (idle I V) (bus_publish env tid ev)"
  unfolding bus_publish_def
  by (intro keeps_intros keeps_idle_modify) (simp_all add: frame_def writes_def)

lemma keeps_idle_bus_cleanup [keeps_intros]: "keeps (idle I V) (bus_cleanup env tid)"
  unfolding bus_cleanup_def
  by (intro keeps_intros keeps_idle_modify) (simp_all add: frame_def writes_def)

context storage_writes begin

text \<open>Reads and valid writes of a backend that meets the contract.\<close>

lemma keeps_load [keeps_intros]:
  "e_so env = so \<Longrightarrow> valid_length hl \<Longrightarrow> keeps (guar inv view tid) (storage_load_task env tid' hl)"
  unfolding storage_load_task_def by (intro keeps_guar_store_call) (simp add: load)

lemma keeps_get_version [keeps_intros]:
  "e_so env = so \<Longrightarrow> keeps (guar inv view tid) (storage_get_version env tid')"
  unfolding storage_get_version_def by (intro keeps_guar_store_call) (simp add: version)

lemma keeps_update [keeps_intros]:
  "e_so env = so \<Longrightarrow> valid_update u \<Longrightarrow> keeps (guar inv view tid) (storage_update_task env tid' u)"
  unfolding storage_update_task_def
  by (intro keeps_intros keeps_guar_store_call) (simp_all add: update_inv update_le)

lemma keeps_idle_load [keeps_intros]:
  "e_so env = so \<Longrightarrow> valid_length hl \<Longrightarrow> keeps (idle inv view) (storage_load_task env tid hl)"
  unfolding storage_load_task_def by (intro keeps_idle_store_call) (simp add: load)

lemma keeps_idle_get_version [keeps_intros]:
  "e_so env = so \<Longrightarrow> keeps (idle inv view) (storage_get_version env tid)"
  unfolding storage_get_version_def by (intro keeps_idle_store_call) (simp add: version)

text \<open>Reads never raise.\<close>

lemma load_returns:
  assumes "e_so env = so" and "rely inv view tid w" and "valid_length hl"
  shows "\<exists>t w'. storage_load_task env tid' hl w = (Inr t, w')"
proof -
  have "inv (case w_interf w of [] \<Rightarrow> w_store w | f # _ \<Rightarrow> f (w_store w))"
    using assms(2) by (auto simp: rely_def honours_def split: list.split)
  with assms show ?thesis by (simp add: storage_load_task_def store_call_def Let_def load)
qed

lemma version_returns:
  assumes "e_so env = so" and "rely inv view tid w"
  shows "\<exists>v w'. storage_get_version env tid' w = (Inr v, w')"
proof -
  have "inv (case w_interf w of [] \<Rightarrow> w_store w | f # _ \<Rightarrow> f (w_store w))"
    using assms(2) by (auto simp: rely_def honours_def split: list.split)
  with assms show ?thesis by (simp add: storage_get_version_def store_call_def Let_def version)
qed

lemma rely_quiet: "inv (w_store w) \<Longrightarrow> quiet w \<Longrightarrow> rely inv view tid w"
  by (auto simp: rely_def quiet_def honours_def)

lemma load_quiet:
  assumes "e_so env = so" and "inv (w_store w)" and "quiet w"
  shows "\<exists>w'. storage_load_task env tid None w = (Inr (map_option fst (view (w_store w) tid)), w')
    \<and> idle inv view w w' \<and> guar inv view tid w w' \<and> quiet w' \<and> inv (w_store w') \<and> view (w_store w') = view (w_store w)"
proof -
  have "map_option (load_view None True \<circ> fst) z = map_option fst z" for z :: "(task \<times> int) option"
    by (cases z) simp_all
  then have run: "storage_load_task env tid None w
      = (Inr (map_option fst (view (w_store w) tid)), w\<lparr>w_store := w_store w, w_interf := tl (w_interf w)\<rparr>)"
    unfolding storage_load_task_def
    by (intro store_call_quiet [OF assms(3)]) (simp add: assms load valid_length_def)
  have i: "idle inv view w (snd (storage_load_task env tid None w))"
    and g: "guar inv view tid w (snd (storage_load_task env tid None w))"
    using keepsD [OF keeps_idle_load [OF assms(1)]] keepsD [OF keeps_load [OF assms(1)]]
    by (simp_all add: valid_length_def)
  from i assms(2,3) run g show ?thesis by (simp add: idle_def)
qed

lemma version_quiet:
  assumes "e_so env = so" and "inv (w_store w)" and "quiet w"
  shows "\<exists>w'. storage_get_version env tid w = (Inr (map_option snd (view (w_store w) tid)), w')
    \<and> idle inv view w w' \<and> guar inv view tid w w' \<and> quiet w' \<and> inv (w_store w') \<and> view (w_store w') = view (w_store w)"
proof -
  have run: "storage_get_version env tid w
      = (Inr (map_option snd (view (w_store w) tid)), w\<lparr>w_store := w_store w, w_interf := tl (w_interf w)\<rparr>)"
    unfolding storage_get_version_def
    by (intro store_call_quiet [OF assms(3)]) (simp add: assms version)
  have i: "idle inv view w (snd (storage_get_version env tid w))"
    and g: "guar inv view tid w (snd (storage_get_version env tid w))"
    using keepsD [OF keeps_idle_get_version [OF assms(1)]] keepsD [OF keeps_get_version [OF assms(1)]]
    by blast+
  from i assms(2,3) run g show ?thesis by (simp add: idle_def)
qed

lemma update_quiet:
  assumes "e_so env = so" and "inv (w_store w)" and "quiet w" and "valid_update u"
    and "view (w_store w) tid = Some (t, v)" and "u_expected_version u \<in> {None, Some v}"
    and "u_state u = None \<or> t_state t \<notin> TERMINAL_STATES"
  shows "\<exists>w' t' now. storage_update_task env tid u w = (Inr (v + 1), w') \<and> apply_update now u t = Inr t'
    \<and> frame w w' \<and> writes w' = writes w @ [EWrite tid u (v + 1)]
    \<and> inv (w_store w') \<and> quiet w' \<and> view (w_store w') = (view (w_store w))(tid \<mapsto> (t', v + 1))"
proof -
  let ?now = "e_now env (w_tick w)"
  obtain t' where t': "apply_update ?now u t = Inr t'"
    using valid_update_applies [OF assms(4) view_meta [OF assms(2,5)]] by blast
  obtain s' where s': "so_update_task so ?now tid u (w_store w) = (Inr (v + 1), s')" "inv s'"
    "view s' = (view (w_store w))(tid \<mapsto> (t', v + 1))"
    using update_ok [OF assms(2,5,6,7,4) t'] by blast
  have "store_call (so_update_task so ?now tid u) (w\<lparr>w_tick := Suc (w_tick w)\<rparr>)
      = (Inr (v + 1), w\<lparr>w_tick := Suc (w_tick w), w_store := s', w_interf := tl (w_interf w)\<rparr>)"
    using s' assms(3) by (subst store_call_quiet [where r = "Inr (v + 1)" and s' = s']) (simp_all add: quiet_def)
  moreover have "quiet (w\<lparr>w_tick := Suc (w_tick w), w_store := s', w_interf := tl (w_interf w),
      w_trace := w_trace w @ [EWrite tid u (v + 1)]\<rparr>)"
    using quiet_step [OF assms(3)] by (simp add: quiet_def)
  ultimately show ?thesis using s' t' assms(1)
    by (auto simp: storage_update_task_def tick_def emit_effect_def py_defs frame_def writes_def)
qed

text \<open>The trace of any write, with interference.\<close>

lemma update_trace:
  assumes "storage_update_task env tid u w = (r, w')"
  shows "frame w w' \<and> (case r of Inl e \<Rightarrow> w_trace w' = w_trace w | Inr v \<Rightarrow> w_trace w' = w_trace w @ [EWrite tid u v])"
  using assms
  by (auto simp: storage_update_task_def tick_def emit_effect_def py_defs frame_def store_call_def Let_def
      split: prod.splits sum.splits)

end

end
