(* ===== verification/Emitters.thy ===== *)
theory Emitters
  imports Runtime
begin

text \<open>
  The write path: \<^verbatim>\<open>event_emitter.py\<close>, and the decorators of \<^verbatim>\<open>hooks.py\<close>, \<^verbatim>\<open>telemetry/_emitter.py\<close> and
  \<^verbatim>\<open>push/emitter.py\<close>. An emitter is a stack of decorators around the default emitter; \<open>update_task\<close>
  and \<open>send_event\<close> recurse through the stack as the delegating methods do. A lifecycle hook is
  user code: a function that says whether the call raises.
\<close>

section \<open>Definitions\<close>

definition TURN_END_STATES :: "task_state set" where
  "TURN_END_STATES = {task_state_input_required, task_state_auth_required}"

record lifecycle_hooks =
  lh_on_state_change :: "(string \<Rightarrow> task_state \<Rightarrow> message option \<Rightarrow> exn option) option"
  lh_on_working :: "(string \<Rightarrow> exn option) option"
  lh_on_turn_end :: "(string \<Rightarrow> task_state \<Rightarrow> message option \<Rightarrow> exn option) option"
  lh_on_terminal :: "(string \<Rightarrow> task_state \<Rightarrow> message option \<Rightarrow> exn option) option"

datatype emitter =
    DefaultEventEmitter
  | HookableEmitter emitter lifecycle_hooks
  | TracingEmitter emitter
  | PushDeliveryEmitter emitter

text \<open>\<^verbatim>\<open>_safe_call\<close>: the call happens, its exception is dropped.\<close>

definition safe_call :: "effect \<Rightarrow> exn option \<Rightarrow> ('s, 'q, unit) act" where
  "safe_call x outcome = swallow (thenE (emit_effect x) (case outcome of None \<Rightarrow> ret () | Some e \<Rightarrow> raise e))"

definition call_hook ::
  "hook_kind \<Rightarrow> (string \<Rightarrow> task_state \<Rightarrow> message option \<Rightarrow> exn option) option \<Rightarrow> string \<Rightarrow> task_state
    \<Rightarrow> message option \<Rightarrow> ('s, 'q, unit) act" where
  "call_hook k cb tid st msg = (case cb of None \<Rightarrow> ret ()
     | Some f \<Rightarrow> safe_call (EHook k tid (Some st) msg) (f tid st msg))"

definition call_on_working :: "(string \<Rightarrow> exn option) option \<Rightarrow> string \<Rightarrow> ('s, 'q, unit) act" where
  "call_on_working cb tid = (case cb of None \<Rightarrow> ret ()
     | Some f \<Rightarrow> safe_call (EHook OnWorking tid None None) (f tid))"

text \<open>The dispatch of \<^verbatim>\<open>HookableEmitter.update_task\<close> after the write; the branches are guarded by
  the state and by the presence of the hook, as in the code.\<close>

definition fire_hooks ::
  "lifecycle_hooks \<Rightarrow> string \<Rightarrow> task_state \<Rightarrow> message option \<Rightarrow> ('s, 'q, unit) act" where
  "fire_hooks h tid st msg =
     thenE (call_hook OnStateChange (lh_on_state_change h) tid st msg)
       (if st \<in> TERMINAL_STATES \<and> lh_on_terminal h \<noteq> None
        then call_hook OnTerminal (lh_on_terminal h) tid st msg
        else if st = task_state_working \<and> lh_on_working h \<noteq> None
        then call_on_working (lh_on_working h) tid
        else if st \<in> TURN_END_STATES \<and> lh_on_turn_end h \<noteq> None
        then call_hook OnTurnEnd (lh_on_turn_end h) tid st msg
        else ret ())"

definition MAX_TASK_TIMERS :: nat where
  "MAX_TASK_TIMERS = 10000"

text \<open>\<^verbatim>\<open>_record_state_metric\<close> at time \<open>now\<close>; the instruments exist when telemetry is enabled.\<close>

definition record_state_metric :: "rat \<Rightarrow> task_state \<Rightarrow> string \<Rightarrow> metrics \<Rightarrow> metrics" where
  "record_state_metric now st tid m =
     (if st = task_state_working then
        let timers = mt_task_timers m;
            timers1 = (if map_of timers tid = None \<and> MAX_TASK_TIMERS \<le> length timers
                       then AList.delete (fst (hd timers)) timers else timers)
        in m\<lparr>mt_task_timers := AList.update tid now timers1, mt_active := mt_active m + 1\<rparr>
      else if st \<in> TERMINAL_STATES then
        m\<lparr>mt_active := mt_active m - 1,
          mt_total := mt_total m @ [state_value st],
          mt_task_timers := AList.delete tid (mt_task_timers m),
          mt_durations := (case map_of (mt_task_timers m) tid of None \<Rightarrow> mt_durations m
             | Some start \<Rightarrow> mt_durations m @ [(now - start, state_value st)]),
          mt_errors := (if st = task_state_failed then mt_errors m + 1 else mt_errors m)\<rparr>
      else m)"

definition push_trigger :: "('s, 'q) env \<Rightarrow> string \<Rightarrow> ('s, 'q, unit) act" where
  "push_trigger env tid = swallow
     (bindE (storage_load_task env tid None) (\<lambda>snapshot. case snapshot of
         None \<Rightarrow> ret ()
       | Some t \<Rightarrow> bindE (gets (\<lambda>w. case w_push w of None \<Rightarrow> []
                                  | Some ps \<Rightarrow> push_get_configs_for_delivery tid ps)) (\<lambda>configs.
           unless (configs = []) (emit_effect (EDeliver configs t)))))"

fun emitter_update_task :: "('s, 'q) env \<Rightarrow> emitter \<Rightarrow> string \<Rightarrow> update \<Rightarrow> ('s, 'q, int) act" where
  "emitter_update_task env DefaultEventEmitter tid u = storage_update_task env tid u"
| "emitter_update_task env (HookableEmitter em h) tid u =
     bindE (emitter_update_task env em tid u) (\<lambda>v.
       thenE (case u_state u of None \<Rightarrow> ret () | Some st \<Rightarrow> fire_hooks h tid st (u_status_message u))
         (ret v))"
| "emitter_update_task env (TracingEmitter em) tid u =
     bindE (emitter_update_task env em tid u) (\<lambda>v.
       thenE (case u_state u of None \<Rightarrow> ret () | Some st \<Rightarrow>
           unless (\<not> e_otel env) (bindE (tick (e_mono env)) (\<lambda>now.
             modify (\<lambda>w. w\<lparr>w_metrics := record_state_metric now st tid (w_metrics w)\<rparr>))))
         (ret v))"
| "emitter_update_task env (PushDeliveryEmitter em) tid u =
     bindE (emitter_update_task env em tid u) (\<lambda>v.
       thenE (case u_state u of None \<Rightarrow> ret () | Some st \<Rightarrow> push_trigger env tid) (ret v))"

fun emitter_send_event :: "('s, 'q) env \<Rightarrow> emitter \<Rightarrow> string \<Rightarrow> stream_event \<Rightarrow> ('s, 'q, unit) act" where
  "emitter_send_event env DefaultEventEmitter tid ev = swallow (bus_publish env tid ev)"
| "emitter_send_event env (HookableEmitter em h) tid ev = emitter_send_event env em tid ev"
| "emitter_send_event env (TracingEmitter em) tid ev = emitter_send_event env em tid ev"
| "emitter_send_event env (PushDeliveryEmitter em) tid ev = emitter_send_event env em tid ev"

section \<open>The write path respects the storage contract\<close>

lemma keeps_guar_safe_call [keeps_intros]: "announces x = None \<Longrightarrow> keeps (guar I V tid) (safe_call x oc)"
  unfolding safe_call_def by (intro keeps_intros)

lemma keeps_guar_fire_hooks [keeps_intros]: "keeps (guar I V tid) (fire_hooks h tid' st msg)"
  unfolding fire_hooks_def call_hook_def call_on_working_def by (intro keeps_intros) simp_all

lemma keeps_guar_send_event [keeps_intros]:
  "\<not> is_stream_terminal ev \<Longrightarrow> keeps (guar I V tid) (emitter_send_event env em tid' ev)"
  by (induction em) (simp_all add: keeps_intros)

lemma guar_send_marker:
  assumes "(tid', ts_state (se_status se)) \<in> written (w_trace w)"
  shows "guar I V tid w (snd (emitter_send_event env em tid' (TerminalMarker se) w))"
proof (induction em)
  case DefaultEventEmitter
  show ?case
    using guar_publish_marker [OF assms, of I V tid env]
    by (cases "bus_publish env tid' (TerminalMarker se) w")
      (auto simp: swallow_def catchE_def tryE_def ret_def raise_def split: sum.split)
qed simp_all

context storage_writes begin

lemma keeps_push_trigger [keeps_intros]:
  "e_so env = so \<Longrightarrow> keeps (guar inv view tid) (push_trigger env tid')"
  unfolding push_trigger_def by (intro keeps_intros) (simp_all add: valid_length_def)

lemma keeps_emitter_update [keeps_intros]:
  "e_so env = so \<Longrightarrow> valid_update u \<Longrightarrow> keeps (guar inv view tid) (emitter_update_task env em tid' u)"
proof (induction em)
  case (TracingEmitter em)
  then show ?case by (simp only: emitter_update_task.simps) (intro keeps_intros keeps_guar_modify; simp)
next
  case (HookableEmitter em h)
  then show ?case by (simp only: emitter_update_task.simps) (intro keeps_intros; simp)
next
  case (PushDeliveryEmitter em)
  then show ?case by (simp only: emitter_update_task.simps) (intro keeps_intros; simp)
next
  case DefaultEventEmitter
  then show ?case by (simp add: keeps_update)
qed

end

section \<open>Decorators add nothing but their own effects\<close>

text \<open>Hooks may raise anything but a cancellation of the calling task.\<close>

definition hook_ok :: "(string \<Rightarrow> task_state \<Rightarrow> message option \<Rightarrow> exn option) option \<Rightarrow> bool" where
  "hook_ok cb \<longleftrightarrow> (\<forall>f tid st m e. cb = Some f \<longrightarrow> f tid st m = Some e \<longrightarrow> is_Exception e)"

fun emitter_ok :: "emitter \<Rightarrow> bool" where
  "emitter_ok DefaultEventEmitter = True"
| "emitter_ok (HookableEmitter em h) \<longleftrightarrow> emitter_ok em \<and> hook_ok (lh_on_state_change h)
     \<and> hook_ok (lh_on_turn_end h) \<and> hook_ok (lh_on_terminal h)
     \<and> (\<forall>f tid e. lh_on_working h = Some f \<longrightarrow> f tid = Some e \<longrightarrow> is_Exception e)"
| "emitter_ok (TracingEmitter em) = emitter_ok em"
| "emitter_ok (PushDeliveryEmitter em) = emitter_ok em"

text \<open>The hook calls a transition must make, in order.\<close>

definition hook_effects ::
  "lifecycle_hooks \<Rightarrow> string \<Rightarrow> task_state \<Rightarrow> message option \<Rightarrow> effect list" where
  "hook_effects h tid st msg =
     (if lh_on_state_change h = None then [] else [EHook OnStateChange tid (Some st) msg]) @
     (if st \<in> TERMINAL_STATES \<and> lh_on_terminal h \<noteq> None then [EHook OnTerminal tid (Some st) msg]
      else if st = task_state_working \<and> lh_on_working h \<noteq> None then [EHook OnWorking tid None None]
      else if st \<in> TURN_END_STATES \<and> lh_on_turn_end h \<noteq> None then [EHook OnTurnEnd tid (Some st) msg]
      else [])"

lemma safe_call_returns:
  "(\<And>e. oc = Some e \<Longrightarrow> is_Exception e) \<Longrightarrow> safe_call x oc w = (Inr (), w\<lparr>w_trace := w_trace w @ [x]\<rparr>)"
  by (cases oc) (simp_all add: safe_call_def swallow_def emit_effect_def py_defs)

lemma fire_hooks_returns:
  assumes "emitter_ok (HookableEmitter em h)"
  shows "fire_hooks h tid st msg w = (Inr (), w\<lparr>w_trace := w_trace w @ hook_effects h tid st msg\<rparr>)"
proof -
  have hook: "call_hook k cb tid st msg w'
      = (Inr (), w'\<lparr>w_trace := w_trace w' @ (if cb = None then [] else [EHook k tid (Some st) msg])\<rparr>)"
    if "hook_ok cb" for k cb and w' :: "('a, 'b) world"
    using that by (cases cb) (simp_all add: call_hook_def ret_def safe_call_returns hook_ok_def)
  have work: "call_on_working (lh_on_working h) tid w'
      = (Inr (), w'\<lparr>w_trace := w_trace w' @ (if lh_on_working h = None then [] else [EHook OnWorking tid None None])\<rparr>)"
    for w' :: "('a, 'b) world"
    using assms
    by (cases "lh_on_working h") (simp_all add: call_on_working_def ret_def safe_call_returns)
  show ?thesis using assms
    by (simp add: fire_hooks_def thenE_def bindE_def tryE_def ret_def hook work hook_effects_def)
qed

lemma keeps_idle_safe_call [keeps_intros]: "\<not> is_write x \<Longrightarrow> keeps (idle I V) (safe_call x oc)"
  unfolding safe_call_def by (intro keeps_intros)

lemma keeps_idle_fire_hooks [keeps_intros]: "keeps (idle I V) (fire_hooks h tid st msg)"
  unfolding fire_hooks_def call_hook_def call_on_working_def by (intro keeps_intros) simp_all

lemma keeps_idle_send_event [keeps_intros]: "keeps (idle I V) (emitter_send_event env em tid ev)"
  by (induction em) (simp_all add: keeps_intros)

lemma swallow_returns:
  "(\<And>e w'. m w = (Inl e, w') \<Longrightarrow> is_Exception e) \<Longrightarrow> fst (swallow m w) = Inr ()"
  by (auto simp: swallow_def py_defs split: prod.splits sum.splits)

text \<open>The faults of networked backends are ordinary exceptions.\<close>

definition faults_ok :: "('s, 'q) env \<Rightarrow> bool" where
  "faults_ok env \<longleftrightarrow> (\<forall>n e. e_bus_fault env n = Some e \<longrightarrow> is_Exception e)
     \<and> (\<forall>n b e. e_broker_fault env n = Some (b, e) \<longrightarrow> is_Exception e)"

lemma send_event_returns:
  assumes "faults_ok env"
  shows "\<exists>w'. emitter_send_event env em tid ev w = (Inr (), w')"
proof (induction em)
  case DefaultEventEmitter
  have "fst (swallow (bus_publish env tid ev) w) = Inr ()"
    using assms by (intro swallow_returns)
      (auto simp: call_defs py_defs faults_ok_def split: option.splits)
  then show ?case by (cases "swallow (bus_publish env tid ev) w") simp
qed simp_all

text \<open>Publishing touches neither the storage nor the interference still to come.\<close>

lemma send_event_store:
  "emitter_send_event env em tid ev w = (r, w') \<Longrightarrow> w_store w' = w_store w \<and> w_interf w' = w_interf w"
proof (induction em)
  case DefaultEventEmitter
  then show ?case
    by (auto simp: swallow_def call_defs py_defs split: prod.splits sum.splits option.splits if_splits)
qed simp_all

context storage_writes begin

lemma keeps_idle_push_trigger [keeps_intros]:
  "e_so env = so \<Longrightarrow> keeps (idle inv view) (push_trigger env tid)"
  unfolding push_trigger_def by (intro keeps_intros) (simp_all add: valid_length_def)

lemma push_trigger_returns:
  assumes "e_so env = so" and "rely inv view tid w"
  shows "fst (push_trigger env tid' w) = Inr ()"
  unfolding push_trigger_def
proof (rule swallow_returns)
  fix e w'
  assume a: "bindE (storage_load_task env tid' None) (\<lambda>snapshot. case snapshot of
         None \<Rightarrow> ret ()
       | Some t \<Rightarrow> bindE (gets (\<lambda>w. case w_push w of None \<Rightarrow> []
                                  | Some ps \<Rightarrow> push_get_configs_for_delivery tid' ps)) (\<lambda>configs.
           unless (configs = []) (emit_effect (EDeliver configs t)))) w = (Inl e, w')"
  obtain t w1 where "storage_load_task env tid' None w = (Inr t, w1)"
    using load_returns [OF assms, of None tid'] by (auto simp: valid_length_def)
  with a show "is_Exception e"
    by (cases t) (auto simp: emit_effect_def py_defs split: if_splits)
qed

text \<open>The result of a stack is the result of the write itself; after a refused write nothing else
  happens; after a successful one only effects that write nothing.\<close>

lemma decorator_outcome:
  assumes step: "emitter_update_task env em tid' u w = (r, w1)" "idle inv view w0 w1" "isl r \<longrightarrow> w1 = w0"
    and rely: "rely inv view tid w1"
    and k: "keeps (idle inv view) k" "\<And>w. rely inv view tid w \<Longrightarrow> fst (k w) = Inr ()"
  shows "\<exists>w'. bindE (emitter_update_task env em tid' u) (\<lambda>v. thenE k (ret v)) w = (r, w')
    \<and> idle inv view w0 w' \<and> (isl r \<longrightarrow> w' = w0)"
proof (cases r)
  case (Inl e)
  with step show ?thesis by (simp add: bindE_def tryE_def raise_def)
next
  case (Inr v)
  obtain w2 where w2: "k w1 = (Inr (), w2)" using k(2) [OF rely] by (cases "k w1") simp
  have "idle inv view w0 w2" using idle.R_trans [OF step(2) keepsE [OF k(1) w2]] .
  with step(1) Inr w2 show ?thesis by (simp add: bindE_def thenE_def tryE_def ret_def)
qed

lemma emitter_update_outcome:
  assumes "e_so env = so" and "rely inv view tid w" and "valid_update u" and "emitter_ok em"
    and base: "storage_update_task env tid' u w = (r, w0)"
  shows "\<exists>w'. emitter_update_task env em tid' u w = (r, w') \<and> idle inv view w0 w' \<and> (isl r \<longrightarrow> w' = w0)"
  using assms(4)
proof (induction em)
  case DefaultEventEmitter
  with base show ?case by (simp add: idle.R_refl)
next
  case (HookableEmitter em h)
  then obtain w1 where IH: "emitter_update_task env em tid' u w = (r, w1)" "idle inv view w0 w1" "isl r \<longrightarrow> w1 = w0"
    by auto
  have rl: "rely inv view tid w1"
    using keepsE [OF keeps_emitter_update [OF assms(1,3)] IH(1)] assms(2) by (simp add: guar_def)
  show ?case
    unfolding emitter_update_task.simps
  proof (rule decorator_outcome [OF IH rl], goal_cases)
    case 1
    show ?case by (intro keeps_intros)
  next
    case (2 w)
    show ?case by (cases "u_state u") (simp_all add: ret_def fire_hooks_returns [OF HookableEmitter.prems])
  qed
next
  case (TracingEmitter em)
  then obtain w1 where IH: "emitter_update_task env em tid' u w = (r, w1)" "idle inv view w0 w1" "isl r \<longrightarrow> w1 = w0"
    by auto
  have rl: "rely inv view tid w1"
    using keepsE [OF keeps_emitter_update [OF assms(1,3)] IH(1)] assms(2) by (simp add: guar_def)
  show ?case
    unfolding emitter_update_task.simps
  proof (rule decorator_outcome [OF IH rl], goal_cases)
    case 1
    show ?case by (intro keeps_intros keeps_idle_modify) (simp add: frame_def writes_def)
  next
    case (2 w)
    show ?case by (cases "u_state u") (simp_all add: py_defs tick_def)
  qed
next
  case (PushDeliveryEmitter em)
  then obtain w1 where IH: "emitter_update_task env em tid' u w = (r, w1)" "idle inv view w0 w1" "isl r \<longrightarrow> w1 = w0"
    by auto
  have rl: "rely inv view tid w1"
    using keepsE [OF keeps_emitter_update [OF assms(1,3)] IH(1)] assms(2) by (simp add: guar_def)
  show ?case
    unfolding emitter_update_task.simps
  proof (rule decorator_outcome [OF IH rl], goal_cases)
    case 1
    show ?case by (intro keeps_intros assms)
  next
    case (2 w)
    then show ?case by (cases "u_state u") (simp_all add: ret_def push_trigger_returns [OF assms(1)])
  qed
qed

lemma emitter_write_quiet:
  assumes "e_so env = so" and "emitter_ok em" and "inv (w_store w)" and "quiet w" and "valid_update u"
    and "view (w_store w) tid = Some (t, v)" and "u_expected_version u \<in> {None, Some v}"
    and "u_state u = None \<or> t_state t \<notin> TERMINAL_STATES"
  shows "\<exists>w' t' now. emitter_update_task env em tid u w = (Inr (v + 1), w') \<and> apply_update now u t = Inr t'
    \<and> frame w w' \<and> writes w' = writes w @ [EWrite tid u (v + 1)] \<and> guar inv view tid w w'
    \<and> inv (w_store w') \<and> quiet w' \<and> view (w_store w') = (view (w_store w))(tid \<mapsto> (t', v + 1))"
proof -
  obtain w0 t' now where w0: "storage_update_task env tid u w = (Inr (v + 1), w0)" "apply_update now u t = Inr t'"
    "frame w w0" "writes w0 = writes w @ [EWrite tid u (v + 1)]" "inv (w_store w0)" "quiet w0"
    "view (w_store w0) = (view (w_store w))(tid \<mapsto> (t', v + 1))"
    using update_quiet [OF assms(1,3,4,5,6,7,8)] by blast
  obtain w' where w': "emitter_update_task env em tid u w = (Inr (v + 1), w')" "idle inv view w0 w'"
    using emitter_update_outcome [OF assms(1) rely_quiet [OF assms(3,4)] assms(5,2) w0(1)] by auto
  have "guar inv view tid w w'" using keepsE [OF keeps_emitter_update [OF assms(1,5)] w'(1)] .
  with w0 w' show ?thesis by (auto simp: idle_def frame_def)
qed

text \<open>With interference: a write that returns has put its state on the trace, one that raises wrote
  nothing.\<close>

lemma wp_emitter_update:
  assumes "e_so env = so" and "emitter_ok em" and "valid_update u" and "rely inv view tid w"
    and succ: "\<And>v w'. guar inv view tid w w' \<Longrightarrow> frame w w' \<Longrightarrow> writes w' = writes w @ [EWrite tid' u v]
      \<Longrightarrow> rely inv view tid w' \<Longrightarrow> written_by (EWrite tid' u v) \<subseteq> written (w_trace w') \<Longrightarrow> Q v w'"
    and fail: "\<And>e w'. guar inv view tid w w' \<Longrightarrow> frame w w' \<Longrightarrow> writes w' = writes w
      \<Longrightarrow> rely inv view tid w' \<Longrightarrow> E e w'"
  shows "wp (emitter_update_task env em tid' u) Q E w"
proof -
  obtain r w0 where w0: "storage_update_task env tid' u w = (r, w0)" by fastforce
  obtain w' where w': "emitter_update_task env em tid' u w = (r, w')" "idle inv view w0 w'"
    "isl r \<longrightarrow> w' = w0"
    using emitter_update_outcome [OF assms(1,4,3,2) w0] by auto
  have g: "guar inv view tid w w'" using keepsE [OF keeps_emitter_update [OF assms(1,3)] w'(1)] .
  have g0: "guar inv view tid w w0" using keepsE [OF keeps_update [OF assms(1,3)] w0] .
  have r: "rely inv view tid w'" using g assms(4) by (simp add: guar_def)
  note tr = update_trace [OF w0]
  have f: "frame w w'" using tr w'(2) by (auto simp: idle_def frame_def)
  show ?thesis
  proof (cases r)
    case (Inl e)
    with w' w0 tr have "writes w' = writes w" by (simp add: writes_def)
    with fail [OF g f _ r] Inl w' show ?thesis by (simp add: wp_def)
  next
    case (Inr v)
    with tr have t0: "w_trace w0 = w_trace w @ [EWrite tid' u v]" by simp
    have wr: "writes w' = writes w @ [EWrite tid' u v]"
      using w'(2) t0 by (simp add: idle_def writes_def)
    have "EWrite tid' u v \<in> set (w_trace w')"
      using wr by (metis (no_types) filter_is_subset last_in_set snoc_eq_iff_butlast subsetD writes_def)
    then have "written_by (EWrite tid' u v) \<subseteq> written (w_trace w')"
      unfolding written_def by blast
    with succ [OF g f wr r] Inr w' show ?thesis by (simp add: wp_def)
  qed
qed

lemma achieves_emitter_update:
  assumes "e_so env = so" and "emitter_ok em" and "valid_update u" and "u_state u = Some st"
  shows "achieves inv view tid P (emitter_update_task env em tid' u) (\<lambda>_ w. (tid', st) \<in> written (w_trace w))"
  unfolding achieves_def
  by (intro allI impI wp_emitter_update [OF assms(1,2,3)]) (use assms(4) in auto)

end

lemma achieves_send_marker:
  assumes "\<And>w. P w \<Longrightarrow> (tid', ts_state (se_status se)) \<in> written (w_trace w)"
  shows "achieves I V tid P (emitter_send_event env em tid' (TerminalMarker se)) (\<lambda>_ _. True)"
  unfolding achieves_def
proof (intro allI impI wpI)
  fix w :: "('a, 'b) world" and w'
  assume "P w"
  note g = guar_send_marker [OF assms [OF this], of I V tid env em]
  {
    fix x
    assume "emitter_send_event env em tid' (TerminalMarker se) w = (Inr x, w')"
    with g show "guar I V tid w w' \<and> True" by simp
  next
    fix e
    assume "emitter_send_event env em tid' (TerminalMarker se) w = (Inl e, w')"
    with g show "guar I V tid w w'" by simp
  }
qed

end
