(* ===== verification/Cancel_Task.thy ===== *)
theory Cancel_Task
  imports Emitters
begin

text \<open>
  \<^verbatim>\<open>cancel.py\<close>: the one way in which a task becomes canceled, used by the force-cancel of the task
  manager and by the worker adapter. The early returns of the retry branch are the value \<open>False\<close>.
\<close>

definition marker :: "string \<Rightarrow> string \<Rightarrow> task_status \<Rightarrow> stream_event" where
  "marker tid ctx st = TerminalMarker \<lparr>se_task_id = tid, se_context_id = ctx, se_status = st\<rparr>"

text \<open>\<^verbatim>\<open>artifacts or None\<close>.\<close>

definition or_None :: "'a list option \<Rightarrow> 'a list option" where
  "or_None xs = (if opt_list xs = [] then None else xs)"

text \<open>The last resort: an artifact-only write, which the terminal guard lets pass; errors are logged.\<close>

definition artifact_fallback ::
  "('s, 'q) env \<Rightarrow> emitter \<Rightarrow> string \<Rightarrow> artifact_write list option \<Rightarrow> ('s, 'q, unit) act" where
  "artifact_fallback env em tid arts = unless (opt_list arts = [])
     (swallow (thenE (emitter_update_task env em tid (no_update\<lparr>u_artifacts := arts\<rparr>)) (ret ())))"

text \<open>The transition both attempts write.\<close>

definition final_update ::
  "task_state \<Rightarrow> message \<Rightarrow> artifact_write list option \<Rightarrow> int option \<Rightarrow> update" where
  "final_update st msg arts version = no_update\<lparr>u_state := Some st, u_status_message := Some msg,
     u_messages := Some [msg], u_artifacts := or_None arts, u_expected_version := version\<rparr>"

definition cancel_retry ::
  "('s, 'q) env \<Rightarrow> emitter \<Rightarrow> string \<Rightarrow> message \<Rightarrow> artifact_write list option \<Rightarrow> ('s, 'q, bool) act" where
  "cancel_retry env em tid msg arts =
     bindE (storage_get_version env tid) (\<lambda>version.
     bindE (storage_load_task env tid None) (\<lambda>task.
       if (case task of None \<Rightarrow> True | Some t \<Rightarrow> t_state t \<in> TERMINAL_STATES)
       then thenE (artifact_fallback env em tid arts) (ret False)
       else tryE (emitter_update_task env em tid (final_update task_state_canceled msg arts version))
         (\<lambda>e. if is_lost_race e then thenE (artifact_fallback env em tid arts) (ret False) else raise e)
         (\<lambda>_. ret True)))"

definition cancel_task_in_storage ::
  "('s, 'q) env \<Rightarrow> emitter \<Rightarrow> string \<Rightarrow> string option \<Rightarrow> string \<Rightarrow> artifact_write list option
    \<Rightarrow> ('s, 'q, unit) act" where
  "cancel_task_in_storage env em tid context_id reason arts =
     bindE (storage_get_version env tid) (\<lambda>version.
     bindE (storage_load_task env tid None) (\<lambda>task. case task of
         None \<Rightarrow> ret ()
       | Some t \<Rightarrow>
           if t_state t \<in> TERMINAL_STATES then ret () else
           let resolved_ctx = or_else context_id (t_context_id t) in
           bindE (tick (e_uuid env)) (\<lambda>mid.
           let msg = agent_message [text_part reason] mid tid (Some resolved_ctx) None in
           bindE (tryE (emitter_update_task env em tid (final_update task_state_canceled msg arts version))
                    (\<lambda>e. if is_lost_race e then cancel_retry env em tid msg arts else raise e)
                    (\<lambda>_. ret True)) (\<lambda>written.
             if \<not> written then ret () else
             bindE (tick (e_now env)) (\<lambda>now.
               emitter_send_event env em tid (marker tid resolved_ctx
                 \<lparr>ts_state = task_state_canceled, ts_timestamp = Some now, ts_message = Some msg\<rparr>))))))"

lemma final_update_simps [simp]:
  "u_state (final_update st msg arts v) = Some st" "u_status_message (final_update st msg arts v) = Some msg"
  "u_messages (final_update st msg arts v) = Some [msg]" "u_artifacts (final_update st msg arts v) = or_None arts"
  "u_expected_version (final_update st msg arts v) = v" "u_task_metadata (final_update st msg arts v) = None"
  "valid_update (final_update st msg arts v)"
  by (simp_all add: final_update_def valid_update_def)

lemma valid_artifact_update [simp]: "valid_update (no_update\<lparr>u_artifacts := arts\<rparr>)"
  by (simp add: valid_update_def)

section \<open>Interference\<close>

context storage_writes begin

lemma keeps_artifact_fallback [keeps_intros]:
  "e_so env = so \<Longrightarrow> keeps (guar inv view tid) (artifact_fallback env em tid' arts)"
  unfolding artifact_fallback_def by (intro keeps_intros) simp_all

lemma achieves_cancel_retry:
  assumes "e_so env = so" and "emitter_ok em"
  shows "achieves inv view tid (\<lambda>_. True) (cancel_retry env em tid' msg arts)
    (\<lambda>b w. b \<longrightarrow> (tid', task_state_canceled) \<in> written (w_trace w))"
  unfolding cancel_retry_def
  by (rule achieves_intros achieves_emitter_update achieves_pres | intro keeps_intros
      | simp add: valid_length_def assms)+

lemma keeps_cancel [keeps_intros]:
  assumes "e_so env = so" and "emitter_ok em"
  shows "keeps (guar inv view tid) (cancel_task_in_storage env em tid' ctx reason arts)"
  unfolding cancel_task_in_storage_def Let_def marker_def
  by (rule achieves_keeps,
      (rule achieves_intros achieves_emitter_update achieves_cancel_retry achieves_send_marker achieves_pres
       | intro keeps_intros | simp add: valid_length_def assms)+)

section \<open>Without interference\<close>

text \<open>The effect of a final transition on the stored task.\<close>

lemma final_update_task:
  assumes "apply_update now (final_update st msg arts v) t = Inr t'"
  shows "t_state t' = st" "ts_message (t_status t') = Some msg" "history_list t' = history_list t @ [msg]"
    "t_artifacts t' = upsert_all (opt_list arts) (t_artifacts t)"
  using apply_update_fields [OF assms] by (auto simp: new_status_def or_None_def)

lemma tick_run: "tick f w = (Inr (f (w_tick w)), w\<lparr>w_tick := Suc (w_tick w)\<rparr>)"
  by (simp add: tick_def)

lemma quiet_tick [simp]: "quiet (w\<lparr>w_tick := n\<rparr>) = quiet w"
  by (simp add: quiet_def)

lemma send_event_quiet:
  assumes "faults_ok env"
  shows "\<exists>w'. emitter_send_event env em tid ev w = (Inr (), w') \<and> idle inv view w w'"
  using send_event_returns [OF assms, of em tid ev w] keepsE [OF keeps_idle_send_event] by blast

lemma cancel_quiet:
  assumes env: "e_so env = so" "emitter_ok em" "faults_ok env"
    and w: "inv (w_store w)" "quiet w" and t: "view (w_store w) tid = Some (t, v)" "t_state t \<notin> TERMINAL_STATES"
  shows "\<exists>w' t' msg. cancel_task_in_storage env em tid ctx reason arts w = (Inr (), w')
    \<and> inv (w_store w') \<and> quiet w' \<and> view (w_store w') = (view (w_store w))(tid \<mapsto> (t', v + 1))
    \<and> m_parts msg = [text_part reason] \<and> t_state t' = task_state_canceled
    \<and> ts_message (t_status t') = Some msg \<and> history_list t' = history_list t @ [msg]
    \<and> t_artifacts t' = upsert_all (opt_list arts) (t_artifacts t)
    \<and> writes w' = writes w @ [EWrite tid (final_update task_state_canceled msg arts (Some v)) (v + 1)] \<and> frame w w'"
proof -
  obtain w1 where w1: "storage_get_version env tid w = (Inr (Some v), w1)" "idle inv view w w1"
    "quiet w1" "inv (w_store w1)" "view (w_store w1) = view (w_store w)"
    using version_quiet [OF env(1) w, of tid] t by auto
  obtain w2 where w2: "storage_load_task env tid None w1 = (Inr (Some t), w2)" "idle inv view w1 w2"
    "quiet w2" "inv (w_store w2)" "view (w_store w2) = view (w_store w)"
    using load_quiet [OF env(1) w1(4,3), of tid] t w1(5) by auto
  let ?w3 = "w2\<lparr>w_tick := Suc (w_tick w2)\<rparr>"
  define msg where "msg = agent_message [text_part reason] (e_uuid env (w_tick w2)) tid
    (Some (or_else ctx (t_context_id t))) None"
  obtain w4 t' now where w4: "emitter_update_task env em tid (final_update task_state_canceled msg arts (Some v)) ?w3
      = (Inr (v + 1), w4)" "apply_update now (final_update task_state_canceled msg arts (Some v)) t = Inr t'"
    "frame ?w3 w4" "writes w4 = writes ?w3 @ [EWrite tid (final_update task_state_canceled msg arts (Some v)) (v + 1)]"
    "inv (w_store w4)" "quiet w4" "view (w_store w4) = (view (w_store w))(tid \<mapsto> (t', v + 1))"
    using emitter_write_quiet [OF env(1,2), of ?w3 "final_update task_state_canceled msg arts (Some v)" tid t v]
      w2 t by auto
  let ?w5 = "w4\<lparr>w_tick := Suc (w_tick w4)\<rparr>"
  obtain w6 where w6: "emitter_send_event env em tid (marker tid (or_else ctx (t_context_id t))
      \<lparr>ts_state = task_state_canceled, ts_timestamp = Some (e_now env (w_tick w4)), ts_message = Some msg\<rparr>) ?w5
      = (Inr (), w6)" "idle inv view ?w5 w6"
    using send_event_quiet [OF env(3)] by blast
  have "cancel_task_in_storage env em tid ctx reason arts w = (Inr (), w6)"
    using w1(1) w2(1) t(2) w4(1) w6(1)
    by (simp add: cancel_task_in_storage_def bindE_def tryE_def tick_run ret_def Let_def msg_def)
  moreover have "inv (w_store w6) \<and> quiet w6 \<and> view (w_store w6) = view (w_store w4) \<and> writes w6 = writes w4 \<and> frame w4 w6"
    using w6(2) w4(5,6) by (auto simp: idle_def frame_def writes_def)
  moreover have "writes w2 = writes w" "frame w w2"
    using w1(2) w2(2) by (auto simp: idle_def frame_def)
  ultimately show ?thesis
    using final_update_task [OF w4(2)] w4(3,4,7) by (auto simp: msg_def frame_def writes_def)
qed

end

end
