(* ===== verification/Task_Context.thy ===== *)
theory Task_Context
  imports Cancel_Task
begin

text \<open>
  \<^verbatim>\<open>TaskContextImpl\<close> (\<^verbatim>\<open>worker/base.py\<close>): the object user workers call. Its fields are the record
  \<open>task_ctx\<close> in the state; every method is one definition. \<open>versioned_update\<close> is the optimistic write
  with one retry; artifacts are buffered and flushed; the lifecycle methods drain the buffer into the
  final write. \<open>ctx_cmd\<close> lists the calls a worker can make.
\<close>

section \<open>Writing\<close>

definition set_version :: "int option \<Rightarrow> ('s, 'q, unit) act" where
  "set_version v = on_ctx (\<lambda>c. c\<lparr>tc_version := v\<rparr>)"

definition rebuffer :: "artifact_write list \<Rightarrow> ('s, 'q, unit) act" where
  "rebuffer xs = on_ctx (\<lambda>c. c\<lparr>tc_pending_artifacts := xs @ tc_pending_artifacts c\<rparr>)"

definition make_agent_message ::
  "('s, 'q) env \<Rightarrow> task_ctx \<Rightarrow> part list \<Rightarrow> mdict option \<Rightarrow> ('s, 'q, message) act" where
  "make_agent_message env c parts md = bindE (tick (e_uuid env)) (\<lambda>mid.
     ret (agent_message parts mid (tc_task_id c) (Some (or_else (tc_context_id c) '''')) (Some (opt_list md))))"

text \<open>\<^verbatim>\<open>exc.current_version or await storage.get_version(task_id)\<close>: zero counts as missing.\<close>

definition fresh_version :: "('s, 'q) env \<Rightarrow> string \<Rightarrow> int option \<Rightarrow> ('s, 'q, int option) act" where
  "fresh_version env tid current =
     (if current = None \<or> current = Some 0 then storage_get_version env tid else ret current)"

definition versioned_retry ::
  "('s, 'q) env \<Rightarrow> emitter \<Rightarrow> string \<Rightarrow> update \<Rightarrow> int option \<Rightarrow> ('s, 'q, unit) act" where
  "versioned_retry env em tid u current =
     bindE (storage_load_task env tid None) (\<lambda>task. case task of
         None \<Rightarrow> raise (TaskTerminalStateError (''Task '' @ tid @ '' vanished during update''))
       | Some t \<Rightarrow>
           if t_state t \<in> TERMINAL_STATES \<and> (u_state u \<noteq> None \<or> u_status_message u \<noteq> None)
           then raise (TaskTerminalStateError (''Task '' @ tid @ '' reached terminal state during update''))
           else bindE (fresh_version env tid current) (\<lambda>fv.
             bindE (emitter_update_task env em tid (u\<lparr>u_expected_version := fv\<rparr>)) (\<lambda>v.
               set_version (Some v))))"

definition versioned_update ::
  "('s, 'q) env \<Rightarrow> emitter \<Rightarrow> string \<Rightarrow> update \<Rightarrow> ('s, 'q, unit) act" where
  "versioned_update env em tid u =
     bindE (gets w_ctx) (\<lambda>c.
       tryE (emitter_update_task env em tid (u\<lparr>u_expected_version := tc_version c\<rparr>))
         (\<lambda>e. case e of
             ConcurrencyError msg current \<Rightarrow> versioned_retry env em tid u current
           | _ \<Rightarrow> raise e)
         (\<lambda>v. set_version (Some v)))"

text \<open>The handlers of a lost flush or status write: put the batch back and refresh the version.\<close>

definition refresh_version :: "('s, 'q) env \<Rightarrow> string \<Rightarrow> int option \<Rightarrow> ('s, 'q, unit) act" where
  "refresh_version env tid current = (case current of
      Some v \<Rightarrow> set_version (Some v)
    | None \<Rightarrow> bindE (storage_get_version env tid) set_version)"

definition touch_flush :: "('s, 'q) env \<Rightarrow> ('s, 'q, unit) act" where
  "touch_flush env = bindE (tick (e_mono env)) (\<lambda>now. on_ctx (\<lambda>c. c\<lparr>tc_last_flush := now\<rparr>))"

text \<open>\<^verbatim>\<open>pending = self._pending_artifacts; self._pending_artifacts = []\<close>.\<close>

definition take_pending :: "('s, 'q, artifact_write list) act" where
  "take_pending = bindE (gets (\<lambda>w. tc_pending_artifacts (w_ctx w))) (\<lambda>xs.
     thenE (on_ctx (\<lambda>c. c\<lparr>tc_pending_artifacts := []\<rparr>)) (ret xs))"

definition flush_artifacts :: "('s, 'q) env \<Rightarrow> emitter \<Rightarrow> ('s, 'q, unit) act" where
  "flush_artifacts env em =
     bindE (gets w_ctx) (\<lambda>c. unless (tc_pending_artifacts c = [])
       (bindE take_pending (\<lambda>batch.
          tryE (versioned_update env em (tc_task_id c) (no_update\<lparr>u_artifacts := Some batch\<rparr>))
            (\<lambda>e. case e of
                ConcurrencyError msg current \<Rightarrow>
                  thenE (rebuffer batch) (refresh_version env (tc_task_id c) current)
              | _ \<Rightarrow> thenE (rebuffer batch) (raise e))
            (\<lambda>_. touch_flush env))))"

definition maybe_flush :: "('s, 'q) env \<Rightarrow> emitter \<Rightarrow> ('s, 'q, unit) act" where
  "maybe_flush env em =
     bindE (gets w_ctx) (\<lambda>c. unless (tc_pending_artifacts c = [])
       (bindE (tick (e_mono env)) (\<lambda>now.
          unless (\<not> (now - tc_last_flush c \<ge> tc_flush_interval c
                    \<or> length (tc_pending_artifacts c) \<ge> tc_flush_count c))
            (flush_artifacts env em))))"

section \<open>Events\<close>

definition STREAM_FINAL_STATES :: "task_state set" where
  "STREAM_FINAL_STATES = {task_state_completed, task_state_failed, task_state_canceled,
     task_state_rejected, task_state_auth_required, task_state_input_required}"

definition emit_status ::
  "('s, 'q) env \<Rightarrow> emitter \<Rightarrow> task_ctx \<Rightarrow> task_state \<Rightarrow> message option \<Rightarrow> string option \<Rightarrow> bool option
    \<Rightarrow> ('s, 'q, unit) act" where
  "emit_status env em c st msg msg_text final =
     bindE (if msg = None \<and> truthy msg_text
            then bindE (tick (e_uuid env)) (\<lambda>mid. ret (Some (agent_message [text_part (the msg_text)] mid
                   (tc_task_id c) (Some (or_else (tc_context_id c) '''')) (Some (tc_metadata c)))))
            else ret msg) (\<lambda>status_message.
     bindE (tick (e_now env)) (\<lambda>now.
       let is_final = (case final of Some b \<Rightarrow> b | None \<Rightarrow> st \<in> STREAM_FINAL_STATES);
           event = \<lparr>se_task_id = tc_task_id c, se_context_id = or_else (tc_context_id c) '''',
                    se_status = \<lparr>ts_state = st, ts_timestamp = Some now, ts_message = status_message\<rparr>\<rparr>
       in if is_final then emitter_send_event env em (tc_task_id c) (TerminalMarker event)
          else emitter_send_event env em (tc_task_id c) (TaskStatusUpdateEvent event)))"

fun send_all :: "('s, 'q) env \<Rightarrow> emitter \<Rightarrow> string \<Rightarrow> stream_event list \<Rightarrow> ('s, 'q, unit) act" where
  "send_all env em tid [] = ret ()"
| "send_all env em tid (e # es) = thenE (emitter_send_event env em tid e) (send_all env em tid es)"

section \<open>Lifecycle\<close>

definition turn_ended_error :: "task_state \<Rightarrow> exn" where
  "turn_ended_error st = RuntimeError (''Cannot transition to '' @ state_value st @ '': turn already ended. Only one lifecycle method (complete/fail/reject/respond/request_input/request_auth/reply_directly) may be called per turn.'')"

definition transition_update ::
  "task_state \<Rightarrow> message option \<Rightarrow> artifact_write list \<Rightarrow> mdict option \<Rightarrow> update" where
  "transition_update st msg arts md = no_update\<lparr>u_state := Some st,
     u_artifacts := (if arts = [] then None else Some arts), u_status_message := msg,
     u_messages := map_option (\<lambda>m. [m]) msg, u_task_metadata := md\<rparr>"

definition terminal_transition ::
  "('s, 'q) env \<Rightarrow> emitter \<Rightarrow> task_state \<Rightarrow> message option \<Rightarrow> artifact_write list option \<Rightarrow> mdict option
    \<Rightarrow> stream_event list option \<Rightarrow> ('s, 'q, unit) act" where
  "terminal_transition env em st msg arts md pre_events =
     bindE (gets w_ctx) (\<lambda>c.
       if tc_turn_ended c then raise (turn_ended_error st) else
       bindE take_pending (\<lambda>pending.
       thenE (catchE (versioned_update env em (tc_task_id c) (transition_update st msg (pending @ opt_list arts) md))
                (\<lambda>e. thenE (rebuffer pending) (raise e)))
       (thenE (on_ctx (\<lambda>c. c\<lparr>tc_turn_ended := True\<rparr>))
       (thenE (send_all env em (tc_task_id c) (opt_list pre_events))
         (emit_status env em c st msg None None)))))"

definition simple_artifact :: "string \<Rightarrow> part list \<Rightarrow> mdict option \<Rightarrow> artifact" where
  "simple_artifact aid parts md = \<lparr>a_artifact_id = aid, a_name = '''', a_description = '''',
     a_parts = parts, a_metadata = md, a_extensions = []\<rparr>"

definition artifact_update :: "task_ctx \<Rightarrow> artifact \<Rightarrow> bool \<Rightarrow> bool \<Rightarrow> stream_event" where
  "artifact_update c a app last_chunk = TaskArtifactUpdateEvent \<lparr>ae_task_id = tc_task_id c,
     ae_context_id = or_else (tc_context_id c) '''', ae_artifact = a, ae_append = app, ae_last_chunk = last_chunk\<rparr>"

definition ctx_complete ::
  "('s, 'q) env \<Rightarrow> emitter \<Rightarrow> string option \<Rightarrow> string \<Rightarrow> ('s, 'q, unit) act" where
  "ctx_complete env em txt artifact_id = bindE (gets w_ctx) (\<lambda>c. case txt of
      None \<Rightarrow> terminal_transition env em task_state_completed None None None None
    | Some s \<Rightarrow>
        let a = simple_artifact artifact_id [text_part s] None in
        terminal_transition env em task_state_completed None (Some [\<lparr>aw_artifact = a, aw_append = False\<rparr>])
          None (Some [artifact_update c a False True]))"

definition json_media :: string where
  "json_media = ''application/json''"

definition ctx_complete_json ::
  "('s, 'q) env \<Rightarrow> emitter \<Rightarrow> json \<Rightarrow> string \<Rightarrow> ('s, 'q, unit) act" where
  "ctx_complete_json env em data artifact_id = bindE (gets w_ctx) (\<lambda>c.
     let a = simple_artifact artifact_id [empty_part\<lparr>p_data := Some data, p_media_type := Some json_media\<rparr>]
               (Some [(''media_type'', JStr json_media)]) in
     terminal_transition env em task_state_completed None (Some [\<lparr>aw_artifact = a, aw_append = False\<rparr>])
       None (Some [artifact_update c a False True]))"

definition ctx_fail :: "('s, 'q) env \<Rightarrow> emitter \<Rightarrow> string \<Rightarrow> ('s, 'q, unit) act" where
  "ctx_fail env em reason = bindE (gets w_ctx) (\<lambda>c. bindE (make_agent_message env c [text_part reason] None) (\<lambda>msg.
     terminal_transition env em task_state_failed (Some msg) None None None))"

definition ctx_reject :: "('s, 'q) env \<Rightarrow> emitter \<Rightarrow> string option \<Rightarrow> ('s, 'q, unit) act" where
  "ctx_reject env em reason =
     bindE (gets w_ctx) (\<lambda>c. bindE (make_agent_message env c [text_part (or_else reason ''Task rejected.'')] None) (\<lambda>msg.
       terminal_transition env em task_state_rejected (Some msg) None None None))"

definition ctx_request_input :: "('s, 'q) env \<Rightarrow> emitter \<Rightarrow> string \<Rightarrow> ('s, 'q, unit) act" where
  "ctx_request_input env em question = bindE (gets w_ctx) (\<lambda>c. bindE (make_agent_message env c [text_part question] None) (\<lambda>msg.
     terminal_transition env em task_state_input_required (Some msg) None None None))"

definition auth_parts ::
  "string option \<Rightarrow> string list option \<Rightarrow> string option \<Rightarrow> string option \<Rightarrow> part list" where
  "auth_parts details schemes hint url =
     (let ps1 = (case details of None \<Rightarrow> [] | Some d \<Rightarrow> [text_part d]);
          fields = (if opt_list schemes = [] then [] else [(''schemes'', JList (map JStr (opt_list schemes)))])
            @ (if truthy hint then [(''credentialsHint'', JStr (the hint))] else [])
            @ (if truthy url then [(''authUrl'', JStr (the url))] else []);
          ps2 = (if fields = [] then ps1
                 else ps1 @ [empty_part\<lparr>p_data := Some (JObj fields), p_media_type := Some json_media\<rparr>])
      in if ps2 = [] then [text_part ''Authentication required.''] else ps2)"

definition ctx_request_auth ::
  "('s, 'q) env \<Rightarrow> emitter \<Rightarrow> string option \<Rightarrow> string list option \<Rightarrow> string option \<Rightarrow> string option
    \<Rightarrow> ('s, 'q, unit) act" where
  "ctx_request_auth env em details schemes hint url =
     bindE (gets w_ctx) (\<lambda>c. bindE (make_agent_message env c (auth_parts details schemes hint url) None) (\<lambda>msg.
       terminal_transition env em task_state_auth_required (Some msg) None None None))"

definition ctx_respond :: "('s, 'q) env \<Rightarrow> emitter \<Rightarrow> string option \<Rightarrow> ('s, 'q, unit) act" where
  "ctx_respond env em txt =
     bindE (gets w_ctx) (\<lambda>c. bindE (make_agent_message env c (case txt of None \<Rightarrow> [] | Some s \<Rightarrow> [text_part s]) None) (\<lambda>msg.
       terminal_transition env em task_state_completed (Some msg) None None None))"

definition ctx_reply_directly :: "('s, 'q) env \<Rightarrow> emitter \<Rightarrow> string \<Rightarrow> ('s, 'q, unit) act" where
  "ctx_reply_directly env em txt = bindE (gets w_ctx) (\<lambda>c. bindE (make_agent_message env c [text_part txt] None) (\<lambda>msg.
     terminal_transition env em task_state_completed (Some msg) None
       (Some [(DIRECT_REPLY_KEY, JStr (m_message_id msg))]) (Some [DirectReply msg])))"

section \<open>Progress and artifacts\<close>

definition ctx_send_status :: "('s, 'q) env \<Rightarrow> emitter \<Rightarrow> string option \<Rightarrow> ('s, 'q, unit) act" where
  "ctx_send_status env em message = bindE (gets w_ctx) (\<lambda>c.
     if tc_turn_ended c then ret () else case message of
       None \<Rightarrow> emit_status env em c task_state_working None None (Some False)
     | Some s \<Rightarrow> bindE (make_agent_message env c [text_part s] None) (\<lambda>msg.
         bindE take_pending (\<lambda>pending.
         bindE (tryE (versioned_update env em (tc_task_id c) (no_update\<lparr>u_status_message := Some msg, u_artifacts := or_None (Some pending)\<rparr>))
           (\<lambda>e. case e of
               ConcurrencyError m current \<Rightarrow>
                 thenE (rebuffer pending) (thenE (refresh_version env (tc_task_id c) current) (ret False))
             | _ \<Rightarrow> thenE (rebuffer pending) (raise e))
           (\<lambda>_. thenE (touch_flush env) (ret True))) (\<lambda>stored.
         unless (\<not> stored) (emit_status env em c task_state_working (Some msg) None (Some False))))))"

record artifact_args =
  aa_artifact_id :: string
  aa_content :: content_args
  aa_name :: "string option"
  aa_description :: "string option"
  aa_append :: bool
  aa_last_chunk :: bool
  aa_metadata :: "mdict option"
  aa_extensions :: "string list option"

definition built_artifact :: "artifact_args \<Rightarrow> part list \<Rightarrow> artifact" where
  "built_artifact args parts = \<lparr>a_artifact_id = aa_artifact_id args, a_name = or_else (aa_name args) '''',
     a_description = or_else (aa_description args) '''', a_parts = parts,
     a_metadata = aa_metadata args, a_extensions = opt_list (aa_extensions args)\<rparr>"

definition ctx_emit_artifact :: "('s, 'q) env \<Rightarrow> emitter \<Rightarrow> artifact_args \<Rightarrow> ('s, 'q, unit) act" where
  "ctx_emit_artifact env em args = bindE (gets w_ctx) (\<lambda>c.
     if tc_turn_ended c then ret () else
     case build_parts (aa_content args) of
       Inl e \<Rightarrow> raise e
     | Inr parts \<Rightarrow>
         let a = built_artifact args parts in
         thenE (emitter_send_event env em (tc_task_id c) (artifact_update c a (aa_append args) (aa_last_chunk args)))
         (thenE (on_ctx (\<lambda>c. c\<lparr>tc_pending_artifacts := tc_pending_artifacts c @ [\<lparr>aw_artifact = a, aw_append = aa_append args\<rparr>]\<rparr>))
           (maybe_flush env em)))"

definition no_content :: content_args where
  "no_content = \<lparr>ca_text = None, ca_data = None, ca_file_bytes = None, ca_file_url = None,
     ca_media_type = None, ca_filename = None\<rparr>"

definition ctx_emit_text_artifact ::
  "('s, 'q) env \<Rightarrow> emitter \<Rightarrow> string \<Rightarrow> string \<Rightarrow> bool \<Rightarrow> bool \<Rightarrow> ('s, 'q, unit) act" where
  "ctx_emit_text_artifact env em txt aid app last_chunk = ctx_emit_artifact env em
     \<lparr>aa_artifact_id = aid, aa_content = no_content\<lparr>ca_text := Some txt\<rparr>, aa_name = None,
      aa_description = None, aa_append = app, aa_last_chunk = last_chunk, aa_metadata = None, aa_extensions = None\<rparr>"

definition ctx_emit_data_artifact ::
  "('s, 'q) env \<Rightarrow> emitter \<Rightarrow> json \<Rightarrow> string \<Rightarrow> string \<Rightarrow> bool \<Rightarrow> bool \<Rightarrow> ('s, 'q, unit) act" where
  "ctx_emit_data_artifact env em data aid media app last_chunk = ctx_emit_artifact env em
     \<lparr>aa_artifact_id = aid, aa_content = no_content\<lparr>ca_data := Some data\<rparr>, aa_name = None,
      aa_description = None, aa_append = app, aa_last_chunk = last_chunk,
      aa_metadata = Some [(''media_type'', JStr media)], aa_extensions = None\<rparr>"

section \<open>Conversation context, queries\<close>

definition ctx_load_context :: "('s, 'q) env \<Rightarrow> ('s, 'q, json option) act" where
  "ctx_load_context env = bindE (gets w_ctx) (\<lambda>c.
     if \<not> truthy (tc_context_id c) then ret None
     else store_call (so_load_context (e_so env) (the (tc_context_id c))))"

definition ctx_update_context :: "('s, 'q) env \<Rightarrow> json \<Rightarrow> ('s, 'q, unit) act" where
  "ctx_update_context env v = bindE (gets w_ctx) (\<lambda>c.
     if \<not> truthy (tc_context_id c) then ret ()
     else store_call (so_update_context (e_so env) (the (tc_context_id c)) v))"

definition ctx_is_cancelled :: "('s, 'q, bool) act" where
  "ctx_is_cancelled = gets (\<lambda>w. CancelRegistry_is_cancelled (tc_task_id (w_ctx w)) (w_cancel w))"

definition ctx_accepts :: "string \<Rightarrow> task_ctx \<Rightarrow> bool" where
  "ctx_accepts mime c \<longleftrightarrow> opt_list (tc_accepted_output_modes c) = [] \<or> mime \<in> set (opt_list (tc_accepted_output_modes c))"

section \<open>The calls of a worker\<close>

datatype ctx_cmd =
    Complete "string option" string
  | CompleteJson json string
  | Fail string
  | Reject "string option"
  | RequestInput string
  | RequestAuth "string option" "string list option" "string option" "string option"
  | Respond "string option"
  | ReplyDirectly string
  | SendStatus "string option"
  | EmitArtifact artifact_args
  | EmitText string string bool bool
  | EmitData json string string bool bool
  | LoadContext
  | UpdateContext json
  | IsCancelled

datatype ctx_value = VNone | VJson "json option" | VBool bool

fun ctx_call :: "('s, 'q) env \<Rightarrow> emitter \<Rightarrow> ctx_cmd \<Rightarrow> ('s, 'q, ctx_value) act" where
  "ctx_call env em (Complete t a) = thenE (ctx_complete env em t a) (ret VNone)"
| "ctx_call env em (CompleteJson d a) = thenE (ctx_complete_json env em d a) (ret VNone)"
| "ctx_call env em (Fail r) = thenE (ctx_fail env em r) (ret VNone)"
| "ctx_call env em (Reject r) = thenE (ctx_reject env em r) (ret VNone)"
| "ctx_call env em (RequestInput q) = thenE (ctx_request_input env em q) (ret VNone)"
| "ctx_call env em (RequestAuth d s h u) = thenE (ctx_request_auth env em d s h u) (ret VNone)"
| "ctx_call env em (Respond t) = thenE (ctx_respond env em t) (ret VNone)"
| "ctx_call env em (ReplyDirectly t) = thenE (ctx_reply_directly env em t) (ret VNone)"
| "ctx_call env em (SendStatus t) = thenE (ctx_send_status env em t) (ret VNone)"
| "ctx_call env em (EmitArtifact a) = thenE (ctx_emit_artifact env em a) (ret VNone)"
| "ctx_call env em (EmitText t a p l) = thenE (ctx_emit_text_artifact env em t a p l) (ret VNone)"
| "ctx_call env em (EmitData d a m p l) = thenE (ctx_emit_data_artifact env em d a m p l) (ret VNone)"
| "ctx_call env em LoadContext = bindE (ctx_load_context env) (\<lambda>j. ret (VJson j))"
| "ctx_call env em (UpdateContext j) = thenE (ctx_update_context env j) (ret VNone)"
| "ctx_call env em IsCancelled = bindE ctx_is_cancelled (\<lambda>b. ret (VBool b))"

section \<open>Interference: the guarantee\<close>

lemma is_Concurrency_case:
  "(case e of ConcurrencyError m cur \<Rightarrow> f m cur | _ \<Rightarrow> g)
     = (if is_ConcurrencyError e then case e of ConcurrencyError m cur \<Rightarrow> f m cur | _ \<Rightarrow> g else g)"
  by (cases e) simp_all

lemma keeps_case_exn [keeps_intros]:
  "(\<And>m cur. keeps R (f m cur)) \<Longrightarrow> keeps R g \<Longrightarrow> keeps R (case e of ConcurrencyError m cur \<Rightarrow> f m cur | _ \<Rightarrow> g)"
  by (cases e) simp_all

lemma achieves_case_exn [achieves_intros]:
  "(\<And>m cur. achieves I V tid P (f m cur) Q) \<Longrightarrow> achieves I V tid P g Q \<Longrightarrow>
   achieves I V tid P (case e of ConcurrencyError m cur \<Rightarrow> f m cur | _ \<Rightarrow> g) Q"
  by (cases e) simp_all

lemma keeps_guar_set_version [keeps_intros]: "keeps (guar I V tid) (set_version v)"
  unfolding set_version_def by (intro keeps_intros)

lemma keeps_guar_rebuffer [keeps_intros]: "keeps (guar I V tid) (rebuffer xs)"
  unfolding rebuffer_def by (intro keeps_intros)

lemma keeps_guar_take_pending [keeps_intros]: "keeps (guar I V tid) take_pending"
  unfolding take_pending_def by (intro keeps_intros)

lemma keeps_guar_touch_flush [keeps_intros]: "keeps (guar I V tid) (touch_flush env)"
  unfolding touch_flush_def by (intro keeps_intros)

lemma keeps_guar_make_agent_message [keeps_intros]: "keeps (guar I V tid) (make_agent_message env c ps md)"
  unfolding make_agent_message_def by (intro keeps_intros)

lemma keeps_guar_send_all [keeps_intros]:
  "\<forall>e \<in> set es. \<not> is_stream_terminal e \<Longrightarrow> keeps (guar I V tid) (send_all env em tid' es)"
  by (induction es) (simp_all add: keeps_intros)

lemma keeps_guar_emit_status_live [keeps_intros]:
  "keeps (guar I V tid) (emit_status env em c st msg txt (Some False))"
  unfolding emit_status_def Let_def by (intro keeps_intros) simp_all

lemma valid_update_expected [simp]: "valid_update (u\<lparr>u_expected_version := v\<rparr>) = valid_update u"
  by (simp add: valid_update_def)

lemma transition_update_simps [simp]:
  "u_state (transition_update st msg arts md) = Some st"
  "u_artifacts (transition_update st msg arts md) = (if arts = [] then None else Some arts)"
  "u_status_message (transition_update st msg arts md) = msg"
  "u_task_metadata (transition_update st msg arts md) = md"
  by (simp_all add: transition_update_def)

text \<open>Metadata a transition may carry: nothing, or the direct-reply marker.\<close>

lemma valid_transition [simp]:
  "md = None \<or> md = Some [(DIRECT_REPLY_KEY, j)] \<Longrightarrow> valid_update (transition_update st msg arts md)"
  by (auto simp: valid_update_def DIRECT_REPLY_KEY_def reserved_keys_def)

context storage_writes begin

lemma keeps_fresh_version [keeps_intros]:
  "e_so env = so \<Longrightarrow> keeps (guar inv view tid) (fresh_version env tid' cur)"
  unfolding fresh_version_def by (intro keeps_intros)

lemma keeps_refresh_version [keeps_intros]:
  "e_so env = so \<Longrightarrow> keeps (guar inv view tid) (refresh_version env tid' cur)"
  unfolding refresh_version_def by (intro keeps_intros)

lemma keeps_versioned_update [keeps_intros]:
  "e_so env = so \<Longrightarrow> valid_update u \<Longrightarrow> keeps (guar inv view tid) (versioned_update env em tid' u)"
  unfolding versioned_update_def versioned_retry_def by (intro keeps_intros) (simp_all add: valid_length_def)

text \<open>A versioned transition that returns has been written.\<close>

lemma achieves_versioned_update:
  assumes "e_so env = so" and "emitter_ok em" and "valid_update u" and "u_state u = Some st"
  shows "achieves inv view tid (\<lambda>_. True) (versioned_update env em tid' u) (\<lambda>_ w. (tid', st) \<in> written (w_trace w))"
  unfolding versioned_update_def versioned_retry_def
  by (rule achieves_intros achieves_emitter_update achieves_pres | intro keeps_intros
      | simp add: valid_length_def assms)+

lemma keeps_flush [keeps_intros]: "e_so env = so \<Longrightarrow> keeps (guar inv view tid) (flush_artifacts env em)"
  unfolding flush_artifacts_def by (intro keeps_intros) (simp_all)

lemma keeps_maybe_flush [keeps_intros]: "e_so env = so \<Longrightarrow> keeps (guar inv view tid) (maybe_flush env em)"
  unfolding maybe_flush_def by (intro keeps_intros)

lemma achieves_emit_status:
  assumes "\<And>w. P w \<Longrightarrow> (tc_task_id c, st) \<in> written (w_trace w)" and "stable inv view tid P"
  shows "achieves inv view tid P (emit_status env em c st msg txt None) (\<lambda>_ _. True)"
  unfolding emit_status_def Let_def option.case
  by (rule achieves_bindE [where R = "\<lambda>_. P"] achieves_if achieves_send_marker achieves_pres achieves_weaken
        [OF achieves_pres [where P = P]] | intro keeps_intros | simp add: assms)+

lemma keeps_terminal_transition [keeps_intros]:
  assumes "e_so env = so" and "emitter_ok em" and "md = None \<or> (\<exists>j. md = Some [(DIRECT_REPLY_KEY, j)])"
    and "\<forall>e \<in> set (opt_list pre). \<not> is_stream_terminal e"
  shows "keeps (guar inv view tid) (terminal_transition env em st msg arts md pre)"
proof -
  have valid: "valid_update (transition_update st msg xs md)" for xs using assms(3) by auto
  show ?thesis
    unfolding terminal_transition_def
    by (rule achieves_keeps,
        (rule achieves_intros achieves_versioned_update achieves_emit_status achieves_pres
         | intro keeps_intros | simp add: assms valid)+)
qed

lemma keeps_send_status [keeps_intros]: "e_so env = so \<Longrightarrow> keeps (guar inv view tid) (ctx_send_status env em m)"
  unfolding ctx_send_status_def by (intro keeps_intros) (simp_all add: valid_update_def)

lemma keeps_emit_artifact [keeps_intros]: "e_so env = so \<Longrightarrow> keeps (guar inv view tid) (ctx_emit_artifact env em args)"
  unfolding ctx_emit_artifact_def Let_def artifact_update_def by (intro keeps_intros) simp_all

lemma keeps_load_context [keeps_intros]:
  assumes "e_so env = so"
  shows "keeps (guar inv view tid) (ctx_load_context env)"
proof -
  have "keeps (guar inv view tid) (store_call (so_load_context (e_so env) c))" for c
    using context_load assms by (intro keeps_guar_store_call) (metis snd_conv task_le_refl)
  then show ?thesis unfolding ctx_load_context_def by (intro keeps_intros)
qed

lemma keeps_update_context [keeps_intros]:
  assumes "e_so env = so"
  shows "keeps (guar inv view tid) (ctx_update_context env j)"
proof -
  have "keeps (guar inv view tid) (store_call (so_update_context (e_so env) c j))" for c
    using context_update assms by (intro keeps_guar_store_call) (metis snd_conv task_le_refl)
  then show ?thesis unfolding ctx_update_context_def by (intro keeps_intros)
qed

text \<open>Whatever a worker calls, and whatever others do meanwhile: the storage contract is respected
  and every terminal marker follows its write.\<close>

lemmas ctx_lifecycle_defs = ctx_complete_def ctx_complete_json_def ctx_fail_def ctx_reject_def
  ctx_request_input_def ctx_request_auth_def ctx_respond_def ctx_reply_directly_def

lemma keeps_ctx_call [keeps_intros]:
  assumes "e_so env = so" and "emitter_ok em"
  shows "keeps (guar inv view tid) (ctx_call env em cmd)"
  by (cases cmd;
      simp only: ctx_call.simps ctx_lifecycle_defs ctx_emit_text_artifact_def ctx_emit_data_artifact_def
        ctx_is_cancelled_def Let_def;
      intro keeps_intros;
      simp add: assms artifact_update_def)

end

section \<open>Artifacts are neither lost, repeated nor reordered\<close>

text \<open>The artifact chunks that successful writes stored, followed by those still buffered.\<close>

fun stored_artifacts :: "effect \<Rightarrow> artifact_write list" where
  "stored_artifacts (EWrite tid u v) = opt_list (u_artifacts u)"
| "stored_artifacts _ = []"

definition persisted :: "('s, 'q) world \<Rightarrow> artifact_write list" where
  "persisted w = concat (map stored_artifacts (w_trace w))"

abbreviation pending :: "('s, 'q) world \<Rightarrow> artifact_write list" where
  "pending w \<equiv> tc_pending_artifacts (w_ctx w)"

definition chunks :: "('s, 'q) world \<Rightarrow> artifact_write list" where
  "chunks w = persisted w @ pending w"

lemma persisted_writes: "persisted w = concat (map stored_artifacts (writes w))"
proof -
  have "concat (map stored_artifacts xs) = concat (map stored_artifacts (filter is_write xs))" for xs
  proof (induction xs)
    case (Cons x xs)
    then show ?case by (cases x) simp_all
  qed simp
  then show ?thesis by (simp add: persisted_def writes_def)
qed

lemma rely_update [simp]:
  "rely I V tid (w\<lparr>w_ctx := c\<rparr>) = rely I V tid w" "rely I V tid (w\<lparr>w_tick := n\<rparr>) = rely I V tid w"
  by (simp_all add: rely_def)

lemma persisted_update [simp]:
  "persisted (w\<lparr>w_ctx := c\<rparr>) = persisted w" "persisted (w\<lparr>w_tick := n\<rparr>) = persisted w"
  by (simp_all add: persisted_def)

lemma writes_update [simp]:
  "writes (w\<lparr>w_ctx := c\<rparr>) = writes w" "writes (w\<lparr>w_tick := n\<rparr>) = writes w"
  by (simp_all add: writes_def)

text \<open>The chunks a call adds: those of emitted artifacts and of the final artifact of a completion.\<close>

definition emitted :: "artifact_args \<Rightarrow> artifact_write list" where
  "emitted args = (case build_parts (aa_content args) of Inl _ \<Rightarrow> []
     | Inr parts \<Rightarrow> [\<lparr>aw_artifact = built_artifact args parts, aw_append = aa_append args\<rparr>])"

definition contribution :: "ctx_cmd \<Rightarrow> task_ctx \<Rightarrow> artifact_write list" where
  "contribution cmd c = (if tc_turn_ended c then [] else case cmd of
      Complete (Some s) aid \<Rightarrow> [\<lparr>aw_artifact = simple_artifact aid [text_part s] None, aw_append = False\<rparr>]
    | CompleteJson d aid \<Rightarrow> [\<lparr>aw_artifact = simple_artifact aid
          [empty_part\<lparr>p_data := Some d, p_media_type := Some json_media\<rparr>]
          (Some [(''media_type'', JStr json_media)]), aw_append = False\<rparr>]
    | EmitArtifact args \<Rightarrow> emitted args
    | EmitText t aid app lc \<Rightarrow> [\<lparr>aw_artifact = simple_artifact aid [text_part t] None, aw_append = app\<rparr>]
    | EmitData d aid media app lc \<Rightarrow> [\<lparr>aw_artifact = simple_artifact aid
          [empty_part\<lparr>p_data := Some d, p_media_type := Some json_media\<rparr>]
          (Some [(''media_type'', JStr media)]), aw_append = app\<rparr>]
    | _ \<Rightarrow> [])"

lemma wp_on_ctx [wp_simps]: "wp (on_ctx f) Q E = (\<lambda>w. Q () (w\<lparr>w_ctx := f (w_ctx w)\<rparr>))"
  by (simp add: on_ctx_def wp_modify)

lemma wp_tick [wp_simps]: "wp (tick f) Q E = (\<lambda>w. Q (f (w_tick w)) (w\<lparr>w_tick := Suc (w_tick w)\<rparr>))"
  by (simp add: tick_def fun_eq_iff wp_def)

lemma wp_case_exn [wp_simps]:
  "wp (case e of ConcurrencyError m cur \<Rightarrow> f m cur | _ \<Rightarrow> g) Q E
     = (case e of ConcurrencyError m cur \<Rightarrow> wp (f m cur) Q E | _ \<Rightarrow> wp g Q E)"
  by (cases e) simp_all

text \<open>A call that only reads.\<close>

lemma wp_read:
  assumes "keeps (idle I V) m" and "keeps (guar I V tid) m" and "rely I V tid w"
    and "\<And>x w'. rely I V tid w' \<Longrightarrow> w_ctx w' = w_ctx w \<Longrightarrow> persisted w' = persisted w \<Longrightarrow> Q x w'"
    and "\<And>e w'. rely I V tid w' \<Longrightarrow> w_ctx w' = w_ctx w \<Longrightarrow> persisted w' = persisted w \<Longrightarrow> E e w'"
  shows "wp m Q E w"
proof -
  have step: "rely I V tid w' \<and> w_ctx w' = w_ctx w \<and> persisted w' = persisted w" if "m w = (r, w')" for r w'
    using keepsE [OF assms(1) that] keepsE [OF assms(2) that] assms(3)
    by (simp add: idle_def guar_def frame_def persisted_writes)
  show ?thesis by (rule wpI) (use step assms(4,5) in blast)+
qed

context storage_writes begin

lemma keeps_idle_fresh_version [keeps_intros]:
  "e_so env = so \<Longrightarrow> keeps (idle inv view) (fresh_version env tid' cur)"
  unfolding fresh_version_def by (intro keeps_intros)

lemma wp_versioned_update:
  assumes "e_so env = so" and "emitter_ok em" and "valid_update u" and "rely inv view tid w"
    and succ: "\<And>w' x. rely inv view tid w' \<Longrightarrow> w_ctx w' = (w_ctx w)\<lparr>tc_version := x\<rparr> \<Longrightarrow>
      persisted w' = persisted w @ opt_list (u_artifacts u) \<Longrightarrow> Q () w'"
    and fail: "\<And>e w'. rely inv view tid w' \<Longrightarrow> w_ctx w' = w_ctx w \<Longrightarrow> persisted w' = persisted w \<Longrightarrow> E e w'"
  shows "wp (versioned_update env em tid' u) Q E w"
proof -
  let ?att = "\<lambda>v. emitter_update_task env em tid' (u\<lparr>u_expected_version := v\<rparr>)"
  have attempt: "wp (?att v) (\<lambda>x. wp (set_version (Some x)) Q E) E' w'"
    if "rely inv view tid w'" "w_ctx w' = w_ctx w" "persisted w' = persisted w"
      "\<And>e w''. rely inv view tid w'' \<Longrightarrow> w_ctx w'' = w_ctx w \<Longrightarrow> persisted w'' = persisted w \<Longrightarrow> E' e w''"
    for v E' w'
    by (rule wp_emitter_update [OF assms(1,2) _ that(1)])
      (use assms(3) that in \<open>auto simp: frame_def persisted_writes set_version_def wp_simps intro!: succ\<close>)
  have retry: "wp (versioned_retry env em tid' u cur) Q E w'"
    if "rely inv view tid w'" "w_ctx w' = w_ctx w" "persisted w' = persisted w" for cur w'
    unfolding versioned_retry_def wp_simps
  proof (rule wp_read [OF keeps_idle_load [OF assms(1)] keeps_load [OF assms(1)] that(1)], goal_cases)
    case (3 task w2)
    with that have "wp (fresh_version env tid' cur) (\<lambda>v. wp (?att v) (\<lambda>x. wp (set_version (Some x)) Q E) E) E w2"
      by (intro wp_read [OF keeps_idle_fresh_version [OF assms(1)] keeps_fresh_version [OF assms(1)] 3(1)]
          attempt fail) simp_all
    with 3 that fail [of w2] show ?case by (simp split: option.split)
  qed (use that fail in \<open>simp_all add: valid_length_def\<close>)
  show ?thesis
    unfolding versioned_update_def wp_simps
    by (rule attempt) (use assms(4) retry fail in \<open>auto split: exn.split\<close>)
qed

end

lemma wp_send_event:
  assumes "faults_ok env" and "rely I V tid w"
    and "\<And>w'. rely I V tid w' \<Longrightarrow> w_ctx w' = w_ctx w \<Longrightarrow> persisted w' = persisted w \<Longrightarrow> Q () w'"
  shows "wp (emitter_send_event env em tid' ev) Q E w"
proof -
  obtain w' where w': "emitter_send_event env em tid' ev w = (Inr (), w')"
    using send_event_returns [OF assms(1)] by blast
  from send_event_store [OF w'] assms(2) have "rely I V tid w'" by (simp add: rely_def)
  moreover have "idle I V w w'" using keepsE [OF keeps_idle_send_event w'] .
  ultimately show ?thesis using assms(3) by (simp add: w' wp_def idle_def frame_def persisted_writes)
qed

lemma wp_send_all:
  assumes "faults_ok env" and "rely I V tid w"
    and "\<And>w'. rely I V tid w' \<Longrightarrow> w_ctx w' = w_ctx w \<Longrightarrow> persisted w' = persisted w \<Longrightarrow> Q () w'"
  shows "wp (send_all env em tid' es) Q E w"
  using assms(2,3)
proof (induction es arbitrary: w)
  case (Cons e es)
  show ?case unfolding send_all.simps wp_simps
    by (rule wp_send_event [OF assms(1) Cons.prems(1)], rule Cons.IH) (simp_all add: Cons.prems)
qed (simp add: wp_simps)

lemma wp_emit_status:
  assumes "faults_ok env" and "rely I V tid w"
    and "\<And>w'. rely I V tid w' \<Longrightarrow> w_ctx w' = w_ctx w \<Longrightarrow> persisted w' = persisted w \<Longrightarrow> Q () w'"
  shows "wp (emit_status env em c st msg txt final) Q E w"
  unfolding emit_status_def wp_simps Let_def
  by (simp add: wp_simps split: option.split) (intro conjI impI allI wp_send_event [OF assms(1), where I = I and V = V and tid = tid];
      simp add: assms)

context storage_writes begin

text \<open>A flush moves the buffer into the storage or leaves it; it never drops a chunk.\<close>

lemma refresh_chunks:
  assumes "e_so env = so" and "rely inv view tid w"
    and "\<And>w' x. rely inv view tid w' \<Longrightarrow> w_ctx w' = (w_ctx w)\<lparr>tc_version := x\<rparr> \<Longrightarrow> persisted w' = persisted w \<Longrightarrow> Q () w'"
    and "\<And>e w'. rely inv view tid w' \<Longrightarrow> w_ctx w' = w_ctx w \<Longrightarrow> persisted w' = persisted w \<Longrightarrow> E e w'"
  shows "wp (refresh_version env tid' cur) Q E w"
  unfolding refresh_version_def
proof (cases cur)
  case (Some v)
  then show "wp (case cur of None \<Rightarrow> bindE (storage_get_version env tid') set_version | Some v \<Rightarrow> set_version (Some v)) Q E w"
    using assms by (simp add: set_version_def wp_simps)
next
  case None
  have "wp (storage_get_version env tid') (\<lambda>x. wp (set_version x) Q E) E w"
    by (rule wp_read [OF keeps_idle_get_version [OF assms(1)] keeps_get_version [OF assms(1)] assms(2)])
      (use assms(3,4) in \<open>simp_all add: set_version_def wp_simps\<close>)
  with None show "wp (case cur of None \<Rightarrow> bindE (storage_get_version env tid') set_version | Some v \<Rightarrow> set_version (Some v)) Q E w"
    by (simp add: wp_simps)
qed

lemma flush_chunks:
  assumes "e_so env = so" and "emitter_ok em" and "rely inv view tid w"
  shows "wp (flush_artifacts env em)
    (\<lambda>_ w'. rely inv view tid w' \<and> chunks w' = chunks w) (\<lambda>_ w'. rely inv view tid w' \<and> chunks w' = chunks w) w"
  unfolding flush_artifacts_def take_pending_def wp_simps
proof (simp add: assms(3), intro conjI impI wp_versioned_update [OF assms(1,2), where tid = tid], goal_cases)
  case (3 w' x)
  then show ?case by (simp add: touch_flush_def wp_simps chunks_def)
next
  case (4 e w')
  then show ?case
    by (cases e) (auto simp: rebuffer_def wp_simps chunks_def intro!: refresh_chunks [OF assms(1)])
qed (simp_all add: assms)

lemma maybe_flush_chunks:
  assumes "e_so env = so" and "emitter_ok em" and "rely inv view tid w"
  shows "wp (maybe_flush env em)
    (\<lambda>_ w'. rely inv view tid w' \<and> chunks w' = chunks w) (\<lambda>_ w'. rely inv view tid w' \<and> chunks w' = chunks w) w"
  using flush_chunks [OF assms(1,2), of tid "w\<lparr>w_tick := Suc (w_tick w)\<rparr>"] assms(3)
  by (simp add: maybe_flush_def wp_simps chunks_def)

lemma transition_chunks:
  assumes "e_so env = so" and "emitter_ok em" and "faults_ok env" and "rely inv view tid w"
    and "md = None \<or> (\<exists>j. md = Some [(DIRECT_REPLY_KEY, j)])"
  shows "wp (terminal_transition env em st msg arts md pre)
    (\<lambda>_ w'. rely inv view tid w' \<and> chunks w' = chunks w @ opt_list arts \<and> pending w' = []
       \<and> tc_turn_ended (w_ctx w'))
    (\<lambda>_ w'. rely inv view tid w' \<and> chunks w' = chunks w) w"
proof (cases "tc_turn_ended (w_ctx w)")
  case True
  then show ?thesis using assms(4) by (simp add: terminal_transition_def wp_simps)
next
  case False
  have valid: "valid_update (transition_update st msg xs md)" for xs using assms(5) by auto
  show ?thesis
    unfolding terminal_transition_def take_pending_def wp_simps
  proof (simp add: False, rule wp_versioned_update [OF assms(1,2) valid, where tid = tid], goal_cases)
    case (2 w' x)
    then show ?case
      by (intro wp_send_all [OF assms(3), where I = inv and V = view and tid = tid]
          wp_emit_status [OF assms(3), where I = inv and V = view and tid = tid])
        (auto simp: chunks_def)
  next
    case (3 e w')
    then show ?case by (simp add: rebuffer_def wp_simps chunks_def)
  qed (simp add: assms)
qed

lemma send_status_chunks:
  assumes "e_so env = so" and "emitter_ok em" and "faults_ok env" and "rely inv view tid w"
  shows "wp (ctx_send_status env em m)
    (\<lambda>_ w'. rely inv view tid w' \<and> chunks w' = chunks w) (\<lambda>_ w'. rely inv view tid w' \<and> chunks w' = chunks w) w"
proof (cases "tc_turn_ended (w_ctx w) \<or> m = None")
  case True
  then show ?thesis
    using assms(4) by (auto simp: ctx_send_status_def wp_simps chunks_def
        intro!: wp_emit_status [OF assms(3), where I = inv and V = view and tid = tid])
next
  case False
  then obtain s0 where m: "m = Some s0" "\<not> tc_turn_ended (w_ctx w)" by blast
  show ?thesis
    unfolding ctx_send_status_def make_agent_message_def take_pending_def wp_simps m(1) option.case
  proof (simp add: m(2), rule wp_versioned_update [OF assms(1,2), where tid = tid], goal_cases)
    case (3 w' x)
    then show ?case
      by (auto simp: touch_flush_def wp_simps chunks_def or_None_def
          intro!: wp_emit_status [OF assms(3), where I = inv and V = view and tid = tid])
  next
    case (4 e w')
    then show ?case
      by (cases e) (auto simp: rebuffer_def wp_simps chunks_def intro!: refresh_chunks [OF assms(1)])
  qed (use assms in \<open>simp_all add: valid_update_def\<close>)
qed

lemma emit_artifact_chunks:
  assumes "e_so env = so" and "emitter_ok em" and "faults_ok env" and "rely inv view tid w"
    and "\<not> tc_turn_ended (w_ctx w)" and "build_parts (aa_content args) = Inr parts"
  defines "aw \<equiv> \<lparr>aw_artifact = built_artifact args parts, aw_append = aa_append args\<rparr>"
  shows "wp (ctx_emit_artifact env em args)
    (\<lambda>_ w'. rely inv view tid w' \<and> chunks w' = chunks w @ [aw])
    (\<lambda>_ w'. rely inv view tid w' \<and> chunks w' = chunks w @ [aw]) w"
  unfolding ctx_emit_artifact_def wp_simps
proof (simp add: assms(5,6) wp_simps Let_def, rule wp_send_event [OF assms(3,4)], goal_cases)
  case (1 w')
  let ?w = "w'\<lparr>w_ctx := (w_ctx w)\<lparr>tc_pending_artifacts := pending w @ [aw]\<rparr>\<rparr>"
  have "chunks ?w = chunks w @ [aw]" using 1 by (simp add: chunks_def)
  with 1 maybe_flush_chunks [OF assms(1,2), of tid ?w] show ?case by (simp add: aw_def)
qed

lemma context_chunks:
  assumes "e_so env = so" and "rely inv view tid w"
  shows "wp (ctx_load_context env) (\<lambda>_ w'. rely inv view tid w' \<and> chunks w' = chunks w) E w"
    and "wp (ctx_update_context env j) (\<lambda>_ w'. rely inv view tid w' \<and> chunks w' = chunks w) E w"
proof -
  have i: "inv (case w_interf w of [] \<Rightarrow> w_store w | f # _ \<Rightarrow> f (w_store w))"
    and r: "\<forall>f \<in> set (tl (w_interf w)). honours inv view tid f"
    using assms(2) by (cases "w_interf w"; auto simp: rely_def honours_def)+
  show "wp (ctx_load_context env) (\<lambda>_ w'. rely inv view tid w' \<and> chunks w' = chunks w) E w"
    using context_load [OF i, of "the (tc_context_id (w_ctx w))"] i r assms
    by (auto simp: ctx_load_context_def wp_simps wp_def store_call_def Let_def chunks_def persisted_def rely_def)
  show "wp (ctx_update_context env j) (\<lambda>_ w'. rely inv view tid w' \<and> chunks w' = chunks w) E w"
    using context_update [OF i, of "the (tc_context_id (w_ctx w))" j] r assms
    by (auto simp: ctx_update_context_def wp_simps wp_def store_call_def Let_def chunks_def persisted_def rely_def)
qed

lemma emit_any_chunks:
  fixes args :: artifact_args
  assumes "e_so env = so" and "emitter_ok em" and "faults_ok env" and "rely inv view tid w"
  defines "new \<equiv> (if tc_turn_ended (w_ctx w) then [] else emitted args)"
  shows "wp (ctx_emit_artifact env em args)
    (\<lambda>_ w'. rely inv view tid w' \<and> chunks w' = chunks w @ new)
    (\<lambda>_ w'. rely inv view tid w' \<and> chunks w' = chunks w @ new) w"
proof (cases "tc_turn_ended (w_ctx w)")
  case True
  then show ?thesis using assms(4) by (simp add: ctx_emit_artifact_def wp_simps new_def)
next
  case False
  show ?thesis
  proof (cases "build_parts (aa_content args)")
    case (Inl e)
    with False assms(4) show ?thesis by (simp add: ctx_emit_artifact_def wp_simps new_def emitted_def)
  next
    case (Inr parts)
    with emit_artifact_chunks [OF assms(1-4) False Inr] False show ?thesis by (simp add: new_def emitted_def)
  qed
qed

lemma transition_call:
  assumes "e_so env = so" and "emitter_ok em" and "faults_ok env" and "rely inv view tid w"
    and "chunks w = ch" and "tc_turn_ended (w_ctx w) \<or> new = opt_list arts"
    and "md = None \<or> (\<exists>j. md = Some [(DIRECT_REPLY_KEY, j)])"
  shows "wp (terminal_transition env em st msg arts md pre)
    (\<lambda>_ w'. rely inv view tid w' \<and> chunks w' = ch @ new)
    (\<lambda>_ w'. rely inv view tid w' \<and> (chunks w' = ch \<or> chunks w' = ch @ new)) w"
proof (cases "tc_turn_ended (w_ctx w)")
  case True
  with assms(4,5) show ?thesis by (simp add: terminal_transition_def wp_simps)
next
  case False
  show ?thesis
    by (rule wp_mono [OF transition_chunks [OF assms(1-4,7)]]) (use assms(5,6) False in auto)
qed

lemma ctx_call_chunks:
  assumes "e_so env = so" and "emitter_ok em" and "faults_ok env" and "rely inv view tid w"
  shows "wp (ctx_call env em cmd)
    (\<lambda>_ w'. rely inv view tid w' \<and> chunks w' = chunks w @ contribution cmd (w_ctx w))
    (\<lambda>_ w'. rely inv view tid w' \<and>
      (chunks w' = chunks w \<or> chunks w' = chunks w @ contribution cmd (w_ctx w))) w"
proof -
  note tr = wp_mono [OF transition_call [OF assms(1-3), where tid = tid and ch = "chunks w"
      and new = "contribution cmd (w_ctx w)"]]
  note emit = wp_mono [OF emit_any_chunks [OF assms]]
  note simps = ctx_lifecycle_defs make_agent_message_def wp_simps Let_def
  show ?thesis
  proof (cases cmd)
    case (Complete t a)
    show ?thesis
    proof (cases t)
      case None
      with Complete show ?thesis
        by (simp add: simps) (rule tr; simp add: assms(4) contribution_def)
    next
      case (Some s0)
      with Complete show ?thesis
        by (simp add: simps) (rule tr; simp add: assms(4) contribution_def)
    qed
  next
    case (EmitText t a p l)
    then show ?thesis
      by (simp add: simps ctx_emit_text_artifact_def)
        (rule emit; auto simp: contribution_def emitted_def no_content_def build_parts_def opt_part_def built_artifact_def
          simple_artifact_def text_part_def empty_part_def split: if_splits)
  next
    case (EmitData d a m p l)
    then show ?thesis
      by (simp add: simps ctx_emit_data_artifact_def)
        (rule emit; auto simp: contribution_def emitted_def no_content_def build_parts_def opt_part_def built_artifact_def
          simple_artifact_def text_part_def empty_part_def json_media_def split: if_splits)
  next
    case (EmitArtifact args)
    then show ?thesis by (simp add: simps) (rule emit; simp add: contribution_def)
  next
    case (SendStatus m)
    then show ?thesis
      by (simp add: simps) (rule wp_mono [OF send_status_chunks [OF assms]]; simp add: contribution_def)
  next
    case LoadContext
    then show ?thesis using context_chunks(1) [OF assms(1,4)] by (simp add: simps contribution_def)
  next
    case (UpdateContext j)
    then show ?thesis using context_chunks(2) [OF assms(1,4)] by (simp add: simps contribution_def)
  next
    case IsCancelled
    then show ?thesis using assms(4) by (simp add: simps ctx_is_cancelled_def contribution_def)
  qed (simp add: simps, rule tr; simp add: assms(4) chunks_def contribution_def)+
qed

end

section \<open>A turn without interference\<close>

text \<open>
  \<open>turn_inv\<close>: while the turn runs, the task is working and the context knows its version; once it has
  ended, the task is in a state that closes the stream. \<open>others w w'\<close>: registry, broker, push store and
  background tasks are untouched.
\<close>

definition turn_inv ::
  "('s \<Rightarrow> bool) \<Rightarrow> ('s \<Rightarrow> string \<Rightarrow> (task \<times> int) option) \<Rightarrow> string \<Rightarrow> ('s, 'q) world \<Rightarrow> bool" where
  "turn_inv I V tid w \<longleftrightarrow> I (w_store w) \<and> quiet w \<and> tc_task_id (w_ctx w) = tid \<and>
     (\<exists>t v. V (w_store w) tid = Some (t, v) \<and>
       (if tc_turn_ended (w_ctx w) then t_state t \<in> STREAM_FINAL_STATES
        else t_state t = task_state_working \<and> tc_version (w_ctx w) = Some v))"

definition others :: "('s, 'q) world \<Rightarrow> ('s, 'q) world \<Rightarrow> bool" where
  "others w w' \<longleftrightarrow> w_cancel w' = w_cancel w \<and> w_broker w' = w_broker w
     \<and> w_push w' = w_push w \<and> w_background w' = w_background w"

lemma others_refl [simp]: "others w w"
  by (simp add: others_def)

lemma others_trans: "others w w' \<Longrightarrow> others w' w'' \<Longrightarrow> others w w''"
  by (simp add: others_def)

lemma quiet_ctx [simp]: "quiet (w\<lparr>w_ctx := c\<rparr>) = quiet w"
  by (simp add: quiet_def)

text \<open>\<open>calm w w'\<close>: only bus, clock and trace may have moved.\<close>

definition calm :: "('s, 'q) world \<Rightarrow> ('s, 'q) world \<Rightarrow> bool" where
  "calm w w' \<longleftrightarrow> w_store w' = w_store w \<and> w_interf w' = w_interf w \<and> w_ctx w' = w_ctx w \<and> others w w'"

lemma calm_trans: "calm w w' \<Longrightarrow> calm w' w'' \<Longrightarrow> calm w w''"
  by (auto simp: calm_def others_def)

lemma calm_others: "calm w w' \<Longrightarrow> others w w'"
  by (simp add: calm_def)

lemma calm_tick [simp]: "calm w (w\<lparr>w_tick := n\<rparr>)"
  by (simp add: calm_def others_def)

lemma wp_send_event_calm:
  assumes "faults_ok env" and "\<And>w'. calm w w' \<Longrightarrow> Q () w'"
  shows "wp (emitter_send_event env em tid' ev) Q E w"
proof -
  obtain w' where w': "emitter_send_event env em tid' ev w = (Inr (), w')"
    using send_event_returns [OF assms(1)] by blast
  have "idle (\<lambda>_. False) (\<lambda>_ _. None) w w'" using keepsE [OF keeps_idle_send_event w'] .
  with send_event_store [OF w'] have "calm w w'" by (simp add: calm_def others_def idle_def frame_def)
  with assms(2) show ?thesis by (simp add: w' wp_def)
qed

lemma wp_send_all_calm:
  assumes "faults_ok env" and "\<And>w'. calm w w' \<Longrightarrow> Q () w'"
  shows "wp (send_all env em tid' es) Q E w"
  using assms(2)
proof (induction es arbitrary: w)
  case Nil
  then show ?case by (simp add: wp_simps calm_def)
next
  case (Cons e es)
  show ?case unfolding send_all.simps wp_simps
    by (rule wp_send_event_calm [OF assms(1)], rule Cons.IH) (blast intro: Cons.prems calm_trans)
qed

lemma wp_emit_status_calm:
  assumes "faults_ok env" and "\<And>w'. calm w w' \<Longrightarrow> Q () w'"
  shows "wp (emit_status env em c st msg txt final) Q E w"
proof -
  have "wp (emitter_send_event env em tid' ev) Q E (w\<lparr>w_tick := n\<rparr>)" for tid' ev n
    by (rule wp_send_event_calm [OF assms(1)]) (blast intro: assms(2) calm_trans calm_tick)
  then show ?thesis
    unfolding emit_status_def wp_simps Let_def by (simp add: wp_simps split: option.split)
qed

lemma turn_inv_calm: "turn_inv I V tid w \<Longrightarrow> calm w w' \<Longrightarrow> turn_inv I V tid w'"
  unfolding turn_inv_def calm_def quiet_def by metis

context storage_writes begin

lemma wp_versioned_quiet:
  assumes "e_so env = so" and "emitter_ok em" and "inv (w_store w)" and "quiet w" and "valid_update u"
    and "view (w_store w) tid = Some (t, v)" and "tc_version (w_ctx w) = Some v"
    and "u_state u = None \<or> t_state t \<notin> TERMINAL_STATES"
    and succ: "\<And>w' t'. inv (w_store w') \<Longrightarrow> quiet w' \<Longrightarrow> view (w_store w') = (view (w_store w))(tid \<mapsto> (t', v + 1)) \<Longrightarrow>
      t_state t' = (case u_state u of None \<Rightarrow> t_state t | Some st \<Rightarrow> st) \<Longrightarrow>
      w_ctx w' = (w_ctx w)\<lparr>tc_version := Some (v + 1)\<rparr> \<Longrightarrow> others w w' \<Longrightarrow> Q () w'"
  shows "wp (versioned_update env em tid u) Q E w"
proof -
  obtain w' t' now where w': "emitter_update_task env em tid (u\<lparr>u_expected_version := Some v\<rparr>) w = (Inr (v + 1), w')"
    "apply_update now (u\<lparr>u_expected_version := Some v\<rparr>) t = Inr t'" "frame w w'" "inv (w_store w')" "quiet w'"
    "view (w_store w') = (view (w_store w))(tid \<mapsto> (t', v + 1))"
    using emitter_write_quiet [OF assms(1-4), of "u\<lparr>u_expected_version := Some v\<rparr>" tid t v] assms(5-8) by auto
  have "t_state t' = (case u_state u of None \<Rightarrow> t_state t | Some st \<Rightarrow> st)"
    using apply_update_fields(5) [OF w'(2)] by simp
  then have "Q () (w'\<lparr>w_ctx := (w_ctx w')\<lparr>tc_version := Some (v + 1)\<rparr>\<rparr>)"
    using w' by (intro succ [of _ t']) (auto simp: frame_def others_def)
  then show ?thesis
    unfolding versioned_update_def wp_simps assms(7)
    by (simp add: wp_def w'(1) set_version_def on_ctx_def modify_def)
qed

lemma flush_turn:
  assumes "e_so env = so" and "emitter_ok em" and "turn_inv inv view tid w" and "\<not> tc_turn_ended (w_ctx w)"
  shows "wp (flush_artifacts env em) (\<lambda>_ w'. turn_inv inv view tid w' \<and> others w w') E w"
proof -
  from assms(3,4) obtain t v where tv: "inv (w_store w)" "quiet w" "tc_task_id (w_ctx w) = tid"
    "view (w_store w) tid = Some (t, v)" "t_state t = task_state_working" "tc_version (w_ctx w) = Some v"
    by (auto simp: turn_inv_def)
  show ?thesis
    unfolding flush_artifacts_def take_pending_def wp_simps
  proof (simp add: assms(3), intro impI, rule wp_versioned_quiet [OF assms(1,2), where t = t and v = v], goal_cases)
    case (7 w' t')
    then show ?case using assms(4) tv
      by (simp add: touch_flush_def wp_simps turn_inv_def others_def)
  qed (use tv in auto)
qed

lemma transition_turn:
  assumes "e_so env = so" and "emitter_ok em" and "faults_ok env" and "turn_inv inv view tid w"
    and "st \<in> STREAM_FINAL_STATES" and "md = None \<or> (\<exists>j. md = Some [(DIRECT_REPLY_KEY, j)])"
  shows "wp (terminal_transition env em st msg arts md pre)
    (\<lambda>_ w'. turn_inv inv view tid w' \<and> others w w') (\<lambda>e w'. turn_inv inv view tid w' \<and> others w w' \<and> is_Exception e) w"
proof (cases "tc_turn_ended (w_ctx w)")
  case True
  with assms(4) show ?thesis by (simp add: terminal_transition_def wp_simps turn_ended_error_def)
next
  case False
  with assms(4) obtain t v where tv: "inv (w_store w)" "quiet w" "tc_task_id (w_ctx w) = tid"
    "view (w_store w) tid = Some (t, v)" "t_state t = task_state_working" "tc_version (w_ctx w) = Some v"
    by (auto simp: turn_inv_def)
  have valid: "valid_update (transition_update st msg xs md)" for xs using assms(6) by auto
  show ?thesis
    unfolding terminal_transition_def take_pending_def wp_simps
  proof (simp add: False tv(3), rule wp_versioned_quiet [OF assms(1,2), where t = t and v = v], goal_cases)
    case (7 w' t')
    then show ?case using assms(5) tv
      by (intro wp_send_all_calm [OF assms(3)] wp_emit_status_calm [OF assms(3)])
        (auto simp: turn_inv_def others_def calm_def quiet_def)
  qed (use tv valid in auto)
qed

lemma maybe_flush_turn:
  assumes "e_so env = so" and "emitter_ok em" and "turn_inv inv view tid w" and "\<not> tc_turn_ended (w_ctx w)"
  shows "wp (maybe_flush env em) (\<lambda>_ w'. turn_inv inv view tid w' \<and> others w w') E w"
  using flush_turn [OF assms(1,2), of tid "w\<lparr>w_tick := Suc (w_tick w)\<rparr>"] assms(3,4)
  by (simp add: maybe_flush_def wp_simps turn_inv_def others_def)

lemma send_status_turn:
  assumes "e_so env = so" and "emitter_ok em" and "faults_ok env" and "turn_inv inv view tid w"
  shows "wp (ctx_send_status env em m) (\<lambda>_ w'. turn_inv inv view tid w' \<and> others w w') E w"
proof (cases "tc_turn_ended (w_ctx w) \<or> m = None")
  case True
  then show ?thesis
    using assms(4)
    by (auto simp: ctx_send_status_def wp_simps intro!: wp_emit_status_calm [OF assms(3)]
        intro: turn_inv_calm calm_others)
next
  case False
  then obtain s0 where m: "m = Some s0" "\<not> tc_turn_ended (w_ctx w)" by blast
  with assms(4) obtain t v where tv: "inv (w_store w)" "quiet w" "tc_task_id (w_ctx w) = tid"
    "view (w_store w) tid = Some (t, v)" "t_state t = task_state_working" "tc_version (w_ctx w) = Some v"
    by (auto simp: turn_inv_def)
  show ?thesis
    unfolding ctx_send_status_def make_agent_message_def take_pending_def wp_simps m(1) option.case
  proof (simp add: m(2) tv(3), rule wp_versioned_quiet [OF assms(1,2), where t = t and v = v], goal_cases)
    case (7 w' t')
    then show ?case using m(2) tv
      by (auto simp: touch_flush_def wp_simps turn_inv_def others_def calm_def quiet_def
          intro!: wp_emit_status_calm [OF assms(3)])
  qed (use tv in \<open>auto simp: valid_update_def\<close>)
qed

lemma emit_artifact_turn:
  assumes "e_so env = so" and "emitter_ok em" and "faults_ok env" and "turn_inv inv view tid w"
  shows "wp (ctx_emit_artifact env em args) (\<lambda>_ w'. turn_inv inv view tid w' \<and> others w w')
    (\<lambda>e w'. turn_inv inv view tid w' \<and> others w w' \<and> is_Exception e) w"
proof (cases "tc_turn_ended (w_ctx w)")
  case True
  with assms(4) show ?thesis by (simp add: ctx_emit_artifact_def wp_simps)
next
  case False
  show ?thesis
  proof (cases "build_parts (aa_content args)")
    case (Inl e)
    then have "is_Exception e" by (auto simp: build_parts_def Let_def split: if_splits)
    with Inl False assms(4) show ?thesis by (simp add: ctx_emit_artifact_def wp_simps)
  next
    case (Inr parts)
    show ?thesis
      unfolding ctx_emit_artifact_def wp_simps
    proof (simp add: False Inr wp_simps Let_def, rule wp_send_event_calm [OF assms(3)], goal_cases)
      case (1 w')
      let ?w = "w'\<lparr>w_ctx := (w_ctx w')\<lparr>tc_pending_artifacts := pending w'
        @ [\<lparr>aw_artifact = built_artifact args parts, aw_append = aa_append args\<rparr>]\<rparr>\<rparr>"
      have "turn_inv inv view tid ?w" "\<not> tc_turn_ended (w_ctx ?w)" "others w ?w"
        using turn_inv_calm [OF assms(4) 1] 1 False by (auto simp: turn_inv_def calm_def others_def)
      then show ?case
        by (intro wp_mono [OF maybe_flush_turn [OF assms(1,2)]]) (auto intro: others_trans)
    qed
  qed
qed

lemma context_turn:
  assumes "e_so env = so" and "turn_inv inv view tid w"
  shows "wp (ctx_load_context env) (\<lambda>_ w'. turn_inv inv view tid w' \<and> others w w') E w"
    and "wp (ctx_update_context env j) (\<lambda>_ w'. turn_inv inv view tid w' \<and> others w w') E w"
proof -
  let ?c = "the (tc_context_id (w_ctx w))"
  have w: "inv (w_store w)" "quiet w" using assms(2) by (simp_all add: turn_inv_def)
  have step: "turn_inv inv view tid (w\<lparr>w_store := s', w_interf := tl (w_interf w)\<rparr>)"
    if "inv s'" "view s' = view (w_store w)" for s'
  proof -
    from assms(2) obtain t v where "view (w_store w) tid = Some (t, v)"
      "if tc_turn_ended (w_ctx w) then t_state t \<in> STREAM_FINAL_STATES
       else t_state t = task_state_working \<and> tc_version (w_ctx w) = Some v" "tc_task_id (w_ctx w) = tid"
      by (auto simp: turn_inv_def)
    with that quiet_step [OF w(2)] show ?thesis
      unfolding turn_inv_def by (intro conjI exI [of _ t] exI [of _ v]) auto
  qed
  obtain r where "so_load_context so ?c (w_store w) = (Inr r, w_store w)" using context_load [OF w(1)] by blast
  from store_call_quiet [where m = "so_load_context so ?c", OF w(2) this] step [of "w_store w"] w assms
  show "wp (ctx_load_context env) (\<lambda>_ w'. turn_inv inv view tid w' \<and> others w w') E w"
    by (simp add: ctx_load_context_def wp_simps) (simp add: wp_def others_def)
  obtain s' where s': "so_update_context so ?c j (w_store w) = (Inr (), s')" "inv s'" "view s' = view (w_store w)"
    using context_update [OF w(1)] by blast
  from store_call_quiet [where m = "so_update_context so ?c j", OF w(2) s'(1)] step [OF s'(2,3)] assms
  show "wp (ctx_update_context env j) (\<lambda>_ w'. turn_inv inv view tid w' \<and> others w w') E w"
    by (simp add: ctx_update_context_def wp_simps) (simp add: wp_def others_def)
qed

lemma ctx_call_turn:
  assumes "e_so env = so" and "emitter_ok em" and "faults_ok env" and "turn_inv inv view tid w"
  shows "wp (ctx_call env em cmd) (\<lambda>_ w'. turn_inv inv view tid w' \<and> others w w')
    (\<lambda>e w'. turn_inv inv view tid w' \<and> others w w' \<and> is_Exception e) w"
proof -
  have tick: "turn_inv inv view tid (w\<lparr>w_tick := n\<rparr>)" "others (w\<lparr>w_tick := n\<rparr>) = others w" for n
    using turn_inv_calm [OF assms(4) calm_tick] by (simp_all add: others_def fun_eq_iff)
  note tr = wp_mono [OF transition_turn [OF assms(1-3), where tid = tid]]
  note emit = wp_mono [OF emit_artifact_turn [OF assms]]
  note simps = ctx_lifecycle_defs make_agent_message_def wp_simps Let_def
  note close = assms(4) tick STREAM_FINAL_STATES_def
  show ?thesis
  proof (cases cmd)
    case (Complete t a)
    show ?thesis
    proof (cases t)
      case None
      with Complete show ?thesis by (simp add: simps) (rule tr; auto simp: close intro: others_trans)
    next
      case (Some s0)
      with Complete show ?thesis by (simp add: simps) (rule tr; auto simp: close intro: others_trans)
    qed
  next
    case (EmitText t a p l)
    then show ?thesis by (simp add: simps ctx_emit_text_artifact_def) (rule emit; simp)
  next
    case (EmitData d a m p l)
    then show ?thesis by (simp add: simps ctx_emit_data_artifact_def) (rule emit; simp)
  next
    case (EmitArtifact args)
    then show ?thesis by (simp add: simps) (rule emit; simp)
  next
    case (SendStatus m)
    then show ?thesis using send_status_turn [OF assms] by (simp add: simps)
  next
    case LoadContext
    then show ?thesis using context_turn(1) [OF assms(1,4)] by (simp add: simps)
  next
    case (UpdateContext j)
    then show ?thesis using context_turn(2) [OF assms(1,4)] by (simp add: simps)
  next
    case IsCancelled
    then show ?thesis using assms(4) by (simp add: simps ctx_is_cancelled_def)
  qed (simp add: simps, rule tr; auto simp: close intro: others_trans)+
qed

end

end
