(* ===== verification/Context_Factory.thy ===== *)
theory Context_Factory
  imports Task_Context
begin

text \<open>
  \<^verbatim>\<open>worker/context_factory.py\<close>: the context object of a turn, built from the message and, for a follow-up,
  from the stored task. \<open>Context_init\<close> is the constructor of \<^verbatim>\<open>TaskContextImpl\<close> with its defaults.
\<close>

definition convert_message :: "message \<Rightarrow> exn + history_message" where
  "convert_message m =
     (case (case m_role m of
          RNone \<Rightarrow> Inr ''''
        | REnum role_user \<Rightarrow> Inr ''role_user''
        | REnum role_agent \<Rightarrow> Inr ''role_agent''
        | RStr s \<Rightarrow> if s = '''' then Inr '''' else Inl (AttributeError ''name'')) of
        Inl e \<Rightarrow> Inl e
      | Inr raw_role \<Rightarrow> Inr \<lparr>hm_role = (if raw_role = ''role_user'' then ''user'' else ''agent''),
          hm_text = join_lines (map (\<lambda>p. the (p_text p)) (filter (\<lambda>p. truthy (p_text p)) (m_parts m))),
          hm_parts = m_parts m, hm_message_id = m_message_id m\<rparr>)"

fun convert_history :: "message list \<Rightarrow> string \<Rightarrow> exn + history_message list" where
  "convert_history [] cur = Inr []"
| "convert_history (m # ms) cur =
     (if m_message_id m = cur \<and> cur \<noteq> '''' then convert_history ms cur
      else case convert_message m of Inl e \<Rightarrow> Inl e
        | Inr h \<Rightarrow> (case convert_history ms cur of Inl e \<Rightarrow> Inl e | Inr hs \<Rightarrow> Inr (h # hs)))"

definition convert_artifacts :: "artifact list \<Rightarrow> previous_artifact list" where
  "convert_artifacts as = map (\<lambda>a. \<lparr>pr_artifact_id = a_artifact_id a,
     pr_name = (if a_name a = '''' then None else Some (a_name a)), pr_parts = a_parts a\<rparr>) as"

definition Context_init ::
  "rat \<Rightarrow> message \<Rightarrow> history_message list \<Rightarrow> previous_artifact list \<Rightarrow> mdict option \<Rightarrow> string list option \<Rightarrow> task_ctx" where
  "Context_init now m hist prev rc accepted =
     \<lparr>tc_task_id = or_else (m_task_id m) '''', tc_context_id = m_context_id m, tc_message_id = m_message_id m,
      tc_user_text = extract_text (m_parts m), tc_parts = m_parts m, tc_metadata = opt_list (m_metadata m),
      tc_history = hist, tc_previous_artifacts = prev, tc_turn_ended = False, tc_version = None,
      tc_request_context = opt_list rc, tc_accepted_output_modes = accepted,
      tc_reference_task_ids = m_reference_task_ids m, tc_message_extensions = m_extensions m,
      tc_pending_artifacts = [], tc_last_flush = now, tc_flush_interval = 1 / 2, tc_flush_count = 10\<rparr>"

text \<open>The stored task is read for follow-ups only.\<close>

definition load_previous ::
  "('s, 'q) env \<Rightarrow> message \<Rightarrow> bool \<Rightarrow> ('s, 'q, history_message list \<times> previous_artifact list) act" where
  "load_previous env m is_new =
     (if \<not> is_new \<and> truthy (m_task_id m)
      then bindE (storage_load_task env (the (m_task_id m)) None) (\<lambda>task. case task of
          None \<Rightarrow> ret ([], [])
        | Some t \<Rightarrow> (case convert_history (history_list t) (m_message_id m) of
              Inl e \<Rightarrow> raise e
            | Inr hist \<Rightarrow> ret (hist, convert_artifacts (t_artifacts t))))
      else ret ([], []))"

definition ContextFactory_build ::
  "('s, 'q) env \<Rightarrow> message \<Rightarrow> bool \<Rightarrow> mdict option \<Rightarrow> send_config option \<Rightarrow> ('s, 'q, unit) act" where
  "ContextFactory_build env m is_new rc cfg =
     bindE (load_previous env m is_new) (\<lambda>(hist, prev).
     bindE (tick (e_mono env)) (\<lambda>now.
       let accepted = (case cfg of None \<Rightarrow> None
             | Some c \<Rightarrow> if sc_accepted_output_modes c = [] then None else Some (sc_accepted_output_modes c))
       in on_ctx (\<lambda>_. Context_init now m hist prev rc accepted)))"

section \<open>What the worker sees\<close>

lemma convert_history_ok:
  assumes "\<forall>m \<in> set ms. \<exists>h. convert_message m = Inr h"
  shows "\<exists>hs. convert_history ms cur = Inr hs \<and>
    map hm_message_id hs = map m_message_id (filter (\<lambda>m. \<not> (m_message_id m = cur \<and> cur \<noteq> '''')) ms)"
  using assms
proof (induction ms)
  case (Cons m ms)
  then obtain hs h where IH: "convert_history ms cur = Inr hs"
    "map hm_message_id hs = map m_message_id (filter (\<lambda>m. \<not> (m_message_id m = cur \<and> cur \<noteq> '''')) ms)"
    "convert_message m = Inr h" by auto
  moreover have "hm_message_id h = m_message_id m"
    using IH(3) by (auto simp: convert_message_def split: sum.splits)
  ultimately show ?case by simp
qed simp

definition roles_ok :: "task \<Rightarrow> bool" where
  "roles_ok t \<longleftrightarrow> list_all (\<lambda>m. case m_role m of RStr s \<Rightarrow> s = '''' | _ \<Rightarrow> True) (history_list t)"

lemma convert_message_ok:
  "(case m_role m of RStr s \<Rightarrow> s = '''' | _ \<Rightarrow> True) \<Longrightarrow> \<exists>h. convert_message m = Inr h"
  by (auto simp: convert_message_def split: role_value.splits role.splits)

lemma convert_history_roles:
  assumes "roles_ok t"
  shows "\<exists>hs. convert_history (history_list t) cur = Inr hs"
proof -
  have "\<forall>m \<in> set (history_list t). \<exists>h. convert_message m = Inr h"
    using assms convert_message_ok unfolding roles_ok_def list_all_iff by blast
  from convert_history_ok [OF this] show ?thesis by blast
qed

lemma convert_history_exn: "convert_history ms cur = Inl e \<Longrightarrow> is_Exception e"
  by (induction ms)
    (auto simp: convert_message_def split: if_splits sum.splits role_value.splits role.splits)

context storage_writes begin

lemma keeps_build [keeps_intros]:
  "e_so env = so \<Longrightarrow> keeps (guar inv view tid) (ContextFactory_build env m is_new rc cfg)"
  unfolding ContextFactory_build_def load_previous_def Let_def
  by (intro keeps_intros) (simp_all add: valid_length_def)

end

end
