(* ===== verification/Worker_Adapter.thy ===== *)
theory Worker_Adapter
  imports Context_Factory
begin

text \<open>
  \<^verbatim>\<open>worker/adapter.py\<close>: one operation from the queue to its acknowledgement. A user worker is any program
  that calls its context, awaits other things, sees results and exceptions, returns or raises (\<open>worker_prog\<close>). Between two of
  its awaits a client may request cancellation, and at each of them a cancellation may be delivered; the list of
  \<open>await_point\<close>s says when, and an \<open>Await\<close> tells the program whether it was interrupted. A program is a well-founded tree, so
  a worker that never ends is covered only by what holds of every finite part of its run. \<open>shutdown\<close> says whether the surrounding scope (the server) is being cancelled.

  The task group around the worker is anyio's: an exception of the body leaves it inside an
  \<^verbatim>\<open>ExceptionGroup\<close>; a cancellation is absorbed when it comes from the group's own scope, which only the
  watcher of the cancel event cancels, and propagates when it comes from outside.
\<close>

section \<open>The worker\<close>

datatype worker_prog =
    Return
  | RaiseE exn
  | Call ctx_cmd "exn + ctx_value \<Rightarrow> worker_prog"
  | Await "bool \<Rightarrow> worker_prog"

record await_point =
  ap_requested :: bool
  ap_interrupted :: bool

definition arrives :: "await_point list \<Rightarrow> bool" where
  "arrives aps \<longleftrightarrow> aps \<noteq> [] \<and> ap_requested (hd aps)"

definition interrupted :: "await_point list \<Rightarrow> bool" where
  "interrupted aps \<longleftrightarrow> aps \<noteq> [] \<and> ap_interrupted (hd aps)"

primrec run_worker ::
  "('s, 'q) env \<Rightarrow> emitter \<Rightarrow> string \<Rightarrow> worker_prog \<Rightarrow> await_point list \<Rightarrow> ('s, 'q, unit) act" where
  "run_worker env em tid Return = (\<lambda>aps. ret ())"
| "run_worker env em tid (RaiseE e) = (\<lambda>aps. raise e)"
| "run_worker env em tid (Call c k) = (\<lambda>aps.
     thenE (unless (\<not> arrives aps) (on_cancel_registry (CancelRegistry_request_cancel tid)))
       (tryE (if interrupted aps then raise CancelledError else ctx_call env em c)
          (\<lambda>e. run_worker env em tid (k (Inl e)) (tl aps))
          (\<lambda>x. run_worker env em tid (k (Inr x)) (tl aps))))"
| "run_worker env em tid (Await k) = (\<lambda>aps.
     thenE (unless (\<not> arrives aps) (on_cancel_registry (CancelRegistry_request_cancel tid)))
       (run_worker env em tid (k (interrupted aps)) (tl aps)))"

record ('s, 'q) adapter =
  ad_env :: "('s, 'q) env"
  ad_emitter :: emitter
  ad_worker :: "task_ctx \<Rightarrow> worker_prog"
  ad_max_retries :: int
  ad_schedule :: "await_point list"
  ad_shutdown :: bool

section \<open>Failure\<close>

text \<open>\<^verbatim>\<open>str(exc)\<close>.\<close>

fun exn_str :: "exn \<Rightarrow> string" where
  "exn_str (TaskNotFoundError m) = m"
| "exn_str (TaskTerminalStateError m) = m"
| "exn_str (TaskNotAcceptingMessagesError _) = ''Task is not accepting messages''"
| "exn_str (TaskNotCancelableError m) = m"
| "exn_str (UnsupportedOperationError m) = m"
| "exn_str (ContextMismatchError a b c) = ''contextId '' @ py_repr a @ '' does not match task ''
     @ py_repr b @ '' contextId '' @ py_repr c"
| "exn_str (ContentTypeNotSupportedError m) = ''Incompatible content type: '' @ m"
| "exn_str (InvalidAgentResponseError m) = m"
| "exn_str (ConcurrencyError m _) = m"
| "exn_str (AuthenticationRequiredError s _) = s @ '' authentication required''"
| "exn_str (PushConfigNotFoundError m) = m"
| "exn_str (HTTPException n detail) = int_str n @ '': '' @ json_str detail"
| "exn_str (ValueError m) = m"
| "exn_str (TypeError m) = m"
| "exn_str StopAsyncIteration = ''''"
| "exn_str (RuntimeError m) = m"
| "exn_str (AttributeError m) = m"
| "exn_str AssertionError = ''''"
| "exn_str (DataError m) = m"
| "exn_str (BackendError m) = m"
| "exn_str (WorkerError m) = m"
| "exn_str (ExceptionGroup e) = ''unhandled errors in a TaskGroup (1 sub-exception)''"
| "exn_str CancelledError = ''''"

definition failed_retry ::
  "('s, 'q) env \<Rightarrow> emitter \<Rightarrow> string \<Rightarrow> message \<Rightarrow> artifact_write list option \<Rightarrow> ('s, 'q, bool) act" where
  "failed_retry env em tid msg arts =
     bindE (storage_get_version env tid) (\<lambda>version.
     bindE (storage_load_task env tid None) (\<lambda>task.
       if (case task of None \<Rightarrow> True | Some t \<Rightarrow> t_state t \<in> TERMINAL_STATES)
       then thenE (artifact_fallback env em tid arts) (ret False)
       else tryE (emitter_update_task env em tid (final_update task_state_failed msg arts version))
         (\<lambda>e. if is_lost_race e then thenE (artifact_fallback env em tid arts) (ret False) else raise e)
         (\<lambda>_. ret True)))"

text \<open>The transition; \<open>False\<close> stands for the early returns.\<close>

definition failed_write ::
  "('s, 'q) env \<Rightarrow> emitter \<Rightarrow> string \<Rightarrow> message \<Rightarrow> artifact_write list option \<Rightarrow> int option \<Rightarrow> ('s, 'q, bool) act" where
  "failed_write env em tid msg arts version =
     tryE (emitter_update_task env em tid (final_update task_state_failed msg arts version))
       (\<lambda>e. if is_TaskTerminalStateError e then thenE (artifact_fallback env em tid arts) (ret False)
            else if is_ConcurrencyError e then failed_retry env em tid msg arts
            else raise e)
       (\<lambda>_. ret True)"

definition mark_failed ::
  "('s, 'q) env \<Rightarrow> emitter \<Rightarrow> string \<Rightarrow> string option \<Rightarrow> string \<Rightarrow> artifact_write list option \<Rightarrow> ('s, 'q, unit) act" where
  "mark_failed env em tid context_id reason arts =
     bindE (tick (e_uuid env)) (\<lambda>mid.
     let msg = agent_message [text_part reason] mid tid (Some (or_else context_id '''')) None in
     bindE (storage_get_version env tid) (\<lambda>version.
     bindE (failed_write env em tid msg arts version) (\<lambda>written.
       if \<not> written then ret () else
       bindE (tick (e_now env)) (\<lambda>now.
         emitter_send_event env em tid (marker tid (or_else context_id '''')
           \<lparr>ts_state = task_state_failed, ts_timestamp = Some now, ts_message = Some msg\<rparr>)))))"

section \<open>Running a task\<close>

abbreviation cancel_set :: "string \<Rightarrow> ('s, 'q) world \<Rightarrow> bool" where
  "cancel_set tid w \<equiv> CancelRegistry_is_cancelled tid (w_cancel w)"

definition no_lifecycle_text :: string where
  "no_lifecycle_text = ''Worker returned without calling a lifecycle method (complete/fail/reject/respond/request_input/request_auth)''"

text \<open>The body of the task group.\<close>

definition group_body :: "('s, 'q) adapter \<Rightarrow> string \<Rightarrow> ('s, 'q, unit) act" where
  "group_body ad tid =
     bindE (gets w_ctx) (\<lambda>c.
     thenE (run_worker (ad_env ad) (ad_emitter ad) tid (ad_worker ad c) (ad_schedule ad))
       (bindE (gets (\<lambda>w. (tc_turn_ended (w_ctx w), cancel_set tid w))) (\<lambda>(ended, cancelled).
          if ended \<or> cancelled then ret ()
          else ctx_fail (ad_env ad) (ad_emitter ad) no_lifecycle_text)))"

definition task_group :: "bool \<Rightarrow> string \<Rightarrow> ('s, 'q, unit) act \<Rightarrow> ('s, 'q, unit) act" where
  "task_group shutdown tid body = catchE body (\<lambda>e.
     if is_Exception e then raise (ExceptionGroup e)
     else bindE (gets (cancel_set tid)) (\<lambda>set. if set \<and> \<not> shutdown then ret () else raise e))"

definition cancel_reason :: string where
  "cancel_reason = ''Task was canceled.''"

definition cancel_current :: "('s, 'q) adapter \<Rightarrow> string \<Rightarrow> string option \<Rightarrow> ('s, 'q, unit) act" where
  "cancel_current ad tid ctxid = bindE take_pending (\<lambda>pending.
     cancel_task_in_storage (ad_env ad) (ad_emitter ad) tid ctxid cancel_reason (Some pending))"

text \<open>The three handlers around the group: cancellation, a task that became terminal, everything else.\<close>

definition turn_handler :: "('s, 'q) adapter \<Rightarrow> string \<Rightarrow> string option \<Rightarrow> exn \<Rightarrow> ('s, 'q, unit) act" where
  "turn_handler ad tid ctxid e =
     (if \<not> is_Exception e then
        bindE (gets (cancel_set tid)) (\<lambda>set. if set then cancel_current ad tid ctxid else raise e)
      else if is_TaskTerminalStateError e then
        bindE take_pending (\<lambda>pending. artifact_fallback (ad_env ad) (ad_emitter ad) tid (Some pending))
      else bindE (gets (\<lambda>w. tc_turn_ended (w_ctx w))) (\<lambda>ended.
        if ended then ret ()
        else bindE take_pending (\<lambda>pending.
          mark_failed (ad_env ad) (ad_emitter ad) tid ctxid (exn_str e) (Some pending))))"

definition run_turn :: "('s, 'q) adapter \<Rightarrow> string \<Rightarrow> string option \<Rightarrow> ('s, 'q, unit) act" where
  "run_turn ad tid ctxid =
     tryE (thenE (task_group (ad_shutdown ad) tid (group_body ad tid))
             (bindE (gets (\<lambda>w. cancel_set tid w \<and> \<not> tc_turn_ended (w_ctx w))) (\<lambda>b.
                unless (\<not> b) (cancel_current ad tid ctxid))))
       (turn_handler ad tid ctxid)
       (\<lambda>_. unless (\<not> e_otel (ad_env ad)) (thenE (storage_load_task (ad_env ad) tid None) (ret ())))"

text \<open>The \<^verbatim>\<open>finally\<close> block: the bus is cleaned up for terminal or deleted tasks, the registry always.\<close>

definition turn_cleanup :: "('s, 'q) env \<Rightarrow> string \<Rightarrow> ('s, 'q, unit) act" where
  "turn_cleanup env tid =
     bindE (catchE (storage_load_task env tid None) (\<lambda>e. if is_Exception e then ret None else raise e)) (\<lambda>current.
       let is_terminal = (case current of None \<Rightarrow> True | Some t \<Rightarrow> t_state t \<in> TERMINAL_STATES) in
       thenE (unless (\<not> is_terminal) (swallow (bus_cleanup env tid)))
         (swallow (on_cancel_registry (CancelRegistry_cleanup tid is_terminal))))"

text \<open>A task whose cancellation was requested before the turn is not run.\<close>

definition cancel_first :: "('s, 'q) adapter \<Rightarrow> string \<Rightarrow> string option \<Rightarrow> ('s, 'q, unit) act" where
  "cancel_first ad tid ctxid =
     bindE (storage_load_task (ad_env ad) tid None) (\<lambda>current.
       if (case current of None \<Rightarrow> True | Some t \<Rightarrow> t_state t \<notin> TERMINAL_STATES)
       then cancel_task_in_storage (ad_env ad) (ad_emitter ad) tid ctxid cancel_reason None
       else ret ())"

definition start_turn :: "('s, 'q) adapter \<Rightarrow> string \<Rightarrow> run_op \<Rightarrow> ('s, 'q, unit) act" where
  "start_turn ad tid op =
     thenE (ContextFactory_build (ad_env ad) (sr_message (ro_params op)) (ro_is_new_task op)
              (Some (ro_request_context op)) (sr_configuration (ro_params op)))
       (tryE (emitter_update_task (ad_env ad) (ad_emitter ad) tid (no_update\<lparr>u_state := Some task_state_working\<rparr>))
          (\<lambda>e. if is_lost_race e then ret () else raise e)
          (\<lambda>v. thenE (set_version (Some v))
             (thenE (ctx_send_status (ad_env ad) (ad_emitter ad) None)
                (run_turn ad tid (m_context_id (sr_message (ro_params op)))))))"

definition run_task_inner :: "('s, 'q) adapter \<Rightarrow> run_op \<Rightarrow> ('s, 'q, unit) act" where
  "run_task_inner ad op =
     (let m = sr_message (ro_params op) in
      if \<not> truthy (m_task_id m) then raise (ValueError ''message.task_id is missing'')
      else let tid = the (m_task_id m) in
        thenE (on_cancel_registry (CancelRegistry_on_cancel tid))
          (finallyE
             (bindE (gets (cancel_set tid)) (\<lambda>set.
                if set then cancel_first ad tid (m_context_id m) else start_turn ad tid op))
             (turn_cleanup (ad_env ad) tid)))"

definition run_task :: "('s, 'q) adapter \<Rightarrow> run_op \<Rightarrow> ('s, 'q, unit) act" where
  "run_task ad op =
     (if \<not> truthy (m_task_id (sr_message (ro_params op)))
      then raise (ValueError ''message.task_id is missing'') else run_task_inner ad op)"

section \<open>Operations\<close>

text \<open>\<^verbatim>\<open>_dispatch\<close>: the only operation of the queue is \<^verbatim>\<open>run\<close>.\<close>

definition dispatch :: "('s, 'q) adapter \<Rightarrow> run_op \<Rightarrow> ('s, 'q, unit) act" where
  "dispatch ad op = run_task ad op"

text \<open>The failure path that the two exits share: mark the task failed, log an error of that.\<close>

definition give_up :: "('s, 'q) adapter \<Rightarrow> enqueued_op \<Rightarrow> string \<Rightarrow> ('s, 'q, unit) act" where
  "give_up ad h reason =
     (let m = sr_message (ro_params (eo_op h)) in
      finallyE (swallow (unless (\<not> truthy (m_task_id m))
          (mark_failed (ad_env ad) (ad_emitter ad) (the (m_task_id m)) (m_context_id m) reason None)))
        (swallow (on_broker (OperationHandle_ack h))))"

text \<open>The handler of a failed dispatch: retry while attempts are left, otherwise give up.\<close>

definition op_failed :: "('s, 'q) adapter \<Rightarrow> enqueued_op \<Rightarrow> exn \<Rightarrow> ('s, 'q, unit) act" where
  "op_failed ad h e =
     (if \<not> is_Exception e then raise e
      else bindE (if eo_attempt h < ad_max_retries ad
                  then catchE (thenE (on_broker (OperationHandle_nack h)) (ret True))
                         (\<lambda>e'. if is_Exception e' then ret False else raise e')
                  else ret False) (\<lambda>requeued.
        if requeued then ret () else give_up ad h ''Worker failed to process task''))"

definition handle_op_inner :: "('s, 'q) adapter \<Rightarrow> enqueued_op \<Rightarrow> ('s, 'q, unit) act" where
  "handle_op_inner ad h =
     (if eo_attempt h > ad_max_retries ad
      then give_up ad h ''Task repeatedly crashed worker processes''
      else tryE (thenE (dispatch ad (eo_op h)) (on_broker (OperationHandle_ack h))) (op_failed ad h) ret)"

definition handle_op :: "('s, 'q) adapter \<Rightarrow> enqueued_op \<Rightarrow> ('s, 'q, unit) act" where
  "handle_op ad h = swallow (handle_op_inner ad h)"

text \<open>The receive loop. Each entry of the list is what the next step of the broker's iterator does: it yields an
  operation, raises, or ends. The result lists the operations started and the pauses taken, in order.\<close>

datatype receive_step = Received enqueued_op | ReceiveFailed

datatype loop_action = StartOp enqueued_op | Sleep rat

fun broker_loop :: "rat \<Rightarrow> receive_step list \<Rightarrow> loop_action list" where
  "broker_loop backoff [] = []"
| "broker_loop backoff (Received h # xs) = StartOp h # broker_loop 1 xs"
| "broker_loop backoff (ReceiveFailed # xs) = Sleep backoff # broker_loop (min (backoff * 2) 30) xs"

section \<open>Interference\<close>

context storage_writes begin

lemma achieves_failed_retry:
  assumes "e_so env = so" and "emitter_ok em"
  shows "achieves inv view tid (\<lambda>_. True) (failed_retry env em tid' msg arts)
    (\<lambda>b w. b \<longrightarrow> (tid', task_state_failed) \<in> written (w_trace w))"
  unfolding failed_retry_def
  by (rule achieves_intros achieves_emitter_update achieves_pres | intro keeps_intros
      | simp add: valid_length_def assms)+

lemma achieves_failed_write:
  assumes "e_so env = so" and "emitter_ok em"
  shows "achieves inv view tid (\<lambda>_. True) (failed_write env em tid' msg arts v)
    (\<lambda>b w. b \<longrightarrow> (tid', task_state_failed) \<in> written (w_trace w))"
proof -
  have fallback: "achieves inv view tid (\<lambda>_. True) (artifact_fallback env em tid' arts) (\<lambda>_ _. True)"
    by (rule achieves_pres) (simp_all add: keeps_artifact_fallback assms)
  have update: "achieves inv view tid (\<lambda>_. True) (emitter_update_task env em tid' (final_update task_state_failed msg arts v))
    (\<lambda>_ w. (tid', task_state_failed) \<in> written (w_trace w))"
    by (rule achieves_emitter_update) (simp_all add: assms)
  show ?thesis
    unfolding failed_write_def
    by (rule achieves_tryE [OF update] achieves_if achieves_thenE [OF fallback] achieves_failed_retry [OF assms]
        achieves_ret achieves_raise | simp)+
qed

lemma keeps_mark_failed [keeps_intros]:
  assumes "e_so env = so" and "emitter_ok em"
  shows "keeps (guar inv view tid) (mark_failed env em tid' ctx reason arts)"
  unfolding mark_failed_def Let_def marker_def
  by (rule achieves_keeps,
      (rule achieves_intros achieves_failed_write achieves_send_marker achieves_pres
       | intro keeps_intros | simp add: valid_length_def assms)+)

lemma keeps_run_worker [keeps_intros]:
  assumes "e_so env = so" and "emitter_ok em"
  shows "keeps (guar inv view tid) (run_worker env em tid' p aps)"
proof (induction p arbitrary: aps)
  case (Call c k)
  show ?case
    unfolding run_worker.simps
    by (intro keeps_intros Call.IH rangeI) (simp_all add: assms)
next
  case (Await k)
  show ?case unfolding run_worker.simps by (intro keeps_intros Await.IH rangeI)
qed (simp_all add: keeps_intros)

lemma keeps_cancel_current [keeps_intros]:
  "e_so (ad_env ad) = so \<Longrightarrow> emitter_ok (ad_emitter ad) \<Longrightarrow> keeps (guar inv view tid) (cancel_current ad tid' c)"
  unfolding cancel_current_def by (intro keeps_intros)

lemma keeps_ctx_fail [keeps_intros]:
  "e_so env = so \<Longrightarrow> emitter_ok em \<Longrightarrow> keeps (guar inv view tid) (ctx_fail env em r)"
  unfolding ctx_fail_def by (intro keeps_intros) simp_all

lemma keeps_run_turn [keeps_intros]:
  assumes "e_so (ad_env ad) = so" and "emitter_ok (ad_emitter ad)"
  shows "keeps (guar inv view tid) (run_turn ad tid' c)"
  unfolding run_turn_def task_group_def group_body_def turn_handler_def
  by (intro keeps_intros) (simp_all add: assms valid_length_def)

lemma keeps_turn_cleanup [keeps_intros]:
  "e_so env = so \<Longrightarrow> keeps (guar inv view tid) (turn_cleanup env tid')"
  unfolding turn_cleanup_def Let_def by (intro keeps_intros) (simp_all add: valid_length_def)

lemma keeps_run_task [keeps_intros]:
  assumes "e_so (ad_env ad) = so" and "emitter_ok (ad_emitter ad)"
  shows "keeps (guar inv view tid) (run_task ad op)"
  unfolding run_task_def run_task_inner_def start_turn_def cancel_first_def Let_def
  by (intro keeps_intros) (simp_all add: assms valid_length_def valid_update_def)

lemma keeps_handle_op [keeps_intros]:
  assumes "e_so (ad_env ad) = so" and "emitter_ok (ad_emitter ad)"
  shows "keeps (guar inv view tid) (handle_op ad h)"
  unfolding handle_op_def handle_op_inner_def op_failed_def give_up_def dispatch_def Let_def
  by (intro keeps_intros) (simp_all add: assms)

end

end
