(* ===== verification/Turn_Closes.thy ===== *)
theory Turn_Closes
  imports Worker_Adapter
begin

text \<open>
  Without interference a turn always closes: whatever the user worker does (return early, raise, ignore or
  swallow cancellations, call methods after the end of the turn), the task is afterwards in a state that
  closes the client's stream, unless the turn itself was interrupted by a shutdown.
\<close>

section \<open>Final states\<close>

definition settled ::
  "('s \<Rightarrow> bool) \<Rightarrow> ('s \<Rightarrow> string \<Rightarrow> (task \<times> int) option) \<Rightarrow> string \<Rightarrow> ('s, 'q) world \<Rightarrow> bool" where
  "settled I V tid w \<longleftrightarrow> I (w_store w) \<and> quiet w \<and>
     (\<exists>t v. V (w_store w) tid = Some (t, v) \<and> t_state t \<in> STREAM_FINAL_STATES)"

lemma terminal_final: "st \<in> TERMINAL_STATES \<Longrightarrow> st \<in> STREAM_FINAL_STATES"
  by (auto simp: TERMINAL_STATES_def STREAM_FINAL_STATES_def)

lemma not_Exception_iff: "\<not> is_Exception e \<longleftrightarrow> e = CancelledError"
  by (cases e) simp_all

lemma settled_turn: "turn_inv I V tid w \<Longrightarrow> tc_turn_ended (w_ctx w) \<Longrightarrow> settled I V tid w"
  by (auto simp: settled_def turn_inv_def)

lemma settled_ctx [simp]: "settled I V tid (w\<lparr>w_ctx := c\<rparr>) = settled I V tid w"
  by (simp add: settled_def)

lemma settled_idle: "settled I V tid w \<Longrightarrow> idle I V w w' \<Longrightarrow> settled I V tid w'"
  by (auto simp: settled_def idle_def)

lemma is_cancelled_request:
  "CancelRegistry_is_cancelled tid cr \<Longrightarrow> CancelRegistry_is_cancelled tid (CancelRegistry_request_cancel tid' cr)"
  by (simp add: mem_cancel.set_request)

lemma turn_inv_registry [simp]: "turn_inv I V tid (w\<lparr>w_cancel := c\<rparr>) = turn_inv I V tid w"
  by (simp add: turn_inv_def quiet_def)

lemma turn_inv_parts: "turn_inv I V tid w \<Longrightarrow> I (w_store w) \<and> quiet w"
  by (simp add: turn_inv_def)

lemma turn_inv_cong:
  "turn_inv I V tid w \<Longrightarrow> I (w_store w') \<Longrightarrow> quiet w' \<Longrightarrow> V (w_store w') = V (w_store w) \<Longrightarrow>
   w_ctx w' = w_ctx w \<Longrightarrow> turn_inv I V tid w'"
  unfolding turn_inv_def by metis

lemma wp_bus_cleanup:
  assumes "faults_ok env" and "\<And>b n. Q () (w\<lparr>w_tick := n, w_bus := b\<rparr>)"
    and "\<And>e n. is_Exception e \<Longrightarrow> E e (w\<lparr>w_tick := n\<rparr>)"
  shows "wp (bus_cleanup env tid) Q E w"
  using assms by (auto simp: bus_cleanup_def wp_simps faults_ok_def split: option.split)

context storage_writes begin

text \<open>A task of any state is canceled, or was terminal before.\<close>

lemma wp_cancel_terminal:
  assumes "e_so env = so" and "emitter_ok em" and "faults_ok env" and "inv (w_store w)" and "quiet w"
    and "view (w_store w) tid = Some (t, v)"
  shows "wp (cancel_task_in_storage env em tid ctx reason arts) (\<lambda>_ w'. inv (w_store w') \<and> quiet w' \<and> frame w w'
    \<and> (\<exists>t' v'. view (w_store w') tid = Some (t', v') \<and> t_state t' \<in> TERMINAL_STATES)) E w"
proof (cases "t_state t \<in> TERMINAL_STATES")
  case False
  obtain w' t' where "cancel_task_in_storage env em tid ctx reason arts w = (Inr (), w')" "inv (w_store w')" "quiet w'"
    "view (w_store w') = (view (w_store w))(tid \<mapsto> (t', v + 1))" "t_state t' = task_state_canceled" "frame w w'"
    using cancel_quiet [OF assms False, of ctx reason arts] by blast
  then show ?thesis by (simp add: wp_def)
next
  case True
  obtain w1 where w1: "storage_get_version env tid w = (Inr (Some v), w1)" "idle inv view w w1"
    "quiet w1" "inv (w_store w1)" "view (w_store w1) = view (w_store w)"
    using version_quiet [OF assms(1,4,5), of tid] assms(6) by auto
  obtain w2 where w2: "storage_load_task env tid None w1 = (Inr (Some t), w2)" "idle inv view w1 w2"
    "quiet w2" "inv (w_store w2)" "view (w_store w2) = view (w_store w)"
    using load_quiet [OF assms(1) w1(4,3), of tid] assms(6) w1(5) by auto
  have "cancel_task_in_storage env em tid ctx reason arts w = (Inr (), w2)"
    using w1(1) w2(1) True by (simp add: cancel_task_in_storage_def bindE_def tryE_def ret_def)
  with w1 w2 True assms(6) show ?thesis by (auto simp: wp_def idle_def frame_def)
qed

lemma wp_cancel_quiet:
  assumes "e_so env = so" and "emitter_ok em" and "faults_ok env" and "inv (w_store w)" and "quiet w"
    and "view (w_store w) tid = Some (t, v)"
  shows "wp (cancel_task_in_storage env em tid ctx reason arts) (\<lambda>_ w'. settled inv view tid w' \<and> frame w w') E w"
  by (rule wp_mono [OF wp_cancel_terminal [OF assms, where E = E]]) (auto simp: settled_def intro: terminal_final)

lemma wp_mark_failed_quiet:
  assumes "e_so env = so" and "emitter_ok em" and "faults_ok env" and "inv (w_store w)" and "quiet w"
    and "view (w_store w) tid = Some (t, v)" and "t_state t \<notin> TERMINAL_STATES"
  shows "wp (mark_failed env em tid ctx reason arts) (\<lambda>_ w'. settled inv view tid w' \<and> frame w w') E w"
proof -
  let ?w1 = "w\<lparr>w_tick := Suc (w_tick w)\<rparr>"
  let ?msg = "agent_message [text_part reason] (e_uuid env (w_tick w)) tid (Some (or_else ctx '''')) None"
  obtain w2 where w2: "storage_get_version env tid ?w1 = (Inr (Some v), w2)" "idle inv view ?w1 w2"
    "quiet w2" "inv (w_store w2)" "view (w_store w2) = view (w_store w)"
    using version_quiet [OF assms(1), of ?w1 tid] assms by auto
  obtain w3 t' now where w3: "emitter_update_task env em tid (final_update task_state_failed ?msg arts (Some v)) w2
      = (Inr (v + 1), w3)" "apply_update now (final_update task_state_failed ?msg arts (Some v)) t = Inr t'"
    "frame w2 w3" "inv (w_store w3)" "quiet w3" "view (w_store w3) = (view (w_store w))(tid \<mapsto> (t', v + 1))"
    using emitter_write_quiet [OF assms(1,2) w2(4,3), of "final_update task_state_failed ?msg arts (Some v)" tid t v]
      w2(5) assms(6,7) by auto
  have fin: "settled inv view tid w3" "frame w w3"
    using w3 w2(2) final_update_task(1) [OF w3(2)]
    by (auto simp: settled_def STREAM_FINAL_STATES_def idle_def frame_def)
  have "wp (emitter_send_event env em tid ev) (\<lambda>_ w'. settled inv view tid w' \<and> frame w w') E (w3\<lparr>w_tick := n\<rparr>)" for ev n
    by (rule wp_send_event_calm [OF assms(3)]) (use fin in \<open>auto simp: calm_def settled_def quiet_def frame_def others_def\<close>)
  with w2(1) w3(1) show ?thesis
    unfolding mark_failed_def failed_write_def wp_simps Let_def by (simp add: wp_def ret_def tick_def)
qed

section \<open>The worker\<close>

lemma run_worker_turn:
  assumes "e_so env = so" and "emitter_ok em" and "faults_ok env" and "turn_inv inv view tid w"
  shows "wp (run_worker env em tid p aps) (\<lambda>_ w'. turn_inv inv view tid w') (\<lambda>_ w'. turn_inv inv view tid w') w"
  using assms(4)
proof (induction p arbitrary: aps w)
  case (Call c k)
  let ?w = "if arrives aps then w\<lparr>w_cancel := CancelRegistry_request_cancel tid (w_cancel w)\<rparr> else w"
  have "turn_inv inv view tid ?w" using Call.prems by simp
  from ctx_call_turn [OF assms(1-3) this, of c]
  have "wp (ctx_call env em c)
      (\<lambda>x. wp (run_worker env em tid (k (Inr x)) (tl aps)) (\<lambda>_ w'. turn_inv inv view tid w') (\<lambda>_ w'. turn_inv inv view tid w'))
      (\<lambda>e. wp (run_worker env em tid (k (Inl e)) (tl aps)) (\<lambda>_ w'. turn_inv inv view tid w') (\<lambda>_ w'. turn_inv inv view tid w')) ?w"
    by (rule wp_mono) (auto intro: Call.IH)
  then show ?case
    using Call.IH [of _ ?w "tl aps"] \<open>turn_inv inv view tid ?w\<close>
    by (simp add: wp_simps on_cancel_registry_def split: if_splits)
next
  case (Await k)
  let ?w = "if arrives aps then w\<lparr>w_cancel := CancelRegistry_request_cancel tid (w_cancel w)\<rparr> else w"
  have "turn_inv inv view tid ?w" using Await.prems by simp
  then show ?case
    using Await.IH [of "k (interrupted aps)" ?w "tl aps"] by (simp add: wp_simps on_cancel_registry_def split: if_splits)
qed (simp_all add: wp_simps)

lemma ctx_fail_turn:
  assumes "e_so env = so" and "emitter_ok em" and "faults_ok env" and "turn_inv inv view tid w"
  shows "wp (ctx_fail env em r) (\<lambda>_ w'. turn_inv inv view tid w' \<and> tc_turn_ended (w_ctx w'))
    (\<lambda>_ w'. turn_inv inv view tid w') w"
proof -
  let ?w = "w\<lparr>w_tick := Suc (w_tick w)\<rparr>"
  have t: "turn_inv inv view tid ?w" using turn_inv_calm [OF assms(4) calm_tick] .
  have r: "rely inv view tid ?w" using t by (intro rely_quiet) (simp_all add: turn_inv_def)
  have "wp (terminal_transition env em task_state_failed (Some m) None None None)
      (\<lambda>_ w'. turn_inv inv view tid w' \<and> tc_turn_ended (w_ctx w')) (\<lambda>_ w'. turn_inv inv view tid w') ?w" for m
    by (rule wp_mono [OF wp_conj [OF transition_turn [OF assms(1-3) t] transition_chunks [OF assms(1-3) r]]])
      (simp_all add: STREAM_FINAL_STATES_def)
  then show ?thesis by (simp add: ctx_fail_def make_agent_message_def wp_simps)
qed

lemma group_turn:
  assumes "e_so (ad_env ad) = so" and "emitter_ok (ad_emitter ad)" and "faults_ok (ad_env ad)"
    and "turn_inv inv view tid w"
  shows "wp (task_group sd tid (group_body ad tid))
    (\<lambda>_ w'. turn_inv inv view tid w' \<and> (tc_turn_ended (w_ctx w') \<or> cancel_set tid w'))
    (\<lambda>e w'. turn_inv inv view tid w' \<and> \<not> is_TaskTerminalStateError e) w"
proof -
  have body: "wp (group_body ad tid)
    (\<lambda>_ w'. turn_inv inv view tid w' \<and> (tc_turn_ended (w_ctx w') \<or> cancel_set tid w'))
    (\<lambda>_ w'. turn_inv inv view tid w') w"
    unfolding group_body_def wp_simps
  proof (rule wp_mono [OF run_worker_turn [OF assms]], goal_cases)
    case (1 x w')
    with ctx_fail_turn [OF assms(1-3), of tid w' no_lifecycle_text] show ?case
      by (auto intro: wp_mono)
  qed
  show ?thesis
    unfolding task_group_def wp_simps
    by (rule wp_mono [OF body]) (auto simp: not_Exception_iff)
qed

section \<open>The turn\<close>

lemma cancel_current_turn:
  assumes "e_so (ad_env ad) = so" and "emitter_ok (ad_emitter ad)" and "faults_ok (ad_env ad)"
    and "turn_inv inv view tid w"
  shows "wp (cancel_current ad tid c) (\<lambda>_ w'. settled inv view tid w') E w"
proof -
  let ?w = "w\<lparr>w_ctx := (w_ctx w)\<lparr>tc_pending_artifacts := []\<rparr>\<rparr>"
  from assms(4) obtain t v where "view (w_store ?w) tid = Some (t, v)" "inv (w_store ?w)" "quiet ?w"
    by (auto simp: turn_inv_def)
  from wp_cancel_quiet [OF assms(1-3) this(2,3,1)] show ?thesis
    unfolding cancel_current_def take_pending_def wp_simps by (rule wp_mono) simp_all
qed

lemma run_turn_closes:
  assumes "e_so (ad_env ad) = so" and "emitter_ok (ad_emitter ad)" and "faults_ok (ad_env ad)"
    and "turn_inv inv view tid w"
  shows "wp (run_turn ad tid c) (\<lambda>_ w'. settled inv view tid w')
    (\<lambda>e w'. turn_inv inv view tid w' \<and> e = CancelledError \<and> \<not> cancel_set tid w') w"
proof -
  let ?Q = "\<lambda>(_::unit) w'. settled inv view tid w'"
  let ?E = "\<lambda>e w'. turn_inv inv view tid w' \<and> e = CancelledError \<and> \<not> cancel_set tid w'"
  have handler: "wp (turn_handler ad tid c e) ?Q ?E w'"
    if w': "turn_inv inv view tid w'" "\<not> is_TaskTerminalStateError e" for e w'
  proof -
    have fail: "wp (mark_failed (ad_env ad) (ad_emitter ad) tid c r a) ?Q ?E
        (w'\<lparr>w_ctx := (w_ctx w')\<lparr>tc_pending_artifacts := []\<rparr>\<rparr>)" if "\<not> tc_turn_ended (w_ctx w')" for r a
    proof -
      from w'(1) that obtain t v where "view (w_store w') tid = Some (t, v)" "t_state t = task_state_working"
        "inv (w_store w')" "quiet w'" by (auto simp: turn_inv_def)
      with wp_mark_failed_quiet [OF assms(1-3), of "w'\<lparr>w_ctx := (w_ctx w')\<lparr>tc_pending_artifacts := []\<rparr>\<rparr>" tid t v c r a]
      show ?thesis by (auto intro: wp_mono)
    qed
    show ?thesis
      unfolding turn_handler_def take_pending_def
      using cancel_current_turn [OF assms(1-3) w'(1)] fail settled_turn [OF w'(1)] w'
      by (simp add: wp_simps not_Exception_iff)
  qed
  let ?after = "wp (unless (\<not> e_otel (ad_env ad)) (thenE (storage_load_task (ad_env ad) tid None) (ret ()))) ?Q ?E"
  have after: "?after w'"
    if "settled inv view tid w'" for w'
  proof -
    from that load_quiet [OF assms(1), of w' tid] obtain w'' r
      where "storage_load_task (ad_env ad) tid None w' = (Inr r, w'')" "idle inv view w' w''"
      by (auto simp: settled_def)
    with settled_idle [OF that] that show ?thesis
      unfolding wp_simps by (simp add: wp_def)
  qed
  show ?thesis
    unfolding run_turn_def wp_tryE wp_thenE wp_bindE
  proof (rule wp_mono [OF group_turn [OF assms]], goal_cases)
    case (1 x w')
    show ?case
    proof (cases "cancel_set tid w' \<and> \<not> tc_turn_ended (w_ctx w')")
      case True
      have "wp (cancel_current ad tid c) (\<lambda>_. ?after) (\<lambda>e. wp (turn_handler ad tid c e) ?Q ?E) w'"
        by (rule wp_mono [OF cancel_current_turn [OF assms(1-3) conjunct1 [OF 1], where E = "\<lambda>_ _. False"]])
          (auto intro: after)
      with True show ?thesis by (simp only: wp_gets wp_unless not_not simp_thms if_True if_False)
    next
      case False
      with 1 have "settled inv view tid w'" using settled_turn by blast
      from after [OF this] False show ?thesis by (simp only: wp_gets wp_unless not_not simp_thms if_True if_False)
    qed
  next
    case (2 e w')
    then show ?case using handler by blast
  qed
qed

section \<open>Start and end of the operation\<close>

text \<open>\<open>idle\<close> methods that return, without interference.\<close>

lemma wp_load_quiet:
  assumes "e_so env = so" and "inv (w_store w)" and "quiet w"
    and "\<And>w'. inv (w_store w') \<Longrightarrow> quiet w' \<Longrightarrow> view (w_store w') = view (w_store w) \<Longrightarrow> frame w w'
      \<Longrightarrow> Q (map_option fst (view (w_store w) tid)) w'"
  shows "wp (storage_load_task env tid None) Q E w"
  using load_quiet [OF assms(1-3), of tid] assms(4) by (auto simp: wp_def idle_def)

lemma build_quiet:
  assumes "e_so env = so" and "inv (w_store w)" and "quiet w" and "view (w_store w) tid = Some (t, v)"
    and "roles_ok t" and "m_task_id m = Some tid" and "tid \<noteq> ''''"
  shows "wp (ContextFactory_build env m is_new rc cfg) (\<lambda>_ w'. inv (w_store w') \<and> quiet w'
    \<and> view (w_store w') = view (w_store w) \<and> tc_task_id (w_ctx w') = tid \<and> \<not> tc_turn_ended (w_ctx w')
    \<and> w_cancel w' = w_cancel w) E w"
proof -
  obtain hs where "convert_history (history_list t) (m_message_id m) = Inr hs"
    using convert_history_roles [OF assms(5)] by blast
  then have "wp (load_previous env m is_new) (\<lambda>_ w'. inv (w_store w') \<and> quiet w'
    \<and> view (w_store w') = view (w_store w) \<and> w_cancel w' = w_cancel w) E w"
    unfolding load_previous_def
    by (auto simp: wp_simps assms frame_def intro!: wp_load_quiet [OF assms(1-3)])
  then show ?thesis
    unfolding ContextFactory_build_def wp_simps Let_def
    by (rule wp_mono) (use assms(6,7) in \<open>auto simp: wp_simps Context_init_def\<close>)
qed

lemma start_turn_closes:
  assumes "e_so (ad_env ad) = so" and "emitter_ok (ad_emitter ad)" and "faults_ok (ad_env ad)"
    and "inv (w_store w)" and "quiet w" and "view (w_store w) tid = Some (t, v)" and "t_state t \<notin> TERMINAL_STATES"
    and "roles_ok t" and "m_task_id (sr_message (ro_params op)) = Some tid" and "tid \<noteq> ''''"
  shows "wp (start_turn ad tid op) (\<lambda>_ w'. settled inv view tid w')
    (\<lambda>e w'. turn_inv inv view tid w' \<and> e = CancelledError \<and> \<not> cancel_set tid w') w"
  unfolding start_turn_def wp_thenE wp_tryE
proof (rule wp_mono [OF build_quiet [OF assms(1,4,5,6,8,9,10), where E = "\<lambda>_ _. False"]], goal_cases)
  case (1 x w1)
  let ?u = "no_update\<lparr>u_state := Some task_state_working\<rparr>"
  have "valid_update ?u" "u_expected_version ?u \<in> {None, Some v}" by (simp_all add: valid_update_def)
  with emitter_write_quiet [OF assms(1,2), of w1 ?u tid t v] 1 assms(6,7) obtain w2 t' now where
    w2: "emitter_update_task (ad_env ad) (ad_emitter ad) tid ?u w1 = (Inr (v + 1), w2)"
    "apply_update now ?u t = Inr t'" "frame w1 w2" "inv (w_store w2)" "quiet w2"
    "view (w_store w2) = (view (w_store w))(tid \<mapsto> (t', v + 1))" by auto
  have "t_state t' = task_state_working" using apply_update_fields(5) [OF w2(2)] by simp
  then have inv3: "turn_inv inv view tid (w2\<lparr>w_ctx := (w_ctx w2)\<lparr>tc_version := Some (v + 1)\<rparr>\<rparr>)"
    using w2 1 by (auto simp: turn_inv_def frame_def)
  show ?case
    using w2(1)
    by (simp add: wp_def [of "emitter_update_task _ _ _ _"] set_version_def wp_simps)
      (rule wp_mono [OF send_status_turn [OF assms(1-3) inv3, where E = "\<lambda>_ _. False"]],
        auto intro: run_turn_closes [OF assms(1-3)])
qed simp

lemma wp_cleanup:
  assumes "e_so env = so" and "faults_ok env" and "inv (w_store w)" and "quiet w"
  shows "wp (turn_cleanup env tid) (\<lambda>_ w'. inv (w_store w') \<and> quiet w' \<and> view (w_store w') = view (w_store w)
    \<and> w_ctx w' = w_ctx w \<and> (cancel_set tid w' \<longrightarrow> cancel_set tid w)) E w"
  unfolding turn_cleanup_def Let_def wp_bindE wp_catchE
  by (rule wp_load_quiet [OF assms(1,3,4)])
    (auto simp: wp_simps frame_def on_cancel_registry_def mem_cancel.set_cleanup quiet_def
      intro!: wp_bus_cleanup [OF assms(2)])

text \<open>The whole operation on a task that waits for its turn.\<close>

lemma run_task_closes:
  assumes "e_so (ad_env ad) = so" and "emitter_ok (ad_emitter ad)" and "faults_ok (ad_env ad)"
    and "inv (w_store w)" and "quiet w" and "view (w_store w) tid = Some (t, v)" and "t_state t \<notin> TERMINAL_STATES"
    and "roles_ok t" and "m_task_id (sr_message (ro_params op)) = Some tid" and "tid \<noteq> ''''"
  shows "wp (run_task ad op) (\<lambda>_ w'. settled inv view tid w')
    (\<lambda>e w'. turn_inv inv view tid w' \<and> e = CancelledError \<and> \<not> cancel_set tid w') w"
proof -
  let ?E = "\<lambda>e w'. turn_inv inv view tid w' \<and> e = CancelledError \<and> \<not> cancel_set tid w'"
  let ?w = "w\<lparr>w_cancel := CancelRegistry_on_cancel tid (w_cancel w)\<rparr>"
  have w: "inv (w_store ?w)" "quiet ?w" "view (w_store ?w) tid = Some (t, v)"
    using assms(4-6) by (simp_all add: quiet_def)
  have first: "wp (cancel_first ad tid c) (\<lambda>_ w'. settled inv view tid w') ?E ?w" for c
    unfolding cancel_first_def wp_bindE
    by (rule wp_load_quiet [OF assms(1) w(1,2)])
      (use w(3) assms(7) in \<open>auto simp: wp_simps intro!: wp_mono [OF wp_cancel_quiet [OF assms(1-3), where E = "\<lambda>_ _. False"]]\<close>)
  have main: "wp (if cancel_set tid ?w then cancel_first ad tid c else start_turn ad tid op)
      (\<lambda>_ w'. settled inv view tid w') ?E ?w" for c
    using first start_turn_closes [OF assms(1-3) w assms(7-10)] by simp
  have settle: "wp (turn_cleanup (ad_env ad) tid) (\<lambda>_ w''. settled inv view tid w'') ?E w'"
    if "settled inv view tid w'" for w'
    by (rule wp_mono [OF wp_cleanup [OF assms(1,3), of w' tid "\<lambda>_ _. False"]])
      (use that in \<open>auto simp: settled_def\<close>)
  have interrupt: "wp (turn_cleanup (ad_env ad) tid) (\<lambda>_. ?E e) ?E w'" if "?E e w'" for e w'
    by (rule wp_mono [OF wp_cleanup [OF assms(1,3), of w' tid "\<lambda>_ _. False"]])
      (use that in \<open>auto simp: turn_inv_parts intro: turn_inv_cong\<close>)
  have "wp (if cancel_set tid ?w then cancel_first ad tid c else start_turn ad tid op)
      (\<lambda>_. wp (turn_cleanup (ad_env ad) tid) (\<lambda>_ w'. settled inv view tid w') ?E)
      (\<lambda>e. wp (turn_cleanup (ad_env ad) tid) (\<lambda>_. ?E e) ?E) ?w" for c
    by (rule wp_mono [OF main]) (erule settle interrupt)+
  with assms(9,10) show ?thesis
    unfolding run_task_def run_task_inner_def
    by (simp add: wp_thenE wp_finallyE wp_bindE wp_gets wp_modify on_cancel_registry_def Let_def)
qed

end

end
