(* ===== verification/Task_Manager.thy ===== *)
theory Task_Manager
  imports Turn_Closes
begin

text \<open>
  \<^verbatim>\<open>task_manager.py\<close>: submission, streaming, queries and cancellation. Background coroutines are entries of
  \<open>w_background\<close>; \<open>run_background\<close> is what the event loop later runs for an entry. What other coroutines do
  while a method waits is the interference of the runtime; the events a subscription delivers during a
  blocking wait or a stream are an argument (\<open>received\<close>).
\<close>

section \<open>Reading requests\<close>

definition is_blocking :: "send_config option \<Rightarrow> bool" where
  "is_blocking cfg = (case cfg of None \<Rightarrow> True
     | Some c \<Rightarrow> (case sc_return_immediately c of None \<Rightarrow> True | Some b \<Rightarrow> \<not> b))"

fun is_agent_role :: "role_value \<Rightarrow> bool" where
  "is_agent_role RNone = False"
| "is_agent_role (REnum r) = (r = role_agent)"
| "is_agent_role (RStr s) = (s \<in> {''agent'', ''ROLE_AGENT'', ''role_agent''})"

text \<open>The marker is compared with message ids, so only a non-empty string can match.\<close>

definition find_direct_reply :: "task \<Rightarrow> message option" where
  "find_direct_reply t = (case map_of (metadata_dict t) DIRECT_REPLY_KEY of
      Some (JStr mid) \<Rightarrow> if mid = '''' then None
        else find (\<lambda>m. m_message_id m = mid) (rev (history_list t))
    | _ \<Rightarrow> None)"

definition extract_inline_push_config :: "send_request \<Rightarrow> push_config option" where
  "extract_inline_push_config params = (case sr_configuration params of None \<Rightarrow> None
     | Some cfg \<Rightarrow> (case sc_task_push cfg of
         Some tpnc \<Rightarrow> Some \<lparr>pc_id = ip_id tpnc, pc_url = ip_url tpnc, pc_token = ip_token tpnc,
           pc_authentication = (case ip_auth_v10 tpnc of None \<Rightarrow> None
             | Some (scheme, cred) \<Rightarrow> Some \<lparr>pa_schemes = (if truthy scheme then [the scheme] else []),
                 pa_credentials = cred\<rparr>)\<rparr>
       | None \<Rightarrow> (case sc_push_v03 cfg of
           Some pnc \<Rightarrow> Some \<lparr>pc_id = ip_id pnc, pc_url = ip_url pnc, pc_token = ip_token pnc,
             pc_authentication = (case ip_auth_v03 pnc of None \<Rightarrow> None
               | Some (schemes, cred) \<Rightarrow> Some \<lparr>pa_schemes = opt_list schemes, pa_credentials = cred\<rparr>)\<rparr>
         | None \<Rightarrow> None)))"

record ('s, 'q) task_manager =
  tm_env :: "('s, 'q) env"
  tm_emitter :: emitter
  tm_input_modes :: "string list"
  tm_cancel_force_timeout_s :: rat
  tm_new_stream :: 'q

text \<open>The type a part counts as, or \<open>None\<close> for a part that is skipped.\<close>

definition effective_mode :: "part \<Rightarrow> string option" where
  "effective_mode p = (case part_kind p of
      KText \<Rightarrow> Some ''text/plain''
    | KData \<Rightarrow> Some (or_else (p_media_type p) ''application/json'')
    | KRaw \<Rightarrow> Some (or_else (p_media_type p) ''application/octet-stream'')
    | KUrl \<Rightarrow> Some (or_else (p_media_type p) ''application/octet-stream'')
    | KEmpty \<Rightarrow> None)"

definition validate_input_modes :: "('s, 'q) task_manager \<Rightarrow> message \<Rightarrow> ('s, 'q, unit) act" where
  "validate_input_modes tm m =
     (if tm_input_modes tm = [] then ret ()
      else case find (\<lambda>mode. mode \<notin> set (tm_input_modes tm)) (List.map_filter effective_mode (m_parts m)) of
        None \<Rightarrow> ret ()
      | Some mode \<Rightarrow> raise (ContentTypeNotSupportedError mode))"

section \<open>Submission\<close>

definition load_and_validate :: "('s, 'q) task_manager \<Rightarrow> message \<Rightarrow> ('s, 'q, task) act" where
  "load_and_validate tm m =
     (case m_task_id m of None \<Rightarrow> raise AssertionError | Some tid \<Rightarrow>
      bindE (storage_load_task (tm_env tm) tid None) (\<lambda>task. case task of
          None \<Rightarrow> raise (TaskNotFoundError (''Task '' @ tid @ '' not found''))
        | Some t \<Rightarrow>
            if t_state t \<in> TERMINAL_STATES then raise (TaskTerminalStateError ''task is terminal'')
            else if truthy (m_context_id m) \<and> t_context_id t \<noteq> the (m_context_id m)
            then raise (ContextMismatchError (the (m_context_id m)) tid (t_context_id t))
            else if t_state t \<notin> {task_state_input_required, task_state_auth_required} \<and> \<not> is_agent_role (m_role m)
            then raise (TaskNotAcceptingMessagesError (Some (t_state t)))
            else ret t))"

definition compute_state_transition :: "task \<Rightarrow> task_state option" where
  "compute_state_transition t =
     (if t_state t \<in> {task_state_input_required, task_state_auth_required} then Some task_state_submitted else None)"

definition has_message :: "string \<Rightarrow> task \<Rightarrow> bool" where
  "has_message mid t \<longleftrightarrow> mid \<in> m_message_id ` set (history_list t)"

fun json_truthy :: "json \<Rightarrow> bool" where
  "json_truthy JNull = False"
| "json_truthy (JBool b) = b"
| "json_truthy (JInt n) = (n \<noteq> 0)"
| "json_truthy (JStr s) = (s \<noteq> '''')"
| "json_truthy (JList xs) = (xs \<noteq> [])"
| "json_truthy (JObj d) = (d \<noteq> [])"

definition submit_new :: "('s, 'q) task_manager \<Rightarrow> string \<Rightarrow> message \<Rightarrow> ('s, 'q, task \<times> bool) act" where
  "submit_new tm ctx m =
     bindE (storage_create_task (tm_env tm) ctx m (Some (m_message_id m))) (\<lambda>task.
       let md = metadata_dict task;
           just_created = (case map_of md ''_a2akit_just_created'' of Some j \<Rightarrow> json_truthy j | None \<Rightarrow> False);
           md1 = AList.delete ''_a2akit_just_created'' md
       in ret (task\<lparr>t_metadata := (if md1 = [] then None else Some md1)\<rparr>, just_created))"

definition follow_up_update :: "task_state option \<Rightarrow> message \<Rightarrow> int option \<Rightarrow> update" where
  "follow_up_update st m version = no_update\<lparr>u_state := st, u_messages := Some [m], u_expected_version := version\<rparr>"

text \<open>A lost race: our twin may have written the message, or the task may have ended.\<close>

definition follow_up_lost :: "('s, 'q) task_manager \<Rightarrow> task \<Rightarrow> message \<Rightarrow> exn \<Rightarrow> ('s, 'q, task option) act" where
  "follow_up_lost tm t m e =
     bindE (storage_load_task (tm_env tm) (t_id t) None) (\<lambda>reloaded. case reloaded of
         None \<Rightarrow> raise e
       | Some r \<Rightarrow> if has_message (m_message_id m) r then ret (Some r)
           else if t_state r \<in> TERMINAL_STATES then raise (TaskTerminalStateError ''task is terminal'')
           else raise e)"

definition announce_follow_up :: "('s, 'q) task_manager \<Rightarrow> task \<Rightarrow> task_state option \<Rightarrow> ('s, 'q, unit) act" where
  "announce_follow_up tm t new_state = (case new_state of None \<Rightarrow> ret ()
     | Some st \<Rightarrow> bindE (tick (e_now (tm_env tm))) (\<lambda>now.
         emitter_send_event (tm_env tm) (tm_emitter tm) (t_id t) (TaskStatusUpdateEvent
           \<lparr>se_task_id = t_id t, se_context_id = t_context_id t,
            se_status = \<lparr>ts_state = st, ts_timestamp = Some now, ts_message = None\<rparr>\<rparr>)))"

text \<open>The write of a follow-up: \<open>Some\<close> is the task a twin request already stored.\<close>

definition follow_up_write ::
  "('s, 'q) task_manager \<Rightarrow> task \<Rightarrow> message \<Rightarrow> int option \<Rightarrow> ('s, 'q, task option) act" where
  "follow_up_write tm t m version =
     (let bound = m\<lparr>m_context_id := Some (or_else (m_context_id m) (t_context_id t))\<rparr> in
      tryE (emitter_update_task (tm_env tm) (tm_emitter tm) (t_id t)
              (follow_up_update (compute_state_transition t) bound version))
        (\<lambda>e. if is_ConcurrencyError e then follow_up_lost tm t m e else raise e)
        (\<lambda>_. ret None))"

definition reload_updated :: "('s, 'q) task_manager \<Rightarrow> task \<Rightarrow> ('s, 'q, task \<times> bool) act" where
  "reload_updated tm t = bindE (storage_load_task (tm_env tm) (t_id t) None) (\<lambda>updated. case updated of
      None \<Rightarrow> raise (RuntimeError (''Task '' @ t_id t @ '' vanished after update''))
    | Some r \<Rightarrow> ret (r, True))"

definition submit_follow_up :: "('s, 'q) task_manager \<Rightarrow> message \<Rightarrow> ('s, 'q, task \<times> bool) act" where
  "submit_follow_up tm m =
     bindE (storage_get_version (tm_env tm) (the (m_task_id m))) (\<lambda>version.
     bindE (load_and_validate tm m) (\<lambda>t.
       if has_message (m_message_id m) t then ret (t, False)
       else bindE (follow_up_write tm t m version) (\<lambda>twin. case twin of
           Some r \<Rightarrow> ret (r, False)
         | None \<Rightarrow> thenE (announce_follow_up tm t (compute_state_transition t)) (reload_updated tm t))))"

definition submit_task :: "('s, 'q) task_manager \<Rightarrow> string \<Rightarrow> message \<Rightarrow> ('s, 'q, task \<times> bool) act" where
  "submit_task tm ctx m =
     thenE (validate_input_modes tm m)
       (if \<not> truthy (m_task_id m) then submit_new tm ctx m else submit_follow_up tm m)"

section \<open>Background work\<close>

definition enqueue_error_text :: string where
  "enqueue_error_text = ''Failed to enqueue task''"

text \<open>The handler of a broker error: fail the task if it is still submitted and nobody changed it.\<close>

definition enqueue_failed :: "('s, 'q) task_manager \<Rightarrow> string \<Rightarrow> ('s, 'q, unit) act" where
  "enqueue_failed tm tid =
     bindE (storage_get_version (tm_env tm) tid) (\<lambda>version.
     bindE (storage_load_task (tm_env tm) tid None) (\<lambda>task. case task of
         None \<Rightarrow> ret ()
       | Some t \<Rightarrow>
           if t_state t \<noteq> task_state_submitted then ret () else
           bindE (tick (e_uuid (tm_env tm))) (\<lambda>mid.
           let msg = agent_message [text_part enqueue_error_text] mid tid (Some (t_context_id t)) None in
           bindE (tryE (emitter_update_task (tm_env tm) (tm_emitter tm) tid
                     (final_update task_state_failed msg None version))
                   (\<lambda>e. if is_lost_race e then ret False else raise e) (\<lambda>_. ret True)) (\<lambda>written.
             if \<not> written then ret () else
             bindE (storage_load_task (tm_env tm) tid None) (\<lambda>task. case task of
                 None \<Rightarrow> ret ()
               | Some t \<Rightarrow> emitter_send_event (tm_env tm) (tm_emitter tm) tid
                   (marker tid (t_context_id t) (t_status t)))))))"

definition enqueue_or_fail :: "('s, 'q) task_manager \<Rightarrow> string \<Rightarrow> ('s, 'q, unit) act \<Rightarrow> ('s, 'q, unit) act" where
  "enqueue_or_fail tm tid coro = catchE coro
     (\<lambda>e. if is_Exception e then swallow (enqueue_failed tm tid) else raise e)"

definition force_cancel_text :: string where
  "force_cancel_text = ''Task was force-canceled after timeout.''"

definition force_cancel_after :: "('s, 'q) task_manager \<Rightarrow> string \<Rightarrow> ('s, 'q, unit) act" where
  "force_cancel_after tm tid = swallow
     (bindE (storage_load_task (tm_env tm) tid None) (\<lambda>task. case task of
         None \<Rightarrow> ret ()
       | Some t \<Rightarrow>
           thenE (unless (t_state t \<in> TERMINAL_STATES)
               (cancel_task_in_storage (tm_env tm) (tm_emitter tm) tid (Some (t_context_id t)) force_cancel_text None))
             (thenE (swallow (bus_cleanup (tm_env tm) tid))
               (swallow (on_cancel_registry (CancelRegistry_cleanup tid True))))))"

fun run_background :: "('s, 'q) task_manager \<Rightarrow> background \<Rightarrow> ('s, 'q, unit) act" where
  "run_background tm (EnqueueOrFail tid params is_new rc) =
     enqueue_or_fail tm tid (broker_run_task (tm_env tm) params is_new rc)"
| "run_background tm (ForceCancelAfter tid deadline) = force_cancel_after tm tid"

section \<open>Sending and streaming\<close>

datatype send_response = TaskResponse task | MessageResponse message

definition bind_message :: "send_request \<Rightarrow> string \<Rightarrow> string \<Rightarrow> send_request" where
  "bind_message params ctx tid =
     params\<lparr>sr_message := (sr_message params)\<lparr>m_context_id := Some ctx, m_task_id := Some tid\<rparr>\<rparr>"

definition request_history_length :: "send_request \<Rightarrow> int option" where
  "request_history_length params =
     (case sr_configuration params of None \<Rightarrow> None | Some c \<Rightarrow> sc_history_length c)"

text \<open>The answer: a direct reply if there is one, otherwise the task, trimmed on request.\<close>

definition send_answer :: "('s, 'q) task_manager \<Rightarrow> send_request \<Rightarrow> task \<Rightarrow> ('s, 'q, send_response) act" where
  "send_answer tm params t =
     bindE (storage_load_task (tm_env tm) (t_id t) None) (\<lambda>latest_full.
       case (case latest_full of None \<Rightarrow> None | Some l \<Rightarrow> find_direct_reply l) of
         Some reply \<Rightarrow> ret (MessageResponse reply)
       | None \<Rightarrow>
           let fallback = (case latest_full of None \<Rightarrow> t | Some l \<Rightarrow> l) in
           (case request_history_length params of
              None \<Rightarrow> ret (TaskResponse fallback)
            | Some n \<Rightarrow> bindE (storage_load_task (tm_env tm) (t_id t) (Some n)) (\<lambda>trimmed.
                ret (TaskResponse (case trimmed of None \<Rightarrow> fallback | Some x \<Rightarrow> x)))))"

definition store_tenant :: "('s, 'q) task_manager \<Rightarrow> send_request \<Rightarrow> bool \<Rightarrow> bool \<Rightarrow> task \<Rightarrow> ('s, 'q, unit) act" where
  "store_tenant tm params is_new should_enqueue t =
     unless (\<not> (is_new \<and> should_enqueue \<and> truthy (sr_tenant params)))
       (thenE (storage_update_task (tm_env tm) (t_id t)
          (no_update\<lparr>u_task_metadata := Some [(META_TENANT_KEY, JStr (the (sr_tenant params)))]\<rparr>)) (ret ()))"

definition store_inline_push :: "('s, 'q) task_manager \<Rightarrow> send_request \<Rightarrow> task \<Rightarrow> ('s, 'q, unit) act" where
  "store_inline_push tm params t =
     bindE (gets w_push) (\<lambda>ps. case ps of None \<Rightarrow> ret ()
       | Some _ \<Rightarrow> (case extract_inline_push_config params of None \<Rightarrow> ret ()
           | Some cfg \<Rightarrow> bindE (tick (e_uuid (tm_env tm))) (\<lambda>uid.
               modify (\<lambda>w. w\<lparr>w_push := map_option (\<lambda>p. snd (push_set_config uid (t_id t) cfg p)) (w_push w)\<rparr>))))"

definition request_context_id :: "('s, 'q) task_manager \<Rightarrow> message \<Rightarrow> ('s, 'q, string) act" where
  "request_context_id tm m =
     (if truthy (m_context_id m) then ret (the (m_context_id m)) else tick (e_uuid (tm_env tm)))"

text \<open>The last direct reply among the events before the marker, which ends the wait.\<close>

fun await_reply :: "message option \<Rightarrow> stream_event list \<Rightarrow> message option" where
  "await_reply d [] = d"
| "await_reply d (TerminalMarker se # evs) = d"
| "await_reply d (DirectReply m # evs) = await_reply (Some m) evs"
| "await_reply d (ev # evs) = await_reply d evs"

text \<open>\<^verbatim>\<open>async with event_bus.subscribe\<close>: the stream is registered before the body and removed after it.\<close>

definition with_subscription ::
  "('s, 'q) task_manager \<Rightarrow> string \<Rightarrow> (int \<Rightarrow> ('s, 'q, 'a) act) \<Rightarrow> ('s, 'q, 'a) act" where
  "with_subscription tm tid body =
     bindE (gets (\<lambda>w. EventBus_subscribe (tm_new_stream tm) tid (w_bus w))) (\<lambda>(sub, eb).
       thenE (modify (\<lambda>w. w\<lparr>w_bus := eb\<rparr>))
         (finallyE (body (snd sub)) (modify (\<lambda>w. w\<lparr>w_bus := EventBus_unsubscribe tid (fst sub) (w_bus w)\<rparr>))))"

text \<open>The second half of \<^verbatim>\<open>send_message\<close>: enqueue in the background, wait if asked to, answer.\<close>

definition enqueue_and_answer ::
  "('s, 'q) task_manager \<Rightarrow> send_request \<Rightarrow> task \<Rightarrow> string \<Rightarrow> bool \<Rightarrow> mdict option \<Rightarrow> stream_event list
    \<Rightarrow> ('s, 'q, send_response) act" where
  "enqueue_and_answer tm params t ctx is_new rc received =
     (let bound = bind_message params ctx (t_id t);
          enqueue = spawn (EnqueueOrFail (t_id t) bound is_new rc) in
      thenE (store_inline_push tm params t)
        (bindE (if is_blocking (sr_configuration params)
                then with_subscription tm (t_id t) (\<lambda>_. thenE enqueue (ret (await_reply None received)))
                else thenE enqueue (ret None)) (\<lambda>direct. case direct of
            Some m \<Rightarrow> ret (MessageResponse m)
          | None \<Rightarrow> send_answer tm bound t)))"

definition send_message ::
  "('s, 'q) task_manager \<Rightarrow> send_request \<Rightarrow> mdict option \<Rightarrow> stream_event list \<Rightarrow> ('s, 'q, send_response) act" where
  "send_message tm params rc received =
     (let msg = sr_message params; is_new = (\<not> truthy (m_task_id msg)) in
      bindE (request_context_id tm msg) (\<lambda>ctx0.
      bindE (submit_task tm ctx0 msg) (\<lambda>(t, should_enqueue).
      thenE (store_tenant tm params is_new should_enqueue t)
        (if \<not> should_enqueue then send_answer tm params t
         else enqueue_and_answer tm params t (if is_new then ctx0 else t_context_id t) is_new rc received))))"

text \<open>The second half of \<^verbatim>\<open>stream_message\<close>: snapshot, subscription, enqueueing, live events.\<close>

definition stream_events ::
  "('s, 'q) task_manager \<Rightarrow> send_request \<Rightarrow> task \<Rightarrow> bool \<Rightarrow> string \<Rightarrow> bool \<Rightarrow> mdict option \<Rightarrow> bus_item list
    \<Rightarrow> ('s, 'q, (string option \<times> stream_event) list) act" where
  "stream_events tm params t0 should_enqueue ctx is_new rc received =
     (let hl = request_history_length params in
      bindE (case hl of None \<Rightarrow> ret t0
             | Some n \<Rightarrow> bindE (storage_load_task (tm_env tm) (t_id t0) (Some n)) (\<lambda>trimmed.
                 ret (case trimmed of None \<Rightarrow> t0 | Some x \<Rightarrow> x))) (\<lambda>t1.
        let bound = bind_message params ctx (t_id t1) in
        with_subscription tm (t_id t1) (\<lambda>snapshot_id.
          bindE (if should_enqueue then ret t1
                 else bindE (storage_load_task (tm_env tm) (t_id t1) hl) (\<lambda>fresh.
                   ret (case fresh of None \<Rightarrow> t1 | Some x \<Rightarrow> x))) (\<lambda>t.
          thenE (unless (\<not> should_enqueue) (spawn (EnqueueOrFail (t_id t) bound is_new rc)))
            (if \<not> should_enqueue \<and> t_state t \<in> TERMINAL_STATES then ret [(None, TaskSnapshot t)]
             else bindE (gets (\<lambda>w. EventBus_iter_events (w_bus w) (t_id t) None snapshot_id received)) (\<lambda>(items, fin).
               case fin of StreamError e \<Rightarrow> raise e
               | _ \<Rightarrow> ret ((None, TaskSnapshot t) # map (\<lambda>(eid, ev). (Some eid, ev)) items)))))))"

definition stream_message ::
  "('s, 'q) task_manager \<Rightarrow> send_request \<Rightarrow> mdict option \<Rightarrow> bus_item list
    \<Rightarrow> ('s, 'q, (string option \<times> stream_event) list) act" where
  "stream_message tm params rc received =
     (let msg = sr_message params; is_new = (\<not> truthy (m_task_id msg)) in
      bindE (request_context_id tm msg) (\<lambda>ctx0.
      bindE (submit_task tm ctx0 msg) (\<lambda>(t0, should_enqueue).
      thenE (store_tenant tm params is_new should_enqueue t0)
      (thenE (store_inline_push tm params t0)
        (stream_events tm params t0 should_enqueue (if is_new then ctx0 else t_context_id t0) is_new rc received)))))"

definition subscribe_task ::
  "('s, 'q) task_manager \<Rightarrow> string \<Rightarrow> string option \<Rightarrow> bus_item list
    \<Rightarrow> ('s, 'q, (string option \<times> stream_event) list) act" where
  "subscribe_task tm tid after received =
     with_subscription tm tid (\<lambda>snapshot_id.
       bindE (storage_load_task (tm_env tm) tid None) (\<lambda>task. case task of
           None \<Rightarrow> raise (TaskNotFoundError (''Task '' @ tid @ '' not found''))
         | Some t \<Rightarrow>
             if t_state t \<in> TERMINAL_STATES \<and> after = None
             then raise (UnsupportedOperationError ''Task is in a terminal state; cannot subscribe'')
             else if after \<noteq> None \<and> t_state t \<in> TERMINAL_STATES then ret [(None, TaskSnapshot t)]
             else bindE (gets (\<lambda>w. EventBus_iter_events (w_bus w) tid after snapshot_id received)) (\<lambda>(items, fin).
               case fin of StreamError e \<Rightarrow> raise e
               | _ \<Rightarrow> ret ((if after = None then [(None, TaskSnapshot t)] else [])
                   @ map (\<lambda>(eid, ev). (Some eid, ev)) items))))"

section \<open>Queries and cancellation\<close>

definition get_task :: "('s, 'q) task_manager \<Rightarrow> string \<Rightarrow> int option \<Rightarrow> ('s, 'q, task option) act" where
  "get_task tm tid hl = storage_load_task (tm_env tm) tid hl"

definition list_tasks :: "('s, 'q) task_manager \<Rightarrow> list_query \<Rightarrow> ('s, 'q, list_result) act" where
  "list_tasks tm q = storage_list_tasks (tm_env tm) q"

definition reload_for_cancel :: "('s, 'q) task_manager \<Rightarrow> string \<Rightarrow> ('s, 'q, task) act" where
  "reload_for_cancel tm tid = bindE (storage_load_task (tm_env tm) tid None) (\<lambda>latest. case latest of
      None \<Rightarrow> raise (TaskNotFoundError (''Task '' @ tid @ '' disappeared during cancel''))
    | Some t \<Rightarrow> ret t)"

definition cancel_task :: "('s, 'q) task_manager \<Rightarrow> string \<Rightarrow> ('s, 'q, task) act" where
  "cancel_task tm tid =
     bindE (storage_load_task (tm_env tm) tid None) (\<lambda>task. case task of
         None \<Rightarrow> raise (TaskNotFoundError (''Task '' @ tid @ '' not found''))
       | Some t \<Rightarrow>
           if t_state t \<in> TERMINAL_STATES
           then raise (TaskNotCancelableError (''Task '' @ tid @ '' is in terminal state '' @ state_value (t_state t)))
           else bindE (gets (cancel_set tid)) (\<lambda>already.
             if already then reload_for_cancel tm tid
             else thenE (on_cancel_registry (CancelRegistry_request_cancel tid))
               (thenE (spawn (ForceCancelAfter tid (tm_cancel_force_timeout_s tm)))
                 (reload_for_cancel tm tid))))"

section \<open>Guarantees under interference\<close>

lemma keeps_with_subscription [keeps_intros]:
  assumes "\<And>i. keeps (guar I V tid) (body i)"
  shows "keeps (guar I V tid) (with_subscription tm tid' body)"
  unfolding with_subscription_def by (intro keeps_intros keeps_guar_modify assms; simp)

lemma keeps_case_stream_end [keeps_intros]:
  "(\<And>e. keeps R (h e)) \<Longrightarrow> keeps R g \<Longrightarrow> keeps R (case z of StreamError e \<Rightarrow> h e | _ \<Rightarrow> g)"
  by (cases z) simp_all

lemma follow_up_valid [simp]: "valid_update (follow_up_update st m v)"
  by (simp add: follow_up_update_def valid_update_def)

lemma follow_up_simps [simp]:
  "u_state (follow_up_update st m v) = st" "u_expected_version (follow_up_update st m v) = v"
  "u_messages (follow_up_update st m v) = Some [m]" "u_artifacts (follow_up_update st m v) = None"
  "u_status_message (follow_up_update st m v) = None"
  by (simp_all add: follow_up_update_def)

context storage_writes begin

lemma keeps_follow_up [keeps_intros]:
  "e_so (tm_env tm) = so \<Longrightarrow> keeps (guar inv view tid) (submit_follow_up tm m)"
  unfolding submit_follow_up_def reload_updated_def load_and_validate_def follow_up_write_def follow_up_lost_def
    announce_follow_up_def Let_def
  by (intro keeps_intros) (simp_all add: valid_length_def)

lemma keeps_validate_modes [keeps_intros]: "keeps (guar inv view tid) (validate_input_modes tm m)"
  unfolding validate_input_modes_def by (intro keeps_intros)

lemma keeps_submit_follow_up [keeps_intros]:
  "e_so (tm_env tm) = so \<Longrightarrow> truthy (m_task_id m) \<Longrightarrow> keeps (guar inv view tid) (submit_task tm ctx m)"
  unfolding submit_task_def by (intro keeps_intros) simp_all

lemma keeps_force_cancel [keeps_intros]:
  "e_so (tm_env tm) = so \<Longrightarrow> emitter_ok (tm_emitter tm) \<Longrightarrow> keeps (guar inv view tid) (force_cancel_after tm tid')"
  unfolding force_cancel_after_def by (intro keeps_intros) (simp_all add: valid_length_def)

lemma keeps_cancel_task [keeps_intros]:
  "e_so (tm_env tm) = so \<Longrightarrow> keeps (guar inv view tid) (cancel_task tm tid')"
  unfolding cancel_task_def reload_for_cancel_def by (intro keeps_intros) (simp_all add: valid_length_def)

lemma keeps_subscribe_task [keeps_intros]:
  "e_so (tm_env tm) = so \<Longrightarrow> keeps (guar inv view tid) (subscribe_task tm tid' after received)"
  unfolding subscribe_task_def by (intro keeps_intros) (simp_all add: valid_length_def)

lemma keeps_send_answer [keeps_intros]:
  "e_so (tm_env tm) = so \<Longrightarrow> valid_length (request_history_length params) \<Longrightarrow>
   keeps (guar inv view tid) (send_answer tm params t)"
  unfolding send_answer_def Let_def
  by (cases "request_history_length params"; simp only: option.case; intro keeps_intros) (simp_all add: valid_length_def)

text \<open>A terminal state that was written stays what readers find, whatever others do.\<close>

definition stored_as :: "string \<Rightarrow> task_state \<Rightarrow> ('s, 'q) world \<Rightarrow> bool" where
  "stored_as tid st w \<longleftrightarrow> (\<forall>t v. view (w_store w) tid = Some (t, v) \<longrightarrow> t_state t = st)"

lemma stable_stored_as:
  assumes "st \<in> TERMINAL_STATES"
  shows "stable inv view tid (\<lambda>w. (tid, st) \<in> written (w_trace w) \<and> stored_as tid st w)"
proof (rule stable_conj [OF stable_written], unfold stable_def, intro allI impI)
  fix w w' :: "('s, 'z) world"
  assume "rely inv view tid w" "guar inv view tid w w'" "stored_as tid st w"
  then show "stored_as tid st w'"
    using assms unfolding stored_as_def guar_def task_le_def
    by (cases "view (w_store w) tid") (auto split: option.splits)
qed

lemma achieves_storage_stored:
  assumes "e_so env = so" and "valid_update u" and "u_state u = Some st"
  shows "achieves inv view tid (\<lambda>_. True) (storage_update_task env tid u)
    (\<lambda>_ w. (tid, st) \<in> written (w_trace w) \<and> stored_as tid st w)"
  unfolding achieves_def
proof (intro allI impI wpI conjI)
  fix w :: "('s, 'a) world" and w' x e
  let ?s = "case w_interf w of [] \<Rightarrow> w_store w | f # _ \<Rightarrow> f (w_store w)"
  assume w: "rely inv view tid w"
  then have "inv ?s" by (auto simp: rely_def honours_def split: list.split)
  {
    assume r: "storage_update_task env tid u w = (Inr x, w')"
    show "guar inv view tid w w'" using keepsE [OF keeps_update [OF assms(1,2)] r] .
    from r obtain s' where s': "so_update_task so (e_now env (w_tick w)) tid u ?s = (Inr x, s')"
      and w': "w_store w' = s'" "w_trace w' = w_trace w @ [EWrite tid u x]"
      by (auto simp: storage_update_task_def call_defs py_defs assms(1) Let_def split: prod.splits sum.splits
          cong: list.case_cong)
    show "(tid, st) \<in> written (w_trace w')" using assms(3) by (simp add: w' written_def)
    from \<open>inv ?s\<close> assms(2) show "stored_as tid st w'"
    proof (cases rule: update_cases [of ?s u tid "e_now env (w_tick w)"])
      case (written t v t' s'')
      then show ?thesis using s' w'(1) apply_update_fields(5) [OF written(4)] assms(3)
        by (simp add: stored_as_def)
    qed (use s' in auto)
  next
    assume r: "storage_update_task env tid u w = (Inl e, w')"
    show "guar inv view tid w w'" using keepsE [OF keeps_update [OF assms(1,2)] r] .
  }
qed

lemma achieves_emitter_stored:
  assumes "e_so env = so" and "valid_update u" and "u_state u = Some st" and "st \<in> TERMINAL_STATES"
  shows "achieves inv view tid (\<lambda>_. True) (emitter_update_task env em tid u)
    (\<lambda>_ w. (tid, st) \<in> written (w_trace w) \<and> stored_as tid st w)"
proof (induction em)
  case DefaultEventEmitter
  then show ?case using achieves_storage_stored [OF assms(1-3)] by simp
next
  case (HookableEmitter em h)
  show ?case unfolding emitter_update_task.simps
    by (rule achieves_bindE [OF HookableEmitter] achieves_thenE [OF achieves_pres [OF _ stable_stored_as [OF assms(4)]]]
        achieves_ret | intro keeps_intros | assumption)+
next
  case (TracingEmitter em)
  show ?case unfolding emitter_update_task.simps
    by (rule achieves_bindE [OF TracingEmitter] achieves_thenE [OF achieves_pres [OF _ stable_stored_as [OF assms(4)]]]
        achieves_ret | intro keeps_intros keeps_guar_modify | assumption | simp)+
next
  case (PushDeliveryEmitter em)
  show ?case unfolding emitter_update_task.simps
    by (rule achieves_bindE [OF PushDeliveryEmitter] achieves_thenE [OF achieves_pres [OF _ stable_stored_as [OF assms(4)]]]
        achieves_ret | intro keeps_intros assms(1) | assumption)+
qed

lemma achieves_load_stored:
  assumes "e_so env = so" and "st \<in> TERMINAL_STATES"
  shows "achieves inv view tid (\<lambda>w. (tid, st) \<in> written (w_trace w) \<and> stored_as tid st w) (storage_load_task env tid None)
    (\<lambda>r w. (tid, st) \<in> written (w_trace w) \<and> (\<forall>t. r = Some t \<longrightarrow> t_state t = st))"
  unfolding achieves_def
proof (intro allI impI wpI conjI)
  fix w :: "('s, 'a) world" and w' r e and t :: task
  let ?s = "case w_interf w of [] \<Rightarrow> w_store w | f # _ \<Rightarrow> f (w_store w)"
  assume w: "rely inv view tid w" and P: "(tid, st) \<in> written (w_trace w) \<and> stored_as tid st w"
  have s: "inv ?s" "task_le (view (w_store w) tid) (view ?s tid)"
    using w by (auto simp: rely_def honours_def split: list.split)
  {
    assume run: "storage_load_task env tid None w = (Inr r, w')"
    show g: "guar inv view tid w w'" using keepsE [OF keeps_load [OF assms(1)] run] by (simp add: valid_length_def)
    show "(tid, st) \<in> written (w_trace w')" using P g w by (auto simp: guar_def intro: anno_written)
    assume "r = Some t"
    with run s(1) have "\<exists>v. view ?s tid = Some (t, v)"
      by (auto simp: storage_load_task_def store_call_def assms(1) load valid_length_def Let_def)
    with s(2) P assms(2) show "t_state t = st"
      by (cases "view (w_store w) tid") (auto simp: stored_as_def task_le_def)
  next
    assume run: "storage_load_task env tid None w = (Inl e, w')"
    show "guar inv view tid w w'" using keepsE [OF keeps_load [OF assms(1)] run] by (simp add: valid_length_def)
  }
qed

lemma keeps_enqueue_failed [keeps_intros]:
  assumes "e_so (tm_env tm) = so"
  shows "keeps (guar inv view tid) (enqueue_failed tm tid)"
proof -
  let ?W = "\<lambda>w. (tid, task_state_failed) \<in> written (w_trace w) \<and> stored_as tid task_state_failed w"
  note stored = achieves_emitter_stored [OF assms, where st = task_state_failed]
  note load = achieves_load_stored [OF assms, where st = task_state_failed]
  have announce: "achieves inv view tid ?W (bindE (storage_load_task (tm_env tm) tid None) (\<lambda>task. case task of
        None \<Rightarrow> ret () | Some t \<Rightarrow> emitter_send_event (tm_env tm) (tm_emitter tm) tid
          (marker tid (t_context_id t) (t_status t)))) (\<lambda>_ _. True)"
  proof (rule achieves_bindE [OF load], simp)
    fix r :: "task option"
    show "achieves inv view tid (\<lambda>w. (tid, task_state_failed) \<in> written (w_trace w) \<and> (\<forall>t. r = Some t \<longrightarrow> t_state t = task_state_failed))
      (case r of None \<Rightarrow> ret () | Some t \<Rightarrow> emitter_send_event (tm_env tm) (tm_emitter tm) tid (marker tid (t_context_id t) (t_status t)))
      (\<lambda>_ _. True)"
      unfolding marker_def by (cases r) (auto intro: achieves_ret achieves_send_marker)
  qed
  have attempt: "achieves inv view tid (\<lambda>_. True) (tryE (emitter_update_task (tm_env tm) (tm_emitter tm) tid
        (final_update task_state_failed msg None version))
      (\<lambda>e. if is_lost_race e then ret False else raise e) (\<lambda>_. ret True)) (\<lambda>b w. b \<longrightarrow> ?W w)" for msg version
    by (rule achieves_tryE [OF stored] achieves_if achieves_ret achieves_raise | simp)+
  show ?thesis
    unfolding enqueue_failed_def Let_def
    by (rule achieves_keeps,
        (rule achieves_bindE [OF attempt] achieves_bindE [where R = "\<lambda>_ _. True"] achieves_if achieves_case_option achieves_ret
          achieves_weaken [OF announce] achieves_pres | intro keeps_intros | simp add: valid_length_def assms)+)
qed

end

end
