(* ===== verification/Manager_Laws.thy ===== *)
theory Manager_Laws
  imports Task_Manager
begin

text \<open>
  What the task manager does, proved once for every backend that meets the storage contract: the outcome of a
  follow-up, the race of two follow-ups, resubmission, forced cancellation, and a broker that fails.
\<close>

section \<open>Symbolic execution without interference\<close>

text \<open>\<open>kept w w'\<close>: everything but storage, bus, clock and trace is as before.\<close>

definition kept :: "('s, 'q) world \<Rightarrow> ('s, 'q) world \<Rightarrow> bool" where
  "kept w w' \<longleftrightarrow> w_cancel w' = w_cancel w \<and> w_broker w' = w_broker w \<and> w_push w' = w_push w
     \<and> w_background w' = w_background w"

lemma kept_refl [simp]: "kept w w"
  by (simp add: kept_def)

lemma kept_trans: "kept w w' \<Longrightarrow> kept w' w'' \<Longrightarrow> kept w w''"
  by (simp add: kept_def)

lemma frame_kept: "frame w w' \<Longrightarrow> kept w w'"
  by (simp add: frame_def kept_def)

lemma calm_kept: "calm w w' \<Longrightarrow> kept w w'"
  by (simp add: calm_def others_def kept_def)

lemma calm_quiet: "calm w w' \<Longrightarrow> quiet w' = quiet w"
  by (simp add: calm_def quiet_def)

text \<open>The answer the preconditions of a follow-up prescribe: the first that fails decides.\<close>

definition follow_up_error :: "string \<Rightarrow> message \<Rightarrow> task option \<Rightarrow> exn option" where
  "follow_up_error tid m task = (case task of
      None \<Rightarrow> Some (TaskNotFoundError (''Task '' @ tid @ '' not found''))
    | Some t \<Rightarrow>
        if t_state t \<in> TERMINAL_STATES then Some (TaskTerminalStateError ''task is terminal'')
        else if truthy (m_context_id m) \<and> t_context_id t \<noteq> the (m_context_id m)
        then Some (ContextMismatchError (the (m_context_id m)) tid (t_context_id t))
        else if t_state t \<in> {task_state_input_required, task_state_auth_required} \<or> is_agent_role (m_role m)
        then None else Some (TaskNotAcceptingMessagesError (Some (t_state t))))"

text \<open>The outcome of an accepted follow-up.\<close>

definition followed_up :: "message \<Rightarrow> task \<Rightarrow> task \<Rightarrow> bool" where
  "followed_up m t t' \<longleftrightarrow>
     history_list t' = history_list t @ [m\<lparr>m_context_id := Some (or_else (m_context_id m) (t_context_id t))\<rparr>]
     \<and> t_state t' = (case compute_state_transition t of None \<Rightarrow> t_state t | Some st \<Rightarrow> st)"

context storage_contract begin

lemma wp_load_len_quiet:
  assumes "e_so env = so" and "inv (w_store w)" and "quiet w" and "valid_length hl"
    and "\<And>w'. inv (w_store w') \<Longrightarrow> quiet w' \<Longrightarrow> w_store w' = w_store w \<Longrightarrow> frame w w' \<Longrightarrow> w_bus w' = w_bus w
      \<Longrightarrow> w_trace w' = w_trace w \<Longrightarrow> w_tick w' = w_tick w
      \<Longrightarrow> Q (map_option (load_view hl True \<circ> fst) (view (w_store w) tid)) w'"
  shows "wp (storage_load_task env tid hl) Q E w"
proof -
  have "storage_load_task env tid hl w = (Inr (map_option (load_view hl True \<circ> fst) (view (w_store w) tid)),
      w\<lparr>w_store := w_store w, w_interf := tl (w_interf w)\<rparr>)"
    unfolding storage_load_task_def
    by (rule store_call_quiet [OF assms(3)]) (simp add: assms load)
  with assms(5) [of "w\<lparr>w_store := w_store w, w_interf := tl (w_interf w)\<rparr>"] assms(2) quiet_step [OF assms(3), of "w_store w"]
  show ?thesis by (simp add: wp_def frame_def)
qed

lemma wp_load_full_quiet:
  assumes "e_so env = so" and "inv (w_store w)" and "quiet w"
    and "\<And>w'. inv (w_store w') \<Longrightarrow> quiet w' \<Longrightarrow> w_store w' = w_store w \<Longrightarrow> frame w w' \<Longrightarrow> w_bus w' = w_bus w
      \<Longrightarrow> w_trace w' = w_trace w \<Longrightarrow> w_tick w' = w_tick w \<Longrightarrow> Q (map_option fst (view (w_store w) tid)) w'"
  shows "wp (storage_load_task env tid None) Q E w"
proof -
  have "map_option (load_view None True \<circ> fst) z = map_option fst z" for z :: "(task \<times> int) option"
    by (cases z) simp_all
  with assms(4) show ?thesis by (intro wp_load_len_quiet [OF assms(1-3)]) (simp_all add: valid_length_def)
qed

lemma wp_version_quiet:
  assumes "e_so env = so" and "inv (w_store w)" and "quiet w"
    and "\<And>w'. inv (w_store w') \<Longrightarrow> quiet w' \<Longrightarrow> w_store w' = w_store w \<Longrightarrow> frame w w' \<Longrightarrow> w_bus w' = w_bus w
      \<Longrightarrow> w_trace w' = w_trace w \<Longrightarrow> w_tick w' = w_tick w \<Longrightarrow> Q (map_option snd (view (w_store w) tid)) w'"
  shows "wp (storage_get_version env tid) Q E w"
proof -
  have "storage_get_version env tid w = (Inr (map_option snd (view (w_store w) tid)),
      w\<lparr>w_store := w_store w, w_interf := tl (w_interf w)\<rparr>)"
    unfolding storage_get_version_def
    by (rule store_call_quiet [OF assms(3)]) (simp add: assms version)
  with assms(4) [of "w\<lparr>w_store := w_store w, w_interf := tl (w_interf w)\<rparr>"] assms(2) quiet_step [OF assms(3), of "w_store w"]
  show ?thesis by (simp add: wp_def frame_def)
qed

lemma wp_emitter_quiet:
  assumes "e_so env = so" and "emitter_ok em" and "inv (w_store w)" and "quiet w" and "valid_update u"
    and "view (w_store w) tid = Some (t, v)" and "u_expected_version u \<in> {None, Some v}"
    and "u_state u = None \<or> t_state t \<notin> TERMINAL_STATES"
    and "\<And>w' t' now. apply_update now u t = Inr t' \<Longrightarrow> frame w w' \<Longrightarrow> writes w' = writes w @ [EWrite tid u (v + 1)]
      \<Longrightarrow> inv (w_store w') \<Longrightarrow> quiet w' \<Longrightarrow> view (w_store w') = (view (w_store w))(tid \<mapsto> (t', v + 1)) \<Longrightarrow> Q (v + 1) w'"
  shows "wp (emitter_update_task env em tid u) Q E w"
  using emitter_write_quiet [OF assms(1-8)] assms(9) by (auto simp: wp_def)

section \<open>Follow-ups\<close>

lemma load_and_validate_quiet:
  assumes "e_so (tm_env tm) = so" and "inv (w_store w)" and "quiet w" and "m_task_id m = Some tid"
    and ok: "\<And>t v w'. view (w_store w) tid = Some (t, v) \<Longrightarrow> t_state t \<notin> TERMINAL_STATES \<Longrightarrow>
      follow_up_error tid m (Some t) = None \<Longrightarrow> inv (w_store w') \<Longrightarrow> quiet w' \<Longrightarrow> w_store w' = w_store w \<Longrightarrow>
      frame w w' \<Longrightarrow> w_trace w' = w_trace w \<Longrightarrow> Q t w'"
    and err: "\<And>e w'. follow_up_error tid m (map_option fst (view (w_store w) tid)) = Some e \<Longrightarrow>
      w_store w' = w_store w \<Longrightarrow> frame w w' \<Longrightarrow> w_trace w' = w_trace w \<Longrightarrow> E e w'"
  shows "wp (load_and_validate tm m) Q E w"
  unfolding load_and_validate_def assms(4) option.case wp_bindE
proof (rule wp_load_full_quiet [OF assms(1-3)], goal_cases)
  case (1 w')
  show ?case
  proof (cases "view (w_store w) tid")
    case None
    with 1 err show ?thesis by (simp add: wp_simps follow_up_error_def)
  next
    case (Some p)
    obtain t v where p: "p = (t, v)" by fastforce
    show ?thesis
      using ok [OF Some [unfolded p], of w'] err [of _ w'] 1
      by (auto simp: wp_simps follow_up_error_def Some p)
  qed
qed

lemma wp_announce_reload:
  assumes "e_so (tm_env tm) = so" and "faults_ok (tm_env tm)" and "inv (w_store w)" and "quiet w"
    and "view (w_store w) (t_id t) = Some (t', v')"
    and "\<And>w'. inv (w_store w') \<Longrightarrow> quiet w' \<Longrightarrow> w_store w' = w_store w \<Longrightarrow> kept w w' \<Longrightarrow> Q (t', True) w'"
  shows "wp (thenE (announce_follow_up tm t st) (reload_updated tm t)) Q E w"
proof -
  have reload: "wp (reload_updated tm t) Q E w1" if w1: "calm w w1" for w1
    unfolding reload_updated_def wp_bindE
    by (rule wp_load_full_quiet [OF assms(1)])
      (use assms(3-5) w1 calm_quiet [OF w1] calm_kept [OF w1] in
        \<open>auto simp: calm_def wp_simps intro!: assms(6) intro: kept_trans frame_kept\<close>)
  have send: "wp (emitter_send_event (tm_env tm) (tm_emitter tm) (t_id t) ev) (\<lambda>_. wp (reload_updated tm t) Q E) E
      (w\<lparr>w_tick := n\<rparr>)" for ev n
    by (rule wp_send_event_calm [OF assms(2)]) (blast intro: reload calm_trans calm_tick)
  have "calm w w" by (simp add: calm_def)
  then show ?thesis
    unfolding announce_follow_up_def wp_thenE
    using reload send by (cases st) (simp_all add: wp_ret wp_bindE wp_tick)
qed

lemma wp_follow_up_write:
  assumes "e_so (tm_env tm) = so" and "emitter_ok (tm_emitter tm)" and "inv (w_store w)" and "quiet w"
    and "view (w_store w) (t_id t) = Some (t, v)" and "t_state t \<notin> TERMINAL_STATES"
    and "\<And>t' w'. followed_up m t t' \<Longrightarrow> frame w w' \<Longrightarrow> inv (w_store w') \<Longrightarrow> quiet w'
      \<Longrightarrow> view (w_store w') = (view (w_store w))(t_id t \<mapsto> (t', v + 1)) \<Longrightarrow> Q None w'"
  shows "wp (follow_up_write tm t m (Some v)) Q E w"
  unfolding follow_up_write_def Let_def wp_tryE
proof (rule wp_emitter_quiet [OF assms(1-4) _ assms(5)], goal_cases)
  case (4 w' t' now)
  have "followed_up m t t'" using apply_update_fields(3,5) [OF 4(1)] by (simp add: followed_up_def)
  with 4 assms(7) show ?case by (simp add: wp_ret)
qed (use assms(6) in simp_all)

text \<open>Without interference a follow-up is refused as prescribed and nothing is written; a repeated message is
  recognised; otherwise the message is appended and a paused task becomes submitted again.\<close>

lemma follow_up_quiet:
  assumes "e_so (tm_env tm) = so" and "emitter_ok (tm_emitter tm)" and "faults_ok (tm_env tm)"
    and "inv (w_store w)" and "quiet w" and "m_task_id m = Some tid"
  shows "wp (submit_follow_up tm m)
    (\<lambda>r w'. inv (w_store w') \<and> quiet w' \<and> kept w w' \<and> (\<exists>t v. view (w_store w) tid = Some (t, v) \<and>
       follow_up_error tid m (Some t) = None \<and>
       (if has_message (m_message_id m) t then r = (t, False) \<and> view (w_store w') = view (w_store w)
        else snd r \<and> view (w_store w') = (view (w_store w))(tid \<mapsto> (fst r, v + 1)) \<and> followed_up m t (fst r))))
    (\<lambda>e w'. follow_up_error tid m (map_option fst (view (w_store w) tid)) = Some e \<and> w_store w' = w_store w
       \<and> kept w w' \<and> w_trace w' = w_trace w) w"
  unfolding submit_follow_up_def assms(6) option.sel wp_bindE
proof (rule wp_version_quiet [OF assms(1,4,5)], rule load_and_validate_quiet [OF assms(1) _ _ assms(6)], goal_cases)
  case (3 w1 t v w2)
  have tv: "view (w_store w) tid = Some (t, v)" "view (w_store w2) tid = Some (t, v)" "inv (w_store w2)" "quiet w2"
    "w_store w2 = w_store w" "t_state t \<notin> TERMINAL_STATES" "follow_up_error tid m (Some t) = None"
    using 3 by simp_all
  have tid: "t_id t = tid" using view_id [OF assms(4) tv(1)] .
  have k: "kept w w2" using 3 by (auto intro: kept_trans frame_kept)
  show ?case
  proof (cases "has_message (m_message_id m) t")
    case True
    with k tv show ?thesis by (auto simp: wp_ret)
  next
    case False
    show ?thesis
      using False tv k
      by (simp add: wp_if wp_bindE)
        (rule wp_follow_up_write [OF assms(1,2) tv(3,4), where t = t and v = v],
          auto simp: tid wp_case_option kept_def frame_def intro!: wp_announce_reload [OF assms(1,3)])
  qed
next
  case (4 w1 e w')
  then show ?case by (auto intro: kept_trans frame_kept)
qed simp_all

section \<open>Two follow-ups at once\<close>

lemma follow_up_lost_no_write: "wp (follow_up_lost tm t m e) (\<lambda>twin _. twin \<noteq> None) (\<lambda>_ _. True) w"
  unfolding follow_up_lost_def wp_bindE
  by (rule wpI) (simp_all add: wp_simps split: option.split)

text \<open>A write of anyone else between reading the version and writing the follow-up makes the follow-up lose.\<close>

lemma follow_up_write_stale:
  assumes "e_so (tm_env tm) = so" and "emitter_ok (tm_emitter tm)" and "rely inv view (t_id t) w"
    and "w_interf w = f # fs" and "view (f (w_store w)) (t_id t) = Some (t3, v3)" and "v3 \<noteq> v1"
  shows "wp (follow_up_write tm t m (Some v1)) (\<lambda>twin _. twin \<noteq> None) (\<lambda>_ _. True) w"
proof -
  let ?u = "follow_up_update (compute_state_transition t)
    (m\<lparr>m_context_id := Some (or_else (m_context_id m) (t_context_id t))\<rparr>) (Some v1)"
  have "inv (f (w_store w))" using assms(3,4) by (simp add: rely_def honours_def)
  from stale_first [OF this assms(5), of ?u v1 "e_now (tm_env tm) (w_tick w)"] assms(6) obtain msg where
    "so_update_task so (e_now (tm_env tm) (w_tick w)) (t_id t) ?u (f (w_store w))
      = (Inl (ConcurrencyError msg (Some v3)), f (w_store w))" by auto
  then obtain w0 where "storage_update_task (tm_env tm) (t_id t) ?u w = (Inl (ConcurrencyError msg (Some v3)), w0)"
    by (auto simp: storage_update_task_def tick_def store_call_def assms(1,4) py_defs Let_def)
  from emitter_update_outcome [OF assms(1,3) follow_up_valid assms(2) this]
  have "emitter_update_task (tm_env tm) (tm_emitter tm) (t_id t) ?u w = (Inl (ConcurrencyError msg (Some v3)), w0)"
    by auto
  then have "follow_up_write tm t m (Some v1) w = follow_up_lost tm t m (ConcurrencyError msg (Some v3)) w0"
    by (simp add: follow_up_write_def Let_def tryE_def)
  with follow_up_lost_no_write [of tm t m "ConcurrencyError msg (Some v3)" w0] show ?thesis
    by (simp add: wp_def)
qed

lemma follow_up_race:
  assumes "e_so (tm_env tm) = so" and "emitter_ok (tm_emitter tm)" and "rely inv view tid w" and "m_task_id m = Some tid"
    and "w_interf w = f0 # f1 # f2 # fs" and "view (f0 (w_store w)) tid = Some (t1, v1)"
    and "view (f2 (f1 (f0 (w_store w)))) tid = Some (t3, v3)" and "v3 \<noteq> v1"
  shows "wp (submit_follow_up tm m) (\<lambda>r _. \<not> snd r) (\<lambda>_ _. True) w"
proof -
  let ?s1 = "f0 (w_store w)"
  let ?w1 = "w\<lparr>w_store := ?s1, w_interf := f1 # f2 # fs\<rparr>" and ?w2 = "w\<lparr>w_store := f1 ?s1, w_interf := f2 # fs\<rparr>"
  have i1: "inv ?s1" "inv (f1 ?s1)" "rely inv view tid ?w2"
    using assms(3,5) by (simp_all add: rely_def honours_def)
  have run1: "storage_get_version (tm_env tm) tid w = (Inr (Some v1), ?w1)"
    by (simp add: storage_get_version_def store_call_def assms(1,5,6) version [OF i1(1)])
  have run2: "storage_load_task (tm_env tm) tid None ?w1
      = (Inr (map_option (load_view None True \<circ> fst) (view (f1 ?s1) tid)), ?w2)"
    by (simp add: storage_load_task_def store_call_def assms(1) load [OF i1(2)] valid_length_def)
  have val: "wp (load_and_validate tm m) (\<lambda>t w'. w' = ?w2 \<and> t_id t = tid) (\<lambda>_ _. True) ?w1"
    unfolding load_and_validate_def assms(4) option.case wp_bindE
    using view_id [OF i1(2), of tid]
    by (auto simp: wp_def [of "storage_load_task _ _ _"] run2 wp_simps split: option.split)
  have cont: "wp (follow_up_write tm t m (Some v1)) (\<lambda>twin. wp (case twin of None \<Rightarrow> k | Some r \<Rightarrow> ret (r, False))
      (\<lambda>r _. \<not> snd r) (\<lambda>_ _. True)) (\<lambda>_ _. True) ?w2" if "t_id t = tid" for t k
    using follow_up_write_stale [OF assms(1,2), of t ?w2 f2 fs t3 v3 v1 m] that i1(3) assms(7,8)
    by (auto simp: wp_ret intro: wp_mono)
  have "wp (load_and_validate tm m) (\<lambda>t. wp (if has_message (m_message_id m) t then ret (t, False)
      else bindE (follow_up_write tm t m (Some v1)) (\<lambda>twin. case twin of Some r \<Rightarrow> ret (r, False)
         | None \<Rightarrow> thenE (announce_follow_up tm t (compute_state_transition t)) (reload_updated tm t)))
      (\<lambda>r _. \<not> snd r) (\<lambda>_ _. True)) (\<lambda>_ _. True) ?w1"
    by (rule wp_mono [OF val]) (auto simp: wp_if wp_ret wp_bindE cont)
  then show ?thesis
    unfolding submit_follow_up_def assms(4) option.sel wp_bindE
    by (simp add: wp_def [of "storage_get_version _ _"] run1 wp_bindE)
qed

section \<open>Resubmission\<close>

text \<open>The first submission of a message creates its task.\<close>

lemma wp_submit_new:
  assumes "e_so (tm_env tm) = so" and "inv (w_store w)" and "quiet w" and "m_message_id m \<noteq> ''''"
    and "idem (w_store w) ctx (m_message_id m) = None" and "view (w_store w) (e_uuid (tm_env tm) (w_tick w)) = None"
    and "\<And>w' now uid. uid = e_uuid (tm_env tm) (w_tick w) \<Longrightarrow> inv (w_store w') \<Longrightarrow> quiet w' \<Longrightarrow>
      view (w_store w') = (view (w_store w))(uid \<mapsto> (initial_task now uid ctx m (Some (m_message_id m)), 1)) \<Longrightarrow>
      idem (w_store w') ctx (m_message_id m) = Some uid \<Longrightarrow> kept w w' \<Longrightarrow> w_trace w' = w_trace w \<Longrightarrow>
      Q (initial_task now uid ctx m (Some (m_message_id m)), True) w'"
  shows "wp (submit_new tm ctx m) Q E w"
proof -
  let ?uid = "e_uuid (tm_env tm) (w_tick w)" and ?now = "e_now (tm_env tm) (Suc (w_tick w))"
  let ?t = "initial_task ?now ?uid ctx m (Some (m_message_id m))"
  have k: "truthy (Some (m_message_id m))" using assms(4) by simp
  from create_new [OF assms(2) disjI2 assms(6), where key = "Some (m_message_id m)" and ctx = ctx and now = ?now and msg = m] assms(5) k obtain s' where
    s': "so_create_task so ?now ?uid ctx m (Some (m_message_id m)) (w_store w) = (Inr (mark_created ?t), s')" "inv s'"
    "view s' = (view (w_store w))(?uid \<mapsto> (?t, 1))" "idem s' ctx (m_message_id m) = Some ?uid" by auto
  let ?w' = "w\<lparr>w_tick := Suc (Suc (w_tick w)), w_store := s', w_interf := tl (w_interf w)\<rparr>"
  have run: "storage_create_task (tm_env tm) ctx m (Some (m_message_id m)) w = (Inr (mark_created ?t), ?w')"
    using store_call_quiet [of "w\<lparr>w_tick := Suc (Suc (w_tick w))\<rparr>" "so_create_task so ?now ?uid ctx m (Some (m_message_id m))"]
      s'(1) assms(3)
    by (simp add: storage_create_task_def bindE_def tryE_def tick_def assms(1) quiet_def)
  have "(mark_created ?t)\<lparr>t_metadata := Some (AList.delete ''_a2akit_just_created'' (metadata_dict (mark_created ?t)))\<rparr> = ?t"
    "AList.delete ''_a2akit_just_created'' (metadata_dict (mark_created ?t)) \<noteq> []"
    "map_of (metadata_dict (mark_created ?t)) ''_a2akit_just_created'' = Some (JBool True)"
    by (simp_all add: mark_created_def initial_task_def META_CREATED_AT_KEY_def META_LAST_MODIFIED_KEY_def)
  moreover have "Q (?t, True) ?w'"
    using s' quiet_step [OF assms(3), of s'] by (intro assms(7)) (simp_all add: kept_def quiet_def)
  ultimately show ?thesis
    by (simp add: submit_new_def wp_bindE wp_def [of "storage_create_task _ _ _ _"] run Let_def wp_ret)
qed

text \<open>A message whose key is known finds its task, and is not to be enqueued.\<close>

lemma wp_submit_known:
  assumes "e_so (tm_env tm) = so" and "inv (w_store w)" and "quiet w" and "m_message_id m \<noteq> ''''"
    and "idem (w_store w) ctx (m_message_id m) = Some tid"
    and "\<And>w' t v t'. view (w_store w) tid = Some (t, v) \<Longrightarrow> t_id t' = tid \<Longrightarrow> inv (w_store w') \<Longrightarrow> quiet w' \<Longrightarrow>
      w_store w' = w_store w \<Longrightarrow> kept w w' \<Longrightarrow> w_trace w' = w_trace w \<Longrightarrow> Q (t', False) w'"
  shows "wp (submit_new tm ctx m) Q E w"
proof -
  obtain t v where t: "view (w_store w) tid = Some (t, v)" "t_id t = tid"
    using idem_view [OF assms(2,5)] by blast
  have none: "map_of (metadata_dict t) ''_a2akit_just_created'' = None"
    using view_meta [OF assms(2) t(1)] by (simp add: task_meta_ok_def)
  let ?w' = "w\<lparr>w_tick := Suc (Suc (w_tick w)), w_store := w_store w, w_interf := tl (w_interf w)\<rparr>"
  have run: "storage_create_task (tm_env tm) ctx m (Some (m_message_id m)) w = (Inr t, ?w')"
    using store_call_quiet [of "w\<lparr>w_tick := Suc (Suc (w_tick w))\<rparr>" "so_create_task so (e_now (tm_env tm) (Suc (w_tick w)))
      (e_uuid (tm_env tm) (w_tick w)) ctx m (Some (m_message_id m))" "Inr t" "w_store w"] assms(3)
      create_hit [OF assms(2), of "Some (m_message_id m)" ctx tid] assms(4,5) t(1)
    by (simp add: storage_create_task_def bindE_def tryE_def tick_def assms(1) quiet_def)
  have "Q (t\<lparr>t_metadata := x\<rparr>, False) ?w'" for x
    using t quiet_step [OF assms(3), of "w_store w"] assms(2) by (intro assms(6)) (simp_all add: kept_def quiet_def)
  then show ?thesis
    by (simp add: submit_new_def wp_bindE wp_def [of "storage_create_task _ _ _ _"] run Let_def wp_ret none)
qed

lemma wp_send_answer:
  assumes "e_so (tm_env tm) = so" and "inv (w_store w)" and "quiet w" and "valid_length (request_history_length params)"
    and "\<And>r w'. inv (w_store w') \<Longrightarrow> quiet w' \<Longrightarrow> w_store w' = w_store w \<Longrightarrow> kept w w' \<Longrightarrow> Q r w'"
  shows "wp (send_answer tm params t) Q E w"
  unfolding send_answer_def Let_def wp_bindE
proof (rule wp_load_full_quiet [OF assms(1-3)], goal_cases)
  case (1 w1)
  have trim: "wp (storage_load_task (tm_env tm) (t_id t) (Some n)) (\<lambda>trimmed.
      Q (TaskResponse (case trimmed of None \<Rightarrow> fb | Some x \<Rightarrow> x))) E w1" if "request_history_length params = Some n" for n fb
    by (rule wp_load_len_quiet [OF assms(1) 1(1,2)])
      (use that 1 assms(4) in \<open>auto intro!: assms(5) intro: kept_trans frame_kept\<close>)
  show ?case
    using 1 trim by (auto simp: wp_simps intro!: assms(5) intro: frame_kept split: option.split)
qed

lemma wp_storage_update_quiet:
  assumes "e_so env = so" and "inv (w_store w)" and "quiet w" and "valid_update u"
    and "view (w_store w) tid = Some (t, v)" and "u_expected_version u \<in> {None, Some v}"
    and "u_state u = None \<or> t_state t \<notin> TERMINAL_STATES"
    and "\<And>w' t'. inv (w_store w') \<Longrightarrow> quiet w' \<Longrightarrow> view (w_store w') = (view (w_store w))(tid \<mapsto> (t', v + 1)) \<Longrightarrow>
      idem (w_store w') = idem (w_store w) \<Longrightarrow> frame w w' \<Longrightarrow> Q (v + 1) w'"
  shows "wp (storage_update_task env tid u) Q E w"
proof -
  let ?now = "e_now env (w_tick w)"
  obtain t' where t': "apply_update ?now u t = Inr t'"
    using valid_update_applies [OF assms(4) view_meta [OF assms(2,5)]] by blast
  obtain s' where s': "so_update_task so ?now tid u (w_store w) = (Inr (v + 1), s')" "inv s'"
    "view s' = (view (w_store w))(tid \<mapsto> (t', v + 1))" "idem s' = idem (w_store w)"
    using update_ok [OF assms(2,5,6,7,4) t'] by blast
  have "store_call (so_update_task so ?now tid u) (w\<lparr>w_tick := Suc (w_tick w)\<rparr>)
      = (Inr (v + 1), w\<lparr>w_tick := Suc (w_tick w), w_store := s', w_interf := tl (w_interf w)\<rparr>)"
    using s' assms(3) by (subst store_call_quiet [where r = "Inr (v + 1)" and s' = s']) (simp_all add: quiet_def)
  moreover have "Q (v + 1) (w\<lparr>w_tick := Suc (w_tick w), w_store := s', w_interf := tl (w_interf w),
      w_trace := w_trace w @ [EWrite tid u (v + 1)]\<rparr>)"
    using quiet_step [OF assms(3), of s'] s' by (intro assms(8)) (auto simp: quiet_def frame_def)
  ultimately show ?thesis
    by (simp add: wp_def storage_update_task_def tick_def emit_effect_def py_defs assms(1))
qed

lemma wp_store_tenant:
  assumes "e_so (tm_env tm) = so" and "inv (w_store w)" and "quiet w" and "view (w_store w) (t_id t) = Some (t0, v)"
    and "\<And>w'. inv (w_store w') \<Longrightarrow> quiet w' \<Longrightarrow> view (w_store w') (t_id t) \<noteq> None \<Longrightarrow>
      idem (w_store w') = idem (w_store w) \<Longrightarrow> kept w w' \<Longrightarrow> Q () w'"
  shows "wp (store_tenant tm params True True t) Q E w"
proof -
  let ?u = "no_update\<lparr>u_task_metadata := Some [(META_TENANT_KEY, JStr (the (sr_tenant params)))]\<rparr>"
  have "valid_update ?u" by (simp add: valid_update_def META_TENANT_KEY_def reserved_keys_def)
  then have "wp (storage_update_task (tm_env tm) (t_id t) ?u) (\<lambda>_. Q ()) E w"
    by (rule wp_storage_update_quiet [OF assms(1-3) _ assms(4)]) (auto intro!: assms(5) intro: frame_kept)
  moreover have "Q () w" using assms(2-4) by (intro assms(5)) simp_all
  ultimately show ?thesis by (simp add: store_tenant_def wp_simps)
qed

end

text \<open>Registering the inline push configuration touches only the push store.\<close>

lemma wp_store_inline_push:
  assumes "\<And>w'. w_store w' = w_store w \<Longrightarrow> w_interf w' = w_interf w \<Longrightarrow> w_background w' = w_background w \<Longrightarrow> Q () w'"
  shows "wp (store_inline_push tm params t) Q E w"
  using assms by (auto simp: store_inline_push_def wp_simps split: option.split)

definition accepts_modes :: "('s, 'q) task_manager \<Rightarrow> message \<Rightarrow> bool" where
  "accepts_modes tm m \<longleftrightarrow> tm_input_modes tm = []
     \<or> (\<forall>p \<in> set (m_parts m). \<forall>mode. effective_mode p = Some mode \<longrightarrow> mode \<in> set (tm_input_modes tm))"

lemma wp_validate_modes: "accepts_modes tm m \<Longrightarrow> wp (validate_input_modes tm m) Q E = Q ()"
proof -
  assume a: "accepts_modes tm m"
  have "find (\<lambda>mode. mode \<notin> set (tm_input_modes tm)) (List.map_filter effective_mode (m_parts m)) = None"
    if "tm_input_modes tm \<noteq> []"
    using a that by (auto simp: find_None_iff List.map_filter_def accepts_modes_def) (metis option.collapse)
  then show ?thesis by (auto simp: validate_input_modes_def wp_simps fun_eq_iff)
qed

text \<open>A new message with a context: the conditions under which it is accepted.\<close>

definition new_request :: "('s, 'q) task_manager \<Rightarrow> send_request \<Rightarrow> string \<Rightarrow> bool" where
  "new_request tm params ctx \<longleftrightarrow> \<not> truthy (m_task_id (sr_message params)) \<and> m_context_id (sr_message params) = Some ctx
     \<and> ctx \<noteq> '''' \<and> m_message_id (sr_message params) \<noteq> '''' \<and> accepts_modes tm (sr_message params)
     \<and> valid_length (request_history_length params)"

lemma request_history_length_bind [simp]: "request_history_length (bind_message params c t) = request_history_length params"
  by (simp add: request_history_length_def bind_message_def)

context storage_contract begin

lemma wp_send_known:
  assumes "e_so (tm_env tm) = so" and "inv (w_store w)" and "quiet w" and "new_request tm params ctx"
    and "idem (w_store w) ctx (m_message_id (sr_message params)) = Some tid"
  shows "wp (send_message tm params rc received) (\<lambda>_ w'. w_store w' = w_store w \<and> kept w w') E w"
proof -
  note req = assms(4) [unfolded new_request_def]
  have answer: "wp (send_answer tm params t) (\<lambda>_ w'. w_store w' = w_store w \<and> kept w w') E w1"
    if "inv (w_store w1)" "quiet w1" "w_store w1 = w_store w" "kept w w1" for t w1
    by (rule wp_send_answer [OF assms(1) that(1,2)]) (use req that kept_trans in auto)
  have "wp (submit_new tm ctx (sr_message params)) (\<lambda>r w1. \<not> snd r \<and> inv (w_store w1) \<and> quiet w1
      \<and> w_store w1 = w_store w \<and> kept w w1) E w"
    by (rule wp_submit_known [OF assms(1-3) _ assms(5)]) (use req in auto)
  then have "wp (submit_new tm ctx (sr_message params)) (\<lambda>r. wp (thenE (store_tenant tm params True (snd r) (fst r))
      (if \<not> snd r then send_answer tm params (fst r) else k r)) (\<lambda>_ w'. w_store w' = w_store w \<and> kept w w') E) E w" for k
    by (rule wp_mono) (auto simp: wp_thenE store_tenant_def wp_simps answer)
  then show ?thesis
    using req
    by (simp add: send_message_def Let_def request_context_id_def submit_task_def wp_bindE wp_thenE wp_ret
        wp_validate_modes case_prod_unfold cong: if_cong)
qed

lemma wp_enqueue_answer:
  assumes "e_so (tm_env tm) = so" and "inv (w_store w)" and "quiet w" and "valid_length (request_history_length params)"
    and "\<And>r w'. inv (w_store w') \<Longrightarrow> quiet w' \<Longrightarrow> w_store w' = w_store w \<Longrightarrow>
      w_background w' = w_background w @ [EnqueueOrFail (t_id t) (bind_message params ctx (t_id t)) is_new rc] \<Longrightarrow> Q r w'"
  shows "wp (enqueue_and_answer tm params t ctx is_new rc received) Q E w"
proof -
  let ?b = "EnqueueOrFail (t_id t) (bind_message params ctx (t_id t)) is_new rc"
  have answer: "wp (send_answer tm (bind_message params ctx (t_id t)) t) Q E w1" "\<And>r. Q r w1"
    if "w_store w1 = w_store w" "w_interf w1 = w_interf w" "w_background w1 = w_background w @ [?b]" for w1
    using that assms(2-4)
    by (auto simp: quiet_def kept_def intro!: assms(5) wp_send_answer [OF assms(1)])
  show ?thesis
    unfolding enqueue_and_answer_def with_subscription_def spawn_def Let_def wp_thenE
    by (rule wp_store_inline_push)
      (auto simp: wp_bindE wp_if wp_thenE wp_gets wp_modify wp_ret wp_finallyE case_prod_unfold
        split: option.split intro: answer)
qed

lemma wp_send_new:
  assumes "e_so (tm_env tm) = so" and "inv (w_store w)" and "quiet w" and "new_request tm params ctx"
    and "idem (w_store w) ctx (m_message_id (sr_message params)) = None"
    and "uid = e_uuid (tm_env tm) (w_tick w)" and "view (w_store w) uid = None"
  shows "wp (send_message tm params rc received) (\<lambda>_ w'. inv (w_store w') \<and> quiet w'
    \<and> idem (w_store w') ctx (m_message_id (sr_message params)) = Some uid \<and> view (w_store w') uid \<noteq> None
    \<and> w_background w' = w_background w @ [EnqueueOrFail uid (bind_message params ctx uid) True rc]) E w"
    (is "wp _ ?Q E w")
proof -
  note req = assms(4) [unfolded new_request_def]
  let ?m = "sr_message params"
  have rest: "wp (thenE (store_tenant tm params True True t) (enqueue_and_answer tm params t ctx True rc received)) ?Q E w1"
    if w1: "inv (w_store w1)" "quiet w1" "view (w_store w1) (t_id t) = Some (t0, v)" "t_id t = uid"
      "idem (w_store w1) ctx (m_message_id ?m) = Some uid" "kept w w1" for w1 t0 v t
    unfolding wp_thenE
    by (rule wp_store_tenant [OF assms(1) w1(1-3)], rule wp_enqueue_answer [OF assms(1)])
      (use req w1 in \<open>auto simp: kept_def\<close>)
  have "wp (submit_new tm ctx ?m) (\<lambda>r. wp (thenE (store_tenant tm params True (snd r) (fst r))
      (if \<not> snd r then send_answer tm params (fst r) else enqueue_and_answer tm params (fst r) ctx True rc received)) ?Q E) E w"
  proof (rule wp_submit_new [OF assms(1-3)], goal_cases)
    case (4 w' now uid')
    then have "t_id (initial_task now uid' ctx ?m (Some (m_message_id ?m))) = uid"
      "view (w_store w') uid = Some (initial_task now uid' ctx ?m (Some (m_message_id ?m)), 1)"
      using assms(6) by simp_all
    with 4 assms(6) rest [of w' "initial_task now uid' ctx ?m (Some (m_message_id ?m))"] show ?case by simp
  qed (use req assms(5-7) in simp_all)
  with req show ?thesis
    by (simp add: send_message_def Let_def request_context_id_def submit_task_def wp_bindE wp_thenE wp_ret
        wp_validate_modes case_prod_unfold cong: if_cong)
qed

section \<open>Cancellation\<close>

lemma wp_reload_for_cancel:
  assumes "e_so (tm_env tm) = so" and "inv (w_store w)" and "quiet w" and "view (w_store w) tid = Some (t, v)"
    and "\<And>w'. inv (w_store w') \<Longrightarrow> quiet w' \<Longrightarrow> w_store w' = w_store w \<Longrightarrow> frame w w' \<Longrightarrow> Q t w'"
  shows "wp (reload_for_cancel tm tid) Q E w"
  unfolding reload_for_cancel_def wp_bindE
  by (rule wp_load_full_quiet [OF assms(1-3)]) (use assms(4,5) in \<open>auto simp: wp_ret\<close>)

text \<open>The first request signals the worker and starts one timer; further requests do neither.\<close>

lemma wp_cancel_task:
  assumes "e_so (tm_env tm) = so" and "inv (w_store w)" and "quiet w" and "view (w_store w) tid = Some (t, v)"
    and "t_state t \<notin> TERMINAL_STATES"
  shows "wp (cancel_task tm tid) (\<lambda>r w'. r = t \<and> inv (w_store w') \<and> quiet w' \<and> w_store w' = w_store w \<and> cancel_set tid w'
    \<and> w_background w' = w_background w @ (if cancel_set tid w then []
        else [ForceCancelAfter tid (tm_cancel_force_timeout_s tm)])) E w"
  unfolding cancel_task_def wp_bindE
proof (rule wp_load_full_quiet [OF assms(1-3)], goal_cases)
  case (1 w1)
  let ?w2 = "w1\<lparr>w_cancel := CancelRegistry_request_cancel tid (w_cancel w1),
    w_background := w_background w1 @ [ForceCancelAfter tid (tm_cancel_force_timeout_s tm)]\<rparr>"
  have w2: "inv (w_store ?w2)" "quiet ?w2" "view (w_store ?w2) tid = Some (t, v)" "cancel_set tid ?w2"
    using 1 assms(4) by (simp_all add: quiet_def mem_cancel.set_request)
  have w1: "view (w_store w1) tid = Some (t, v)" using 1 assms(4) by simp
  show ?case
    using assms(4,5) 1
    by (auto simp: wp_simps on_cancel_registry_def spawn_def
        intro!: wp_reload_for_cancel [OF assms(1) 1(1,2) w1] wp_reload_for_cancel [OF assms(1) w2(1-3)])
      (use w2(4) in \<open>auto simp: frame_def\<close>)
qed

text \<open>When the timer fires, the task is terminal afterwards and the cancel key is released.\<close>

lemma wp_force_cancel:
  assumes "e_so (tm_env tm) = so" and "emitter_ok (tm_emitter tm)" and "faults_ok (tm_env tm)"
    and "inv (w_store w)" and "quiet w" and "view (w_store w) tid = Some (t, v)"
  shows "wp (force_cancel_after tm tid) (\<lambda>_ w'. inv (w_store w') \<and> quiet w' \<and> \<not> cancel_set tid w'
    \<and> (\<exists>t' v'. view (w_store w') tid = Some (t', v') \<and> t_state t' \<in> TERMINAL_STATES)) E w"
    (is "wp _ ?Q E w")
proof -
  have clean: "wp (thenE (swallow (bus_cleanup (tm_env tm) tid)) (swallow (on_cancel_registry (CancelRegistry_cleanup tid True)))) ?Q E' w1"
    if "inv (w_store w1)" "quiet w1" "\<exists>t' v'. view (w_store w1) tid = Some (t', v') \<and> t_state t' \<in> TERMINAL_STATES" for w1 E'
    unfolding wp_thenE wp_swallow on_cancel_registry_def wp_modify
    by (rule wp_bus_cleanup [OF assms(3)]) (use that in \<open>simp_all add: quiet_def mem_cancel.set_cleanup\<close>)
  show ?thesis
    unfolding force_cancel_after_def wp_swallow wp_bindE
  proof (rule wp_load_full_quiet [OF assms(1,4,5)], goal_cases)
    case (1 w1)
    have "view (w_store w1) tid = Some (t, v)" using 1 assms(6) by simp
    from wp_cancel_terminal [OF assms(1-3) 1(1,2) this, where E = "\<lambda>_ _. False"]
    have "wp (cancel_task_in_storage (tm_env tm) (tm_emitter tm) tid c r a) (\<lambda>_. wp (thenE (swallow (bus_cleanup (tm_env tm) tid))
        (swallow (on_cancel_registry (CancelRegistry_cleanup tid True)))) ?Q E') E' w1" for c r a E'
      by (rule wp_mono) (blast intro: clean, simp)
    then show ?case
      using assms(6) 1 clean [OF 1(1,2)]
      by (auto simp: wp_case_option wp_thenE [of "unless _ _"] wp_unless)
  qed
qed

section \<open>A broker that fails\<close>

text \<open>A task that could not be enqueued and is still submitted fails; one that a worker has taken up is left alone.\<close>

lemma wp_enqueue_failed:
  assumes "e_so (tm_env tm) = so" and "emitter_ok (tm_emitter tm)" and "faults_ok (tm_env tm)"
    and "inv (w_store w)" and "quiet w" and "view (w_store w) tid = Some (t, v)"
  shows "wp (enqueue_failed tm tid) (\<lambda>_ w'. if t_state t = task_state_submitted
      then \<exists>t'. view (w_store w') = (view (w_store w))(tid \<mapsto> (t', v + 1)) \<and> t_state t' = task_state_failed
      else w_store w' = w_store w) E w"
    (is "wp _ ?Q E w")
  unfolding enqueue_failed_def wp_bindE Let_def
proof (rule wp_version_quiet [OF assms(1,4,5)], rule wp_load_full_quiet [OF assms(1)], goal_cases)
  case (3 w1 w2)
  have w2: "inv (w_store w2)" "quiet w2" "view (w_store w2) tid = Some (t, v)" "w_store w2 = w_store w"
    using 3 assms(6) by simp_all
  let ?w3 = "w2\<lparr>w_tick := Suc (w_tick w2)\<rparr>"
  have announce: "wp (storage_load_task (tm_env tm) tid None) (\<lambda>task. wp (case task of None \<Rightarrow> ret ()
      | Some t \<Rightarrow> emitter_send_event (tm_env tm) (tm_emitter tm) tid (marker tid (t_context_id t) (t_status t))) Q E) E w4"
    if "inv (w_store w4)" "quiet w4" "\<And>w'. w_store w' = w_store w4 \<Longrightarrow> Q () w'" for w4 Q
    by (rule wp_load_full_quiet [OF assms(1) that(1,2)])
      (auto simp: wp_case_option wp_ret calm_def split: option.split intro!: that(3) wp_send_event_calm [OF assms(3)])
  have "wp (emitter_update_task (tm_env tm) (tm_emitter tm) tid (final_update task_state_failed msg None (Some v)))
      (\<lambda>_. wp (storage_load_task (tm_env tm) tid None) (\<lambda>task. wp (case task of None \<Rightarrow> ret ()
        | Some t \<Rightarrow> emitter_send_event (tm_env tm) (tm_emitter tm) tid (marker tid (t_context_id t) (t_status t))) ?Q E) E) E' ?w3"
    if "t_state t = task_state_submitted" for msg E'
  proof (rule wp_emitter_quiet [OF assms(1,2), where t = t and v = v], goal_cases)
    case (7 w4 t' now)
    then show ?case
      using that w2 final_update_task(1) [OF 7(1)] by (intro announce) auto
  qed (use w2 that in simp_all)
  then show ?case
    using 3 assms(6) by (auto simp: wp_simps)
qed (use assms(4) in simp_all)

section \<open>Streams\<close>

lemma wp_subscribe_terminal:
  assumes "e_so (tm_env tm) = so" and "inv (w_store w)" and "quiet w" and "view (w_store w) tid = Some (t, v)"
    and "t_state t \<in> TERMINAL_STATES"
  shows "wp (subscribe_task tm tid (Some a) received) (\<lambda>items _. items = [(None, TaskSnapshot t)]) E w"
  unfolding subscribe_task_def with_subscription_def wp_bindE wp_gets wp_thenE wp_modify wp_finallyE case_prod_unfold
  by (rule wp_load_full_quiet [OF assms(1)]) (use assms(2-5) in \<open>auto simp: quiet_def wp_simps\<close>)

end

definition same_push :: "('s, 'q) world \<Rightarrow> ('s, 'q) world \<Rightarrow> bool" where
  "same_push w w' \<longleftrightarrow> w_push w' = w_push w"

interpretation push_kept: preorder_rel same_push
  by unfold_locales (simp_all add: same_push_def)

lemma push_primitives [keeps_intros]:
  "keeps same_push (tick f)" "keeps same_push (store_call m)" "keeps same_push (spawn b)"
  by (simp_all add: keeps_def same_push_def call_defs modify_def Let_def split: prod.split)

lemma push_with_subscription [keeps_intros]:
  assumes "\<And>i. keeps same_push (body i)"
  shows "keeps same_push (with_subscription tm tid body)"
proof -
  have m: "keeps same_push (modify f)" if "\<And>w. w_push (f w) = w_push w" for f :: "('a, 'b) world \<Rightarrow> ('a, 'b) world"
    using that by (simp add: keeps_def same_push_def modify_def)
  show ?thesis unfolding with_subscription_def by (intro keeps_intros m assms) simp_all
qed

lemma push_stream_events [keeps_intros]: "keeps same_push (stream_events tm params t0 e ctx n rc received)"
  unfolding stream_events_def Let_def storage_load_task_def by (intro keeps_intros)

context storage_contract begin

text \<open>A retried \<^verbatim>\<open>message/stream\<close> registers its inline push configuration again.\<close>

lemma wp_stream_known:
  assumes "e_so (tm_env tm) = so" and "inv (w_store w)" and "quiet w" and "new_request tm params ctx"
    and "idem (w_store w) ctx (m_message_id (sr_message params)) = Some tid" and "w_push w = Some ps"
    and "extract_inline_push_config params = Some cfg"
  shows "wp (stream_message tm params rc received)
    (\<lambda>_ w'. \<exists>n. w_push w' = Some (snd (push_set_config (e_uuid (tm_env tm) n) tid cfg ps)))
    (\<lambda>_ w'. \<exists>n. w_push w' = Some (snd (push_set_config (e_uuid (tm_env tm) n) tid cfg ps))) w"
    (is "wp _ (\<lambda>_. ?P) _ _")
proof -
  note req = assms(4) [unfolded new_request_def]
  have rest: "wp (stream_events tm params t False ctx True rc received) (\<lambda>_. ?P) (\<lambda>_. ?P) w1" if "?P w1" for t w1
    by (rule wp_mono [OF wp_keeps [OF push_stream_events]]) (use that in \<open>auto simp: same_push_def\<close>)
  have "wp (submit_new tm ctx (sr_message params)) (\<lambda>r. wp (thenE (store_tenant tm params True (snd r) (fst r))
      (thenE (store_inline_push tm params (fst r)) (stream_events tm params (fst r) (snd r) ctx True rc received)))
      (\<lambda>_. ?P) (\<lambda>_. ?P)) (\<lambda>_. ?P) w"
  proof (rule wp_submit_known [OF assms(1-3) _ assms(5)], goal_cases)
    case (2 w' t v t')
    have "?P (w'\<lparr>w_tick := Suc (w_tick w'), w_push := Some (snd (push_set_config (e_uuid (tm_env tm) (w_tick w')) tid cfg ps))\<rparr>)"
      by auto
    from rest [OF this] 2 assms(6,7) show ?case
      by (simp add: kept_def store_tenant_def store_inline_push_def wp_simps)
  qed (use req in simp)
  with req show ?thesis
    by (simp add: stream_message_def Let_def request_context_id_def submit_task_def wp_bindE wp_thenE wp_ret
        wp_validate_modes case_prod_unfold cong: if_cong)
qed

end

end
