(* ===== verification/Retries.thy ===== *)
theory Retries
  imports Worker_Adapter
begin

text \<open>
  The queue during an operation. Nothing a worker or the framework does in a turn touches the broker, so the
  queue changes only by the negative acknowledgement of a failed operation, and only while attempts are left.
\<close>

definition same_queue :: "('s, 'q) world \<Rightarrow> ('s, 'q) world \<Rightarrow> bool" where
  "same_queue w w' \<longleftrightarrow> w_broker w' = w_broker w"

interpretation queue: preorder_rel same_queue
  by unfold_locales (simp_all add: same_queue_def)

lemma queue_modify: "(\<And>w. w_broker (f w) = w_broker w) \<Longrightarrow> keeps same_queue (modify f)"
  by (simp add: keeps_def same_queue_def modify_def)

lemma queue_primitives [keeps_intros]:
  "keeps same_queue (tick f)" "keeps same_queue (emit_effect x)" "keeps same_queue (store_call m)"
  "keeps same_queue (on_ctx g)" "keeps same_queue (on_cancel_registry h)"
  by (simp_all add: keeps_def same_queue_def call_defs modify_def Let_def split: prod.split)

lemma queue_storage [keeps_intros]:
  "keeps same_queue (storage_load_task env tid hl)" "keeps same_queue (storage_get_version env tid)"
  "keeps same_queue (storage_update_task env tid u)"
  unfolding storage_load_task_def storage_get_version_def storage_update_task_def by (intro keeps_intros)+

lemma queue_bus [keeps_intros]:
  "keeps same_queue (bus_publish env tid ev)" "keeps same_queue (bus_cleanup env tid)"
  unfolding bus_publish_def bus_cleanup_def by (intro keeps_intros queue_modify; simp)+

lemma queue_fire_hooks [keeps_intros]: "keeps same_queue (fire_hooks h tid st msg)"
  unfolding fire_hooks_def call_hook_def call_on_working_def safe_call_def by (intro keeps_intros)

lemma queue_push_trigger [keeps_intros]: "keeps same_queue (push_trigger env tid)"
  unfolding push_trigger_def by (intro keeps_intros)

lemma queue_emitter_update [keeps_intros]: "keeps same_queue (emitter_update_task env em tid u)"
  by (induction em) (simp_all only: emitter_update_task.simps, (intro keeps_intros queue_modify; simp)+)

lemma queue_emitter_send [keeps_intros]: "keeps same_queue (emitter_send_event env em tid ev)"
  by (induction em) (simp_all add: keeps_intros)

lemma queue_fallback [keeps_intros]: "keeps same_queue (artifact_fallback env em tid arts)"
  unfolding artifact_fallback_def by (intro keeps_intros)

lemma queue_cancel [keeps_intros]: "keeps same_queue (cancel_task_in_storage env em tid ctx reason arts)"
  unfolding cancel_task_in_storage_def cancel_retry_def Let_def by (intro keeps_intros)

lemma queue_mark_failed [keeps_intros]: "keeps same_queue (mark_failed env em tid ctx reason arts)"
  unfolding mark_failed_def failed_write_def failed_retry_def Let_def by (intro keeps_intros)

lemma queue_context_parts [keeps_intros]:
  "keeps same_queue (versioned_update env em tid u)" "keeps same_queue (refresh_version env tid cur)"
  "keeps same_queue take_pending" "keeps same_queue (rebuffer xs)" "keeps same_queue (touch_flush env)"
  "keeps same_queue (set_version v)" "keeps same_queue (make_agent_message env c ps md)"
  unfolding versioned_update_def versioned_retry_def fresh_version_def refresh_version_def take_pending_def
    rebuffer_def touch_flush_def set_version_def make_agent_message_def
  by (intro keeps_intros)+

lemma queue_flush [keeps_intros]: "keeps same_queue (flush_artifacts env em)"
  unfolding flush_artifacts_def by (intro keeps_intros)

lemma queue_emit_status [keeps_intros]: "keeps same_queue (emit_status env em c st msg txt final)"
  unfolding emit_status_def Let_def by (intro keeps_intros)

lemma queue_send_all [keeps_intros]: "keeps same_queue (send_all env em tid es)"
  by (induction es) (simp_all add: keeps_intros)

lemma queue_transition [keeps_intros]: "keeps same_queue (terminal_transition env em st msg arts md pre)"
  unfolding terminal_transition_def by (intro keeps_intros)

lemma queue_ctx_call [keeps_intros]: "keeps same_queue (ctx_call env em cmd)"
  by (cases cmd;
      simp only: ctx_call.simps ctx_complete_def ctx_complete_json_def ctx_fail_def ctx_reject_def
        ctx_request_input_def ctx_request_auth_def ctx_respond_def ctx_reply_directly_def ctx_emit_text_artifact_def ctx_emit_data_artifact_def
        ctx_emit_artifact_def ctx_send_status_def ctx_load_context_def ctx_update_context_def maybe_flush_def
        ctx_is_cancelled_def Let_def;
      intro keeps_intros)

lemma queue_run_worker [keeps_intros]: "keeps same_queue (run_worker env em tid p aps)"
proof (induction p arbitrary: aps)
  case (Call c k)
  show ?case unfolding run_worker.simps by (intro keeps_intros Call.IH rangeI)
next
  case (Await k)
  show ?case unfolding run_worker.simps by (intro keeps_intros Await.IH rangeI)
qed (simp_all add: keeps_intros)

lemma queue_run_task [keeps_intros]: "keeps same_queue (run_task ad op)"
  unfolding run_task_def run_task_inner_def start_turn_def cancel_first_def run_turn_def task_group_def
    group_body_def turn_handler_def cancel_current_def turn_cleanup_def ctx_fail_def ctx_send_status_def
    ContextFactory_build_def load_previous_def Let_def
  by (intro keeps_intros)

lemma queue_give_up [keeps_intros]: "keeps same_queue (give_up ad h reason)"
proof -
  have "keeps same_queue (on_broker (OperationHandle_ack h))"
    by (simp add: keeps_def same_queue_def on_broker_def OperationHandle_ack_def)
  then show ?thesis unfolding give_up_def Let_def by (intro keeps_intros)
qed

text \<open>Every operation leaves the queue as it was, or puts itself back with the next attempt number.\<close>

lemma handle_op_queue:
  assumes "handle_op ad h w = (r, w')"
  shows "w_broker w' = w_broker w
    \<or> eo_attempt h < ad_max_retries ad \<and> w_broker w' = (w_broker w)\<lparr>br_queue := br_queue (w_broker w)
        @ [\<lparr>eo_op = eo_op h, eo_attempt = eo_attempt h + 1\<rparr>]\<rparr>"
proof -
  let ?P = "\<lambda>w'. w_broker w' = w_broker w \<or> eo_attempt h < ad_max_retries ad
    \<and> w_broker w' = (w_broker w)\<lparr>br_queue := br_queue (w_broker w) @ [\<lparr>eo_op = eo_op h, eo_attempt = eo_attempt h + 1\<rparr>]\<rparr>"
  have same: "wp m (\<lambda>_ w2. w_broker w2 = w_broker w) (\<lambda>_ w2. w_broker w2 = w_broker w) w1"
    if "keeps same_queue m" "w_broker w1 = w_broker w" for m :: "('a, 'b, unit) act" and w1
    by (rule wp_mono [OF wp_keeps [OF that(1)]]) (use that(2) in \<open>simp_all add: same_queue_def\<close>)
  have give_up: "wp (give_up ad h reason) (\<lambda>_. ?P) (\<lambda>_. ?P) w1" if "w_broker w1 = w_broker w" for w1 reason
    by (rule wp_mono [OF same [OF queue_give_up that]]) simp_all
  have ack: "wp (on_broker (OperationHandle_ack h)) (\<lambda>_. ?P) E w1" if "w_broker w1 = w_broker w"
    for w1 :: "('a, 'b) world" and E
    using that by (simp add: wp_def on_broker_def OperationHandle_ack_def)
  have nack: "wp (on_broker (OperationHandle_nack h)) Q E w1"
    if "w_broker w1 = w_broker w" "\<And>w2. w_broker w2 = (w_broker w)\<lparr>br_queue := br_queue (w_broker w)
        @ [\<lparr>eo_op = eo_op h, eo_attempt = eo_attempt h + 1\<rparr>]\<rparr> \<Longrightarrow> Q () w2"
      "\<And>e w2. is_Exception e \<Longrightarrow> w_broker w2 = w_broker w \<Longrightarrow> E e w2" for Q E and w1 :: "('a, 'b) world"
    using that
    by (auto simp: wp_def on_broker_def OperationHandle_nack_def InMemoryBroker_requeue_def InMemoryBroker_send_def)
  have failed: "wp (op_failed ad h e) (\<lambda>_. ?P) (\<lambda>_. ?P) w1" if "w_broker w1 = w_broker w" for w1 e
    unfolding op_failed_def using that give_up
    by (auto simp: wp_bindE wp_catchE wp_thenE wp_ret wp_raise wp_if intro!: nack)
  have "wp (handle_op_inner ad h) (\<lambda>_. ?P) (\<lambda>_. ?P) w"
  proof (cases "ad_max_retries ad < eo_attempt h")
    case True
    then show ?thesis using give_up by (simp add: handle_op_inner_def)
  next
    case False
    have "wp (run_task ad (eo_op h)) (\<lambda>_. wp (on_broker (OperationHandle_ack h)) (\<lambda>_. ?P) (\<lambda>e. wp (op_failed ad h e) (\<lambda>_. ?P) (\<lambda>_. ?P)))
        (\<lambda>e. wp (op_failed ad h e) (\<lambda>_. ?P) (\<lambda>_. ?P)) w"
      by (rule wp_mono [OF same [OF queue_run_task refl]]) (auto intro: ack failed)
    with False show ?thesis by (simp add: handle_op_inner_def dispatch_def wp_tryE wp_thenE wp_ret)
  qed
  then have "wp (handle_op ad h) (\<lambda>_. ?P) (\<lambda>_. ?P) w"
    unfolding handle_op_def wp_swallow by (rule wp_mono) simp_all
  with assms show ?thesis by (cases r) (simp_all add: wp_def)
qed

section \<open>The queue drains\<close>

text \<open>One consumer that takes operations until the queue is empty; \<open>None\<close> when the fuel runs out.\<close>

fun drain :: "nat \<Rightarrow> ('s, 'q) adapter \<Rightarrow> ('s, 'q) world \<Rightarrow> ('s, 'q) world option" where
  "drain 0 ad w = None"
| "drain (Suc n) ad w = (case InMemoryBroker_receive (w_broker w) of
      (None, _) \<Rightarrow> Some w
    | (Some h, b) \<Rightarrow> drain n ad (snd (handle_op ad h (w\<lparr>w_broker := b\<rparr>))))"

text \<open>The attempts that are left for the operations of a queue.\<close>

definition queue_work :: "int \<Rightarrow> enqueued_op list \<Rightarrow> nat" where
  "queue_work k q = (\<Sum>h\<leftarrow>q. Suc (nat (k - eo_attempt h)))"

lemma handle_op_work:
  assumes "br_queue (w_broker w) = q"
  shows "queue_work (ad_max_retries ad) (br_queue (w_broker (snd (handle_op ad h w))))
    < queue_work (ad_max_retries ad) (h # q)"
proof -
  obtain r w' where w': "handle_op ad h w = (r, w')" by fastforce
  from handle_op_queue [OF w'] assms show ?thesis
    by (auto simp: w' queue_work_def)
qed

lemma drain_empties:
  assumes "queue_work (ad_max_retries ad) (br_queue (w_broker w)) < n"
  shows "\<exists>w'. drain n ad w = Some w' \<and> br_queue (w_broker w') = []"
  using assms
proof (induction n arbitrary: w)
  case (Suc n)
  show ?case
  proof (cases "br_queue (w_broker w)")
    case Nil
    then show ?thesis by (simp add: InMemoryBroker_receive_def)
  next
    case (Cons h q)
    let ?w = "w\<lparr>w_broker := (w_broker w)\<lparr>br_queue := q\<rparr>\<rparr>"
    have "queue_work (ad_max_retries ad) (br_queue (w_broker (snd (handle_op ad h ?w)))) < n"
      using handle_op_work [of ?w q ad h] Suc.prems Cons by simp
    from Suc.IH [OF this] Cons show ?thesis by (simp add: InMemoryBroker_receive_def)
  qed
qed simp

section \<open>The receive loop\<close>

lemma broker_loop_failures:
  "broker_loop (min (2 ^ k) 30) (replicate n ReceiveFailed) = map (\<lambda>i. Sleep (min (2 ^ (k + i)) 30)) [0..<n]"
proof (induction n arbitrary: k)
  case (Suc n)
  have "min (min (2 ^ k) 30 * 2) (30 :: rat) = min (2 ^ Suc k) 30" by (auto simp: min_def)
  with Suc.IH [of "Suc k"] show ?case by (simp add: upt_conv_Cons map_Suc_upt [symmetric] del: upt_Suc)
qed simp

lemma broker_loop_append_received:
  "broker_loop b (xs @ Received h # ys) = broker_loop b xs @ StartOp h # broker_loop 1 ys"
  by (induction b xs rule: broker_loop.induct) simp_all

end
