(* ===== verification/Storage_Properties.thy ===== *)
theory Storage_Properties
  imports Storage_Memory
begin

text \<open>
  What the in-memory backend guarantees its callers: the reference semantics of a write, the life of
  a task over any history of operations, optimistic concurrency, read-your-writes, idempotent
  creation, complete pagination and cascading deletion. The statements about writes and creation
  are the contract's, through its interpretation.
\<close>

section \<open>Writes\<close>

text \<open>Property C1: \<^verbatim>\<open>update_task\<close> checks existence, then the expected version, then the terminal guard, in this
  order, and otherwise stores exactly the reference update \<open>apply_update\<close> under the next version. Every
  error leaves the store as it was.\<close>

theorem update_task_reference:
  "InMemoryStorage_update_task now tid u st = (case mem_view st tid of
     None \<Rightarrow> (Inl (TaskNotFoundError ''task not found''), st)
   | Some (t, v) \<Rightarrow>
       if u_expected_version u \<notin> {None, Some v} then
         (Inl (ConcurrencyError (version_mismatch_text tid (the (u_expected_version u)) v) (Some v)), st)
       else if u_state u \<noteq> None \<and> t_state t \<in> TERMINAL_STATES then
         (Inl (TaskTerminalStateError (terminal_transition_text tid (t_state t) (the (u_state u)))), st)
       else case apply_update now u t of
         Inl e \<Rightarrow> (Inl e, st)
       | Inr t' \<Rightarrow> (Inr (v + 1), st\<lparr>ms_tasks := AList.update tid t' (ms_tasks st),
                                      ms_versions := AList.update tid (v + 1) (ms_versions st)\<rparr>))"
  by (rule InMemoryStorage_update_task_spec)

section \<open>The life of a task\<close>

text \<open>Every operation of the storage that changes it, with its arguments and what it draws (time, identifier). Reading operations
  leave the store as it is.\<close>

datatype mem_op =
    Op_create string string string message "string option"
  | Op_update string string update
  | Op_update_context string json
  | Op_delete_task string
  | Op_delete_context string

fun run_op :: "mem_op \<Rightarrow> mem_store \<times> push_store option \<Rightarrow> mem_store \<times> push_store option" where
  "run_op (Op_create now uid ctx msg key) (s, ps) = (snd (InMemoryStorage_create_task now uid ctx msg key s), ps)"
| "run_op (Op_update now tid u) (s, ps) = (snd (InMemoryStorage_update_task now tid u s), ps)"
| "run_op (Op_update_context ctx j) (s, ps) = (snd (InMemoryStorage_update_context ctx j s), ps)"
| "run_op (Op_delete_task tid) x = snd (InMemoryStorage_delete_task tid x)"
| "run_op (Op_delete_context ctx) x = snd (InMemoryStorage_delete_context ctx x)"

fun draws :: "mem_op \<Rightarrow> string list" where
  "draws (Op_create now uid ctx msg key) = [uid]"
| "draws _ = []"

text \<open>The operations that delete a task of a context.\<close>

definition deletes :: "string \<Rightarrow> string \<Rightarrow> mem_op \<Rightarrow> bool" where
  "deletes tid ctx op \<longleftrightarrow> op = Op_delete_task tid \<or> op = Op_delete_context ctx"

text \<open>The dictionary of the tasks holds a key once.\<close>

definition mem_dict :: "mem_store \<Rightarrow> bool" where
  "mem_dict s \<longleftrightarrow> distinct (map fst (ms_tasks s))"

lemma mem_dict_inv: "mem_inv s \<Longrightarrow> mem_dict s"
  by (simp add: mem_dict_def mem_inv_def)

text \<open>What becomes of a task: gone tasks stay away, a task disappears only by \<open>del\<close>, and else it evolves.\<close>

definition life :: "(string \<Rightarrow> bool) \<Rightarrow> (task \<times> int) option \<Rightarrow> (task \<times> int) option \<Rightarrow> bool" where
  "life del x y \<longleftrightarrow> task_le x y \<and> (\<forall>t v. x = Some (t, v) \<longrightarrow> y = None \<longrightarrow> del (t_context_id t))"

lemma life_refl [simp]: "life del x x"
  by (simp add: life_def)

lemma life_trans: "life del x y \<Longrightarrow> life del' y z \<Longrightarrow> life (\<lambda>ctx. del ctx \<or> del' ctx) x z"
  unfolding life_def
  by (cases y) (auto simp: task_le_def split: option.splits intro: prefix_order.trans)

lemma create_life:
  assumes "tid \<noteq> uid"
  shows "life del (mem_view s tid) (mem_view (snd (InMemoryStorage_create_task now uid ctx msg key s)) tid)"
proof (cases "(if truthy key then find (idem_match ctx (the key)) (map snd (ms_tasks s)) else None)")
  case None
  with assms show ?thesis by (simp add: InMemoryStorage_create_task_def Let_def mem_view_update)
qed (simp add: InMemoryStorage_create_task_def)

lemma update_life: "life del (mem_view s tid) (mem_view (snd (InMemoryStorage_update_task now tid' u s)) tid)"
  using apply_update_le [of now u]
  by (auto simp: InMemoryStorage_update_task_spec mem_view_update life_def split: option.split sum.split)

lemma delete_task_view: "mem_view (fst (snd (InMemoryStorage_delete_task tid' (s, ps)))) tid = (if tid = tid' then None else mem_view s tid)"
  by (simp add: InMemoryStorage_delete_task_def mem_view_def AList.delete_conv' Let_def split: option.split)

lemma op_life:
  assumes "mem_dict s" and "tid \<notin> set (draws op)"
  shows "mem_dict (fst (run_op op (s, ps)))
    \<and> life (\<lambda>ctx. deletes tid ctx op) (mem_view s tid) (mem_view (fst (run_op op (s, ps))) tid)"
proof (cases op)
  case (Op_create now uid ctx msg key)
  with assms create_life show ?thesis
    by (auto simp: mem_dict_def InMemoryStorage_create_task_def Let_def AList.distinct_update split: option.split)
next
  case (Op_update now tid' u)
  with assms update_life show ?thesis
    by (auto simp: mem_dict_def InMemoryStorage_update_task_spec AList.distinct_update split: option.split sum.split)
next
  case (Op_update_context ctx j)
  have "mem_view (s\<lparr>ms_contexts := c\<rparr>) = mem_view s" for c by (rule ext) (simp add: mem_view_def split: option.split)
  with Op_update_context assms show ?thesis by (simp add: mem_dict_def InMemoryStorage_update_context_def)
next
  case (Op_delete_task tid')
  with assms delete_task_view show ?thesis
    by (auto simp: mem_dict_def InMemoryStorage_delete_task_def Let_def AList.distinct_delete life_def deletes_def task_le_def
      split: option.split)
next
  case (Op_delete_context ctx)
  obtain n s' ps' where d: "InMemoryStorage_delete_context ctx (s, ps) = (n, s', ps')" by (metis prod_cases3)
  have "mem_dict s'"
    using assms(1) d by (auto simp: mem_dict_def InMemoryStorage_delete_context_def Let_def fold_delete_tasks distinct_map_filter)
  with delete_context_view [OF assms(1) [unfolded mem_dict_def] d, of tid] Op_delete_context d show ?thesis
    by (auto simp: life_def deletes_def task_le_def split: option.splits)
qed

lemma ops_life:
  assumes "mem_dict s" and "tid \<notin> set (concat (map draws ops))"
  shows "life (\<lambda>ctx. \<exists>op \<in> set ops. deletes tid ctx op) (mem_view s tid) (mem_view (fst (fold run_op ops (s, ps))) tid)"
  using assms
proof (induction ops arbitrary: s ps)
  case (Cons op ops)
  obtain s1 ps1 where s1: "run_op op (s, ps) = (s1, ps1)" by fastforce
  from Cons.prems op_life [of s tid op ps] s1
  have "mem_dict s1" "life (\<lambda>ctx. deletes tid ctx op) (mem_view s tid) (mem_view s1 tid)" by auto
  from life_trans [OF this(2) Cons.IH [OF this(1), of ps1]] Cons.prems(2) s1
  show ?case by (simp add: disj_commute)
qed simp

text \<open>Property C2: over any history of operations, deletions included, a task that is not stored and is not created stays away; a
  stored task is gone only if the history deleted it or its context, and otherwise it keeps its id and context, only extends its
  message history, changes only together with an increase of its version, and never leaves a terminal state. Of the history only one
  thing is assumed: the identifiers drawn for new tasks are not the identifier of this one.\<close>

theorem task_life:
  assumes "mem_dict s" and "tid \<notin> set (concat (map draws ops))" and "fold run_op ops (s, ps) = (s', ps')"
  shows "case mem_view s tid of
      None \<Rightarrow> mem_view s' tid = None
    | Some (t, v) \<Rightarrow> (case mem_view s' tid of
          None \<Rightarrow> \<exists>op \<in> set ops. deletes tid (t_context_id t) op
        | Some (t', v') \<Rightarrow> t_id t' = t_id t \<and> t_context_id t' = t_context_id t
            \<and> prefix (history_list t) (history_list t') \<and> v \<le> v' \<and> (v' = v \<longrightarrow> t' = t)
            \<and> (t_state t \<in> TERMINAL_STATES \<longrightarrow> t_state t' = t_state t))"
  using ops_life [OF assms(1,2), of ps] assms(3) by (auto simp: life_def task_le_def split: option.splits)

text \<open>A store with one task, and the same task after it was completed.\<close>

definition sample_message :: message where
  "sample_message = \<lparr>m_role = REnum role_user, m_parts = [text_part ''hi''], m_message_id = ''m1'',
     m_task_id = None, m_context_id = None, m_metadata = None, m_reference_task_ids = [], m_extensions = []\<rparr>"

definition sample_store :: mem_store where
  "sample_store = snd (InMemoryStorage_create_task ''2026'' ''t1'' ''c1'' sample_message (Some ''m1'') InMemoryStorage_init)"

definition sample_task :: task where
  "sample_task = initial_task ''2026'' ''t1'' ''c1'' sample_message (Some ''m1'')"

definition complete_it :: update where
  "complete_it = no_update\<lparr>u_state := Some task_state_completed, u_expected_version := Some 1\<rparr>"

lemma complete_it_simps [simp]:
  "u_state complete_it = Some task_state_completed" "u_expected_version complete_it = Some 1"
  "u_task_metadata complete_it = None" "valid_update complete_it"
  by (simp_all add: complete_it_def valid_update_def)

lemma sample_view: "mem_inv sample_store" "mem_view sample_store ''t1'' = Some (sample_task, 1)"
  "mem_idem sample_store ''c1'' ''m1'' = Some ''t1''" "t_state sample_task = task_state_submitted"
proof -
  have "mem_view InMemoryStorage_init tid = None" "mem_idem InMemoryStorage_init ctx k = None" for tid ctx k
    by (simp_all add: mem_view_def mem_idem_def InMemoryStorage_init_def)
  from mem.create_new [OF mem_inv_init disjI2 [OF this(2)] this(1), where key = "Some ''m1''" and now = "''2026''"
      and msg = sample_message and ctx = "''c1''" and uid = "''t1''"]
  show "mem_inv sample_store" "mem_view sample_store ''t1'' = Some (sample_task, 1)"
    "mem_idem sample_store ''c1'' ''m1'' = Some ''t1''"
    by (auto simp: sample_store_def sample_task_def)
  show "t_state sample_task = task_state_submitted" by (simp add: sample_task_def)
qed

lemma sample_complete:
  "\<exists>t s. InMemoryStorage_update_task ''2027'' ''t1'' complete_it sample_store = (Inr 2, s) \<and> mem_inv s
    \<and> mem_view s ''t1'' = Some (t, 2) \<and> t_state t = task_state_completed"
proof -
  obtain t where t: "apply_update ''2027'' complete_it sample_task = Inr t"
    using valid_update_applies [OF _ mem.view_meta [OF sample_view(1,2)], of complete_it] by auto
  from mem.update_ok [OF sample_view(1,2) _ _ _ t] sample_view(4) apply_update_fields(5) [OF t]
  show ?thesis by fastforce
qed

theorem task_life_witness:
  "\<exists>s. fold run_op [Op_update ''2027'' ''t1'' complete_it, Op_delete_context ''c2'', Op_update ''2028'' ''t1'' complete_it] (sample_store, None)
      = (s, None)
    \<and> (\<exists>t v. mem_view s ''t1'' = Some (t, v) \<and> 1 \<le> v \<and> t_context_id t = ''c1'')"
proof -
  let ?ops = "[Op_update ''2027'' ''t1'' complete_it, Op_delete_context ''c2'', Op_update ''2028'' ''t1'' complete_it]"
  obtain s ps where s: "fold run_op ?ops (sample_store, None) = (s, ps)" by fastforce
  have "snd (run_op op (st, None)) = None" for op st
    by (cases op) (simp_all add: InMemoryStorage_delete_task_def InMemoryStorage_delete_context_def Let_def cascade_push_delete_for_task_def
      cascade_push_delete_for_tasks_def)
  then have "snd (fold run_op ops (st, None)) = None" for ops st
    by (induction ops arbitrary: st) (simp, metis fold_simps(2) prod.collapse)
  then have "ps = None" using s by (metis snd_conv)
  moreover have "\<exists>t v. mem_view s ''t1'' = Some (t, v) \<and> 1 \<le> v \<and> t_context_id t = ''c1''"
    using task_life [OF mem_dict_inv [OF sample_view(1)] _ s, of "''t1''"] sample_view(2)
    by (auto simp: deletes_def sample_task_def split: option.splits)
  ultimately show ?thesis using s by blast
qed

section \<open>Concurrency, reads, creation\<close>

text \<open>Optimistic concurrency. Of two writers that read the same version, the one that comes second is
  refused with the version it should have read, and the store keeps the first write.\<close>

theorem second_writer_refused:
  assumes "mem_inv s" and "valid_update u" and "u_expected_version u = Some v"
    and "InMemoryStorage_update_task now tid u s = (Inr v', s')" and "u_expected_version u' = Some v"
  shows "\<exists>msg. InMemoryStorage_update_task now' tid u' s' = (Inl (ConcurrencyError msg (Some v')), s')"
  using mem.occ_second_writer_refused [OF assms(1-3), of now tid v' s' u' now'] assms(4,5) by simp

theorem second_writer_refused_witness:
  "\<exists>s v msg. InMemoryStorage_update_task ''2027'' ''t1'' complete_it sample_store = (Inr v, s)
    \<and> InMemoryStorage_update_task ''2028'' ''t1'' complete_it s = (Inl (ConcurrencyError msg (Some v)), s)"
proof -
  obtain s where s: "InMemoryStorage_update_task ''2027'' ''t1'' complete_it sample_store = (Inr 2, s)"
    using sample_complete by blast
  from second_writer_refused [OF sample_view(1) complete_it_simps(4,2) s complete_it_simps(2), of "''2028''"] s
  show ?thesis by blast
qed

text \<open>Read your writes. After a successful write, \<^verbatim>\<open>load_task\<close> returns the updated task and
  \<^verbatim>\<open>get_version\<close> the version the write returned, which is one more than before.\<close>

theorem load_after_update:
  assumes "mem_inv s" and "valid_update u" and "mem_view s tid = Some (t, v)"
    and "InMemoryStorage_update_task now tid u s = (Inr v', s')"
  shows "\<exists>t'. apply_update now u t = Inr t' \<and> v' = v + 1
    \<and> InMemoryStorage_load_task tid None True s' = (Inr (Some t'), s')
    \<and> InMemoryStorage_get_version tid s' = (Inr (Some v'), s')"
  using mem.read_your_write [OF assms(1,2) _ assms(3), of now v' s'] assms(4) by simp

theorem load_after_update_witness:
  "\<exists>s t. InMemoryStorage_load_task ''t1'' None True s = (Inr (Some t), s) \<and> t_state t = task_state_completed
    \<and> InMemoryStorage_get_version ''t1'' s = (Inr (Some 2), s)"
proof -
  obtain s where s: "InMemoryStorage_update_task ''2027'' ''t1'' complete_it sample_store = (Inr 2, s)"
    using sample_complete by blast
  from load_after_update [OF sample_view(1) complete_it_simps(4) sample_view(2) s] obtain t where
    t: "apply_update ''2027'' complete_it sample_task = Inr t"
    "InMemoryStorage_load_task ''t1'' None True s = (Inr (Some t), s)"
    "InMemoryStorage_get_version ''t1'' s = (Inr (Some 2), s)" by blast
  have "t_state t = task_state_completed" using apply_update_fields(5) [OF t(1)] by simp
  with t(2,3) show ?thesis by blast
qed

text \<open>Property C35: idempotent creation. A second \<^verbatim>\<open>create_task\<close> under the same context and key stores nothing,
  returns the task of the first one, and only the first result carries the \<^verbatim>\<open>_a2akit_just_created\<close> marker,
  whatever the id, the time and the message of the second call.\<close>

theorem create_task_idempotent:
  assumes "mem_inv s" and "truthy key" and "mem_idem s ctx (the key) = None" and "mem_view s uid = None"
    and "InMemoryStorage_create_task now uid ctx msg key s = (Inr t1, s1)"
  shows "\<exists>t2. InMemoryStorage_create_task now' uid' ctx msg' key s1 = (Inr t2, s1)
    \<and> t_id t2 = uid \<and> t1 = mark_created t2
    \<and> map_of (metadata_dict t2) ''_a2akit_just_created'' = None"
proof -
  from mem.create_new [OF assms(1) disjI2 [OF assms(3)] assms(4), of now msg] assms(5)
  have "t_id t1 = uid" by (auto simp: mark_created_def)
  with mem.create_twice [OF assms(1-4), of now msg t1 s1 now' uid' msg'] assms(5) show ?thesis by auto
qed

theorem create_task_idempotent_witness:
  "\<exists>t. InMemoryStorage_create_task ''2030'' ''t9'' ''c1'' sample_message (Some ''m1'') sample_store
    = (Inr t, sample_store) \<and> t_id t = ''t1''"
proof -
  have init: "truthy (Some ''m1'')" "mem_idem InMemoryStorage_init ''c1'' (the (Some ''m1'')) = None"
    "mem_view InMemoryStorage_init ''t1'' = None"
    by (simp_all add: mem_view_def mem_idem_def InMemoryStorage_init_def)
  obtain t1 where "InMemoryStorage_create_task ''2026'' ''t1'' ''c1'' sample_message (Some ''m1'') InMemoryStorage_init
      = (Inr t1, sample_store)"
    using mem_create_new [OF mem_inv_init disjI2 [OF init(2)], of "''2026''" "''t1''" sample_message]
    by (simp add: sample_store_def)
  from create_task_idempotent [OF mem_inv_init init this, of "''2030''" "''t9''" sample_message]
  show ?thesis by blast
qed

section \<open>Listing and deletion\<close>

lemma selected_props:
  assumes "mem_inv st"
  shows "set (selected q st) = {t \<in> snd ` set (ms_tasks st). query_matches q t}"
    and "distinct (selected q st)" and "sorted_wrt (\<lambda>a b. sort_key b \<le> sort_key a) (selected q st)"
proof -
  have "distinct (map snd (ms_tasks st))"
  proof -
    have "map (t_id \<circ> snd) (ms_tasks st) = map fst (ms_tasks st)"
      using assms by (auto simp: mem_inv_def)
    then have "distinct (map t_id (map snd (ms_tasks st)))" using assms unfolding map_map mem_inv_def by metis
    then show ?thesis by (simp only: distinct_map)
  qed
  then show "distinct (selected q st)" by (simp add: selected_def sorted_reverse_props)
  show "set (selected q st) = {t \<in> snd ` set (ms_tasks st). query_matches q t}"
    by (auto simp: selected_def sorted_reverse_props)
  show "sorted_wrt (\<lambda>a b. sort_key b \<le> sort_key a) (selected q st)"
    by (simp add: selected_def sorted_wrt_filter sorted_reverse_props)
qed

text \<open>Property C9: pagination is complete. A client that starts without a token and follows \<^verbatim>\<open>nextPageToken\<close> ends,
  after at most one request per selected task (and one more), with every task the query selects, each exactly
  once, newest status first.\<close>

theorem pagination_complete:
  assumes "mem_inv st" and "valid_query q" and "\<not> truthy (q_page_token q)"
  shows "\<exists>ts. walk_pages (Suc (length (ms_tasks st))) q st
      = Some (map (InMemoryStorage_present (q_history_length q) (q_include_artifacts q)) ts)
    \<and> distinct ts \<and> set ts = {t \<in> snd ` set (ms_tasks st). query_matches q t}
    \<and> sorted_wrt (\<lambda>a b. sort_key b \<le> sort_key a) ts"
proof (intro exI [of _ "selected q st"] conjI selected_props assms)
  have len: "length (selected q st) \<le> length (ms_tasks st)"
    using length_filter_le [of "query_matches q" "sorted_reverse sort_key (map snd (ms_tasks st))"]
    by (simp add: selected_def sorted_reverse_props)
  obtain p where p: "q_page_size q = int p" "0 < p"
    using assms(2) by (metis valid_query_def zero_less_imp_eq_int zless_iff_Suc_zadd int_one_le_iff_zero_less)
  from walk_pages_from [of q 0 p st "Suc (length (ms_tasks st))"] len p assms(3)
  show "walk_pages (Suc (length (ms_tasks st))) q st
      = Some (map (InMemoryStorage_present (q_history_length q) (q_include_artifacts q)) (selected q st))"
    by (simp add: page_offset_def)
qed

definition all_tasks :: list_query where
  "all_tasks = \<lparr>q_context_id = None, q_tenant = None, q_status = None, q_page_size = 1, q_page_token = None,
     q_history_length = None, q_status_timestamp_after = None, q_include_artifacts = True\<rparr>"

theorem pagination_complete_witness:
  "\<exists>ts. walk_pages (Suc (length (ms_tasks sample_store))) all_tasks sample_store = Some ts"
proof -
  have "valid_query all_tasks" "\<not> truthy (q_page_token all_tasks)"
    by (simp_all add: all_tasks_def valid_query_def)
  from pagination_complete [OF sample_view(1) this] show ?thesis by blast
qed

text \<open>\<^verbatim>\<open>delete_context\<close> removes exactly the tasks of the context, together with the push configurations
  of those tasks; every other task and configuration stays.\<close>

theorem delete_context_cascades:
  assumes "mem_inv st" and "InMemoryStorage_delete_context ctx (st, Some ps) = (n, st', Some ps')"
  shows "mem_view st' tid = (case mem_view st tid of None \<Rightarrow> None
      | Some (t, v) \<Rightarrow> if t_context_id t = ctx then None else Some (t, v))
    \<and> push_list_configs tid ps' = (case mem_view st tid of None \<Rightarrow> push_list_configs tid ps
      | Some (t, v) \<Rightarrow> if t_context_id t = ctx then [] else push_list_configs tid ps)"
proof (rule conjI [OF delete_context_view [OF mem_dict_inv [OF assms(1), unfolded mem_dict_def] assms(2)]])
  let ?ids = "map fst (filter (\<lambda>(tid, t). t_context_id t = ctx) (ms_tasks st))"
  have ids: "tid \<in> set ?ids \<longleftrightarrow> (\<exists>t. map_of (ms_tasks st) tid = Some t \<and> t_context_id t = ctx)"
    using map_of_eq_Some_iff [of "ms_tasks st" tid] assms(1)
    by (auto simp: mem_inv_def image_iff Bex_def)
  have "push_list_configs tid ps' = (if tid \<in> set ?ids then [] else push_list_configs tid ps)"
    using assms(2) fold_cascade [of tid ?ids ps]
    by (simp add: InMemoryStorage_delete_context_def cascade_push_delete_for_tasks_def Let_def)
  then show "push_list_configs tid ps' = (case mem_view st tid of None \<Rightarrow> push_list_configs tid ps
      | Some (t, v) \<Rightarrow> if t_context_id t = ctx then [] else push_list_configs tid ps)"
    unfolding ids by (auto simp: mem_view_def split: option.splits)
qed

theorem delete_context_cascades_witness:
  "\<exists>n st ps. InMemoryStorage_delete_context ''c1'' (sample_store, Some []) = (n, st, Some ps)
    \<and> mem_view st ''t1'' = None"
proof -
  obtain n st ps where d: "InMemoryStorage_delete_context ''c1'' (sample_store, Some []) = (n, st, Some ps)"
    by (auto simp: InMemoryStorage_delete_context_def cascade_push_delete_for_tasks_def Let_def)
  from delete_context_cascades [OF sample_view(1) d, of "''t1''"] d sample_view(2)
  show ?thesis by (auto simp: sample_task_def)
qed

end
