(* ===== verification/Turn_Properties.thy ===== *)
theory Turn_Properties
  imports Turn_Closes Retries Storage_Properties
begin

text \<open>
  Properties of the write path, of cancellation and of the context object, on the in-memory backend: the
  contract's lemmas at its interpretation \<open>mem\<close>. A sample system serves the witnesses: one working task,
  an environment whose clocks count, and another client that completes the task at the first opportunity.
\<close>

section \<open>A sample system\<close>

definition sample_env :: "(mem_store, bus_item list) env" where
  "sample_env = \<lparr>e_so = InMemoryStorage_ops, e_uuid = (\<lambda>n. CHR ''u'' # nat_str n), e_now = nat_str,
     e_mono = of_nat, e_send = slots5, e_bus_fault = (\<lambda>_. None), e_broker_fault = (\<lambda>_. None), e_otel = True\<rparr>"

definition start_it :: update where
  "start_it = no_update\<lparr>u_state := Some task_state_working\<rparr>"

definition working_store :: mem_store where
  "working_store = snd (InMemoryStorage_update_task ''2027'' ''t1'' start_it sample_store)"

definition sample_ctx :: task_ctx where
  "sample_ctx = \<lparr>tc_task_id = ''t1'', tc_context_id = Some ''c1'', tc_message_id = ''m1'', tc_user_text = ''hi'',
     tc_parts = [text_part ''hi''], tc_metadata = [], tc_history = [], tc_previous_artifacts = [],
     tc_turn_ended = False, tc_version = Some 2, tc_request_context = [], tc_accepted_output_modes = None,
     tc_reference_task_ids = [], tc_message_extensions = [], tc_pending_artifacts = [], tc_last_flush = 0,
     tc_flush_interval = 1, tc_flush_count = 10\<rparr>"

definition sample_world :: "(mem_store \<Rightarrow> mem_store) list \<Rightarrow> (mem_store, bus_item list) world" where
  "sample_world interf = \<lparr>w_store = working_store, w_interf = interf, w_bus = EventBus_init 10, w_cancel = [],
     w_broker = \<lparr>br_queue = [], br_closed = False\<rparr>, w_push = Some [],
     w_metrics = \<lparr>mt_task_timers = [], mt_active = 0, mt_total = [], mt_errors = 0, mt_durations = []\<rparr>,
     w_ctx = sample_ctx, w_background = [], w_tick = 0, w_trace = []\<rparr>"

definition rival :: "mem_store \<Rightarrow> mem_store" where
  "rival s = snd (InMemoryStorage_update_task ''2028'' ''t1''
     (no_update\<lparr>u_state := Some task_state_completed\<rparr>) s)"

lemma sample_env_simps [simp]: "e_so sample_env = InMemoryStorage_ops" "faults_ok sample_env"
  by (simp_all add: sample_env_def faults_ok_def)

lemma sample_world_simps [simp]:
  "w_store (sample_world xs) = working_store" "w_interf (sample_world xs) = xs" "w_ctx (sample_world xs) = sample_ctx"
  "w_trace (sample_world xs) = []" "w_tick (sample_world xs) = 0" "quiet (sample_world [])"
  by (simp_all add: sample_world_def quiet_def)

lemma working_task: "mem_inv working_store" "\<exists>t. mem_view working_store ''t1'' = Some (t, 2)
    \<and> t_state t = task_state_working \<and> t_context_id t = ''c1'' \<and> history_list t = history_list sample_task"
proof -
  have s: "u_state start_it = Some task_state_working" "u_expected_version start_it = None" "valid_update start_it"
    "u_messages start_it = None"
    by (simp_all add: start_it_def valid_update_def)
  obtain t where t: "apply_update ''2027'' start_it sample_task = Inr t"
    using valid_update_applies [OF s(3) mem.view_meta [OF sample_view(1,2)]] by blast
  have "t_context_id t = ''c1''" "history_list t = history_list sample_task"
    using apply_update_fields(2,3) [OF t] s(4) by (simp_all add: sample_task_def)
  with mem.update_ok [OF sample_view(1,2) _ _ s(3) t] s sample_view(4) apply_update_fields(5) [OF t]
  show "mem_inv working_store" "\<exists>t. mem_view working_store ''t1'' = Some (t, 2)
    \<and> t_state t = task_state_working \<and> t_context_id t = ''c1'' \<and> history_list t = history_list sample_task"
    by (auto simp: working_store_def)
qed

lemma working_view: "mem_inv working_store" "\<exists>t. mem_view working_store ''t1'' = Some (t, 2) \<and> t_state t = task_state_working"
  using working_task by auto

lemma rival_honours: "honours mem_inv mem_view tid rival"
  unfolding honours_def rival_def
  using mem.update_inv [where u = "no_update\<lparr>u_state := Some task_state_completed\<rparr>"]
    mem.update_le [where u = "no_update\<lparr>u_state := Some task_state_completed\<rparr>"]
  by (simp add: valid_update_def)

lemma sample_rely: "set xs \<subseteq> {rival} \<Longrightarrow> rely mem_inv mem_view tid (sample_world xs)"
  using rival_honours working_view(1) by (auto simp: rely_def)

section \<open>Guarantees under interference\<close>

text \<open>Property C4: whatever a worker calls on its context and whatever other clients do to the storage between two
  of its operations: the storage invariant holds, the task only evolves as the contract allows (identity,
  history and terminal state are kept), the trace only grows, and every terminal marker that is published
  announces a state an earlier write has stored. This holds on every path, errors included.\<close>

theorem ctx_call_safe:
  assumes "e_so env = InMemoryStorage_ops" and "emitter_ok em" and "rely mem_inv mem_view tid w"
    and "ctx_call env em cmd w = (r, w')"
  shows "mem_inv (w_store w') \<and> task_le (mem_view (w_store w) tid) (mem_view (w_store w') tid)
    \<and> prefix (w_trace w) (w_trace w') \<and> (announced_ok (w_trace w) \<longrightarrow> announced_ok (w_trace w'))"
  using keepsE [OF mem.keeps_ctx_call [OF assms(1,2)] assms(4), of tid] assms(3)
  by (auto simp: guar_def rely_def anno_def)

theorem ctx_call_safe_witness:
  "\<exists>r w'. ctx_call sample_env DefaultEventEmitter (Complete (Some ''done'') ''a'') (sample_world [rival]) = (r, w')
    \<and> mem_inv (w_store w') \<and> announced_ok (w_trace w')"
proof -
  obtain r w' where w': "ctx_call sample_env DefaultEventEmitter (Complete (Some ''done'') ''a'') (sample_world [rival]) = (r, w')"
    by fastforce
  from ctx_call_safe [OF _ _ sample_rely w'] have "mem_inv (w_store w') \<and> announced_ok (w_trace w')"
    by (simp add: announced_ok_def)
  with w' show ?thesis by blast
qed

text \<open>Property C23: the same for \<^verbatim>\<open>cancel_task_in_storage\<close>: it announces the cancellation only after a write of it
  succeeded, also when it loses races, retries, or falls back to storing the artifacts.\<close>

theorem cancel_safe:
  assumes "e_so env = InMemoryStorage_ops" and "emitter_ok em" and "rely mem_inv mem_view tid w"
    and "cancel_task_in_storage env em tid' ctx reason arts w = (r, w')"
  shows "mem_inv (w_store w') \<and> task_le (mem_view (w_store w) tid) (mem_view (w_store w') tid)
    \<and> prefix (w_trace w) (w_trace w') \<and> (announced_ok (w_trace w) \<longrightarrow> announced_ok (w_trace w'))"
  using keepsE [OF mem.keeps_cancel [OF assms(1,2)] assms(4), of tid] assms(3)
  by (auto simp: guar_def rely_def anno_def)

theorem cancel_safe_witness:
  "\<exists>r w'. cancel_task_in_storage sample_env DefaultEventEmitter ''t1'' None ''stop'' None (sample_world [id, id, rival]) = (r, w')
    \<and> mem_inv (w_store w') \<and> announced_ok (w_trace w')"
proof -
  let ?w = "sample_world [id, id, rival]"
  obtain r w' where w': "cancel_task_in_storage sample_env DefaultEventEmitter ''t1'' None ''stop'' None ?w = (r, w')"
    by fastforce
  have "rely mem_inv mem_view ''t1'' ?w"
    using rival_honours working_view(1) by (auto simp: rely_def honours_def)
  from cancel_safe [OF _ _ this w'] have "mem_inv (w_store w') \<and> announced_ok (w_trace w')"
    by (simp add: announced_ok_def)
  with w' show ?thesis by blast
qed

text \<open>Property C5: artifacts are neither lost, repeated nor reordered. The chunks in successful writes followed by
  the chunks still buffered grow, with every call of a worker, by exactly what the call contributes; a call
  that raises contributes its chunks or none, also when others interfere and writes are refused.\<close>

theorem artifact_conservation:
  assumes "e_so env = InMemoryStorage_ops" and "emitter_ok em" and "faults_ok env"
    and "rely mem_inv mem_view tid w" and "ctx_call env em cmd w = (r, w')"
  shows "case r of Inr _ \<Rightarrow> chunks w' = chunks w @ contribution cmd (w_ctx w)
    | Inl _ \<Rightarrow> chunks w' = chunks w \<or> chunks w' = chunks w @ contribution cmd (w_ctx w)"
  using mem.ctx_call_chunks [OF assms(1-4), of cmd] assms(5) by (cases r) (auto simp: wp_def)

theorem artifact_conservation_witness:
  "\<exists>r w'. ctx_call sample_env DefaultEventEmitter (EmitText ''hello'' ''a'' True False) (sample_world [rival]) = (r, w')
    \<and> (isl r \<or> chunks w' = [\<lparr>aw_artifact = simple_artifact ''a'' [text_part ''hello''] None, aw_append = True\<rparr>])"
proof -
  obtain r w' where w': "ctx_call sample_env DefaultEventEmitter (EmitText ''hello'' ''a'' True False) (sample_world [rival]) = (r, w')"
    by fastforce
  from artifact_conservation [OF _ _ _ sample_rely w'] have "isl r \<or> chunks w'
      = [\<lparr>aw_artifact = simple_artifact ''a'' [text_part ''hello''] None, aw_append = True\<rparr>]"
    by (cases r) (simp_all add: chunks_def persisted_def contribution_def sample_ctx_def)
  with w' show ?thesis by blast
qed

section \<open>Cancellation\<close>

text \<open>Property C22: without interference \<^verbatim>\<open>cancel_task_in_storage\<close> makes a task that is not terminal canceled, in one
  write that also stores the reason as status and history message and all buffered artifacts, touches no other
  task, and returns.\<close>

theorem cancel_settles:
  assumes "e_so env = InMemoryStorage_ops" and "emitter_ok em" and "faults_ok env"
    and "mem_inv (w_store w)" and "quiet w" and "mem_view (w_store w) tid = Some (t, v)"
    and "t_state t \<notin> TERMINAL_STATES"
  shows "\<exists>w' t' msg. cancel_task_in_storage env em tid ctx reason arts w = (Inr (), w')
    \<and> mem_view (w_store w') = (mem_view (w_store w))(tid \<mapsto> (t', v + 1))
    \<and> t_state t' = task_state_canceled \<and> m_parts msg = [text_part reason]
    \<and> ts_message (t_status t') = Some msg \<and> history_list t' = history_list t @ [msg]
    \<and> t_artifacts t' = upsert_all (opt_list arts) (t_artifacts t)
    \<and> writes w' = writes w @ [EWrite tid (final_update task_state_canceled msg arts (Some v)) (v + 1)]"
  using mem.cancel_quiet [OF assms, of ctx reason arts] by blast

theorem cancel_settles_witness:
  "\<exists>w' t'. cancel_task_in_storage sample_env DefaultEventEmitter ''t1'' None ''stop'' None (sample_world []) = (Inr (), w')
    \<and> mem_view (w_store w') ''t1'' = Some (t', 3) \<and> t_state t' = task_state_canceled"
proof -
  obtain t where t: "mem_view (w_store (sample_world [])) ''t1'' = Some (t, 2)" "t_state t \<notin> TERMINAL_STATES"
    using working_view(2) by auto
  from cancel_settles [OF sample_env_simps(1) _ sample_env_simps(2) _ _ t, of DefaultEventEmitter None "''stop''" None]
    working_view(1) show ?thesis by auto
qed

text \<open>A cancellation that was requested is seen by every later query, through any number of paused turns
  (which do not release the key), and is forgotten exactly when the key is released.\<close>

theorem cancel_request_survives:
  "CancelRegistry_is_cancelled tid ((CancelRegistry_cleanup tid False ^^ n) (CancelRegistry_request_cancel tid cr))
   \<and> CancelRegistry_is_cancelled tid (CancelRegistry_on_cancel tid (CancelRegistry_request_cancel tid cr))
   \<and> \<not> CancelRegistry_is_cancelled tid (CancelRegistry_cleanup tid True cr)"
  using mem_cancel.request_survives_pauses mem_cancel.release_forgets
  by (simp add: mem_cancel.set_scope mem_cancel.set_request)

section \<open>Hooks and metrics\<close>

text \<open>Property C36: lifecycle hooks fire exactly once per stored transition, after the write, in the order of the code,
  and never for a refused write; an exception of a hook changes nothing.\<close>

theorem hooks_fire_once:
  assumes "emitter_ok (HookableEmitter DefaultEventEmitter h)"
    and "emitter_update_task env (HookableEmitter DefaultEventEmitter h) tid u w = (r, w')"
  shows "r = fst (storage_update_task env tid u w) \<and> (case r of Inl _ \<Rightarrow> w_trace w' = w_trace w
    | Inr v \<Rightarrow> w_trace w' = w_trace w @ EWrite tid u v #
        (case u_state u of None \<Rightarrow> [] | Some st \<Rightarrow> hook_effects h tid st (u_status_message u)))"
proof -
  obtain r0 w0 where w0: "storage_update_task env tid u w = (r0, w0)" by fastforce
  note tr = mem.update_trace [OF w0]
  have hooks: "fire_hooks h tid st m w0 = (Inr (), w0\<lparr>w_trace := w_trace w0 @ hook_effects h tid st m\<rparr>)" for st m
    by (rule fire_hooks_returns [OF assms(1)])
  show ?thesis
    using assms(2) tr by (cases r0; cases "u_state u")
      (auto simp: w0 hooks bindE_def thenE_def tryE_def ret_def raise_def)
qed

definition noisy_hooks :: lifecycle_hooks where
  "noisy_hooks = \<lparr>lh_on_state_change = Some (\<lambda>_ _ _. Some (ValueError ''hook'')), lh_on_working = None,
     lh_on_turn_end = None, lh_on_terminal = Some (\<lambda>_ _ _. None)\<rparr>"

theorem hooks_fire_once_witness:
  "\<exists>w'. emitter_update_task sample_env (HookableEmitter DefaultEventEmitter noisy_hooks) ''t1''
      (no_update\<lparr>u_state := Some task_state_failed\<rparr>) (sample_world []) = (Inr 3, w')
    \<and> w_trace w' = [EWrite ''t1'' (no_update\<lparr>u_state := Some task_state_failed\<rparr>) 3,
        EHook OnStateChange ''t1'' (Some task_state_failed) None, EHook OnTerminal ''t1'' (Some task_state_failed) None]"
proof -
  let ?u = "no_update\<lparr>u_state := Some task_state_failed\<rparr>"
  have ok: "emitter_ok (HookableEmitter DefaultEventEmitter noisy_hooks)"
    by (simp add: noisy_hooks_def hook_ok_def)
  obtain t where t: "mem_view (w_store (sample_world [])) ''t1'' = Some (t, 2)" "t_state t \<notin> TERMINAL_STATES"
    using working_view(2) by auto
  obtain w0 where w0: "storage_update_task sample_env ''t1'' ?u (sample_world []) = (Inr 3, w0)"
    using mem.update_quiet [OF sample_env_simps(1) _ _ _ t(1), of ?u] t(2) working_view(1)
    by (auto simp: valid_update_def)
  obtain r w' where w': "emitter_update_task sample_env (HookableEmitter DefaultEventEmitter noisy_hooks) ''t1'' ?u
      (sample_world []) = (r, w')" by fastforce
  from hooks_fire_once [OF ok w'] w0 w' show ?thesis
    by (auto simp: hook_effects_def noisy_hooks_def)
qed

text \<open>The gauge of active tasks drifts. A task that is worked on in two turns and then completes counts
  twice when it starts working and only once when it ends, so the gauge stays one too high for ever.\<close>

theorem active_gauge_drifts:
  "mt_active (record_state_metric n4 task_state_completed tid (record_state_metric n3 task_state_working tid
     (record_state_metric n2 task_state_input_required tid (record_state_metric n1 task_state_working tid m))))
   = mt_active m + 1"
  by (simp add: record_state_metric_def Let_def)

section \<open>Operations\<close>

text \<open>Property C7: whatever the user worker does and whatever other clients do to the storage meanwhile, the handling
  of one queued operation keeps the storage invariant and the life of the task, and every terminal marker it
  publishes announces a state that was stored before, on success, failure, cancellation and shutdown.\<close>

theorem handle_op_safe:
  assumes "e_so (ad_env ad) = InMemoryStorage_ops" and "emitter_ok (ad_emitter ad)"
    and "rely mem_inv mem_view tid w" and "handle_op ad h w = (r, w')"
  shows "mem_inv (w_store w') \<and> task_le (mem_view (w_store w) tid) (mem_view (w_store w') tid)
    \<and> prefix (w_trace w) (w_trace w') \<and> (announced_ok (w_trace w) \<longrightarrow> announced_ok (w_trace w'))"
  using keepsE [OF mem.keeps_handle_op [OF assms(1,2)] assms(4), of tid] assms(3)
  by (auto simp: guar_def rely_def anno_def)

definition stubborn :: worker_prog where
  "stubborn = Call (SendStatus (Some ''working'')) (\<lambda>_. Await (\<lambda>_. Call (Complete None ''a'') (\<lambda>_. RaiseE (WorkerError ''late''))))"

definition sample_adapter :: "(mem_store, bus_item list) adapter" where
  "sample_adapter = \<lparr>ad_env = sample_env, ad_emitter = DefaultEventEmitter, ad_worker = (\<lambda>_. stubborn),
     ad_max_retries = 3, ad_schedule = [\<lparr>ap_requested = True, ap_interrupted = False\<rparr>], ad_shutdown = False\<rparr>"

definition sample_op :: enqueued_op where
  "sample_op = \<lparr>eo_op = \<lparr>ro_params = \<lparr>sr_message = sample_message\<lparr>m_task_id := Some ''t1'', m_context_id := Some ''c1''\<rparr>,
     sr_configuration = None, sr_tenant = None\<rparr>, ro_is_new_task = True, ro_request_context = []\<rparr>, eo_attempt = 1\<rparr>"

lemma sample_adapter_simps [simp]:
  "ad_env sample_adapter = sample_env" "ad_emitter sample_adapter = DefaultEventEmitter" "ad_max_retries sample_adapter = 3"
  "eo_attempt sample_op = 1" "m_task_id (sr_message (ro_params (eo_op sample_op))) = Some ''t1''"
  by (simp_all add: sample_adapter_def sample_op_def)

theorem handle_op_safe_witness:
  "\<exists>r w'. handle_op sample_adapter sample_op (sample_world [id, rival, id, rival]) = (r, w')
    \<and> mem_inv (w_store w') \<and> announced_ok (w_trace w')"
proof -
  let ?w = "sample_world [id, rival, id, rival]"
  obtain r w' where w': "handle_op sample_adapter sample_op ?w = (r, w')" by fastforce
  have "rely mem_inv mem_view ''t1'' ?w"
    using rival_honours working_view(1) by (auto simp: rely_def honours_def)
  from handle_op_safe [OF _ _ this w'] have "mem_inv (w_store w') \<and> announced_ok (w_trace w')"
    by (simp add: announced_ok_def)
  with w' show ?thesis by blast
qed



text \<open>Property C28: retries are bounded. Handling an operation leaves the queue as it was, or puts the operation back
  with the next attempt number, and the latter only while the number of attempts is below the limit.\<close>

theorem retries_bounded:
  assumes "handle_op ad h w = (r, w')"
  shows "w_broker w' = w_broker w
    \<or> eo_attempt h < ad_max_retries ad \<and> w_broker w' = (w_broker w)\<lparr>br_queue := br_queue (w_broker w)
        @ [\<lparr>eo_op = eo_op h, eo_attempt = eo_attempt h + 1\<rparr>]\<rparr>"
  by (rule handle_op_queue [OF assms])

theorem retries_bounded_witness:
  "br_queue (w_broker (snd (handle_op sample_adapter (sample_op\<lparr>eo_attempt := 3\<rparr>) (sample_world [])))) = []"
proof -
  obtain r w' where w': "handle_op sample_adapter (sample_op\<lparr>eo_attempt := 3\<rparr>) (sample_world []) = (r, w')" by fastforce
  from retries_bounded [OF w'] w' show ?thesis by (simp add: sample_world_def)
qed

text \<open>Property C27: the queue drains. A consumer that handles operations until the queue is empty ends, for every user
  worker, after at most as many operations as there are attempts left; no operation is retried for ever.\<close>

theorem queue_drains:
  "\<exists>w'. drain (Suc (queue_work (ad_max_retries ad) (br_queue (w_broker w)))) ad w = Some w'
    \<and> br_queue (w_broker w') = []"
  by (rule drain_empties) simp

text \<open>The receive loop backs off exponentially: the \<open>i\<close>-th of consecutive failures is followed by a pause of
  \<open>min (2 ^ i) 30\<close> seconds, and a received operation is started and resets the pause to one second.\<close>

theorem receive_backoff:
  "broker_loop 1 (xs @ Received h # replicate n ReceiveFailed)
    = broker_loop 1 xs @ StartOp h # map (\<lambda>i. Sleep (min (2 ^ i) 30)) [0..<n]"
  using broker_loop_failures [of 0 n] by (simp add: broker_loop_append_received)

end
