(* ===== verification/Manager_Properties.thy ===== *)
theory Manager_Properties
  imports Manager_Laws Turn_Properties
begin

text \<open>
  Properties of the task manager on the in-memory backend: submission, races, idempotent retries, cancellation and
  broker failures.
\<close>

definition sample_tm :: "(mem_store, bus_item list) task_manager" where
  "sample_tm = \<lparr>tm_env = sample_env, tm_emitter = DefaultEventEmitter, tm_input_modes = [''text/plain''],
     tm_cancel_force_timeout_s = 60, tm_new_stream = []\<rparr>"

lemma sample_tm_simps [simp]: "tm_env sample_tm = sample_env" "tm_emitter sample_tm = DefaultEventEmitter"
  by (simp_all add: sample_tm_def)

definition reply_message :: message where
  "reply_message = sample_message\<lparr>m_message_id := ''m2'', m_task_id := Some ''t1'', m_context_id := Some ''c1''\<rparr>"

text \<open>The sample task when it waits for input.\<close>

definition pause_it :: update where
  "pause_it = no_update\<lparr>u_state := Some task_state_input_required\<rparr>"

definition paused_store :: mem_store where
  "paused_store = snd (InMemoryStorage_update_task ''2027'' ''t1'' pause_it sample_store)"

lemma paused_task: "mem_inv paused_store" "\<exists>t. mem_view paused_store ''t1'' = Some (t, 2)
    \<and> t_state t = task_state_input_required \<and> t_context_id t = ''c1'' \<and> history_list t = history_list sample_task"
proof -
  have s: "u_state pause_it = Some task_state_input_required" "u_expected_version pause_it = None" "valid_update pause_it"
    "u_messages pause_it = None"
    by (simp_all add: pause_it_def valid_update_def)
  obtain t where t: "apply_update ''2027'' pause_it sample_task = Inr t"
    using valid_update_applies [OF s(3) mem.view_meta [OF sample_view(1,2)]] by blast
  have "t_context_id t = ''c1''" "history_list t = history_list sample_task"
    using apply_update_fields(2,3) [OF t] s(4) by (simp_all add: sample_task_def)
  with mem.update_ok [OF sample_view(1,2) _ _ s(3) t] s sample_view(4) apply_update_fields(5) [OF t]
  show "mem_inv paused_store" "\<exists>t. mem_view paused_store ''t1'' = Some (t, 2)
    \<and> t_state t = task_state_input_required \<and> t_context_id t = ''c1'' \<and> history_list t = history_list sample_task"
    by (auto simp: paused_store_def)
qed

section \<open>Follow-up messages\<close>



text \<open>Property C10: of two concurrent follow-ups at most one is accepted. If anyone else changes the task between the moment
  a follow-up reads its version and the moment it writes, the follow-up is not accepted for processing: it
  ends with an error, or finds that its own twin has stored the same message.\<close>

theorem concurrent_follow_ups:
  assumes "e_so (tm_env tm) = InMemoryStorage_ops" and "emitter_ok (tm_emitter tm)" and "rely mem_inv mem_view tid w"
    and "m_task_id m = Some tid" and "w_interf w = f0 # f1 # f2 # fs" and "mem_view (f0 (w_store w)) tid = Some (t1, v1)"
    and "mem_view (f2 (f1 (f0 (w_store w)))) tid = Some (t3, v3)" and "v3 \<noteq> v1"
  shows "submit_follow_up tm m w \<noteq> (Inr (t, True), w')"
  using mem.follow_up_race [OF assms] by (auto simp: wp_def)

theorem concurrent_follow_ups_witness:
  "\<forall>t w'. submit_follow_up sample_tm reply_message (sample_world [id, id, rival]) \<noteq> (Inr (t, True), w')"
proof -
  let ?w = "sample_world [id, id, rival]"
  obtain t1 where t1: "mem_view working_store ''t1'' = Some (t1, 2)" "t_state t1 \<notin> TERMINAL_STATES"
    using working_view(2) by auto
  let ?u = "no_update\<lparr>u_state := Some task_state_completed\<rparr>"
  have u: "valid_update ?u" by (simp add: valid_update_def)
  obtain t3 where "apply_update ''2028'' ?u t1 = Inr t3"
    using valid_update_applies [OF u mem.view_meta [OF working_view(1) t1(1)]] by blast
  from mem.update_ok [OF working_view(1) t1(1) _ _ u this] t1(2)
  have "mem_view (rival working_store) ''t1'' = Some (t3, 3)" by (auto simp: rival_def)
  moreover have "rely mem_inv mem_view ''t1'' ?w"
    using rival_honours working_view(1) by (auto simp: rely_def honours_def)
  ultimately show ?thesis
    using t1 by (intro allI concurrent_follow_ups [where tid = "''t1''" and ?f0.0 = id and ?f1.0 = id and ?f2.0 = rival
        and ?t1.0 = t1 and ?v1.0 = 2 and ?t3.0 = t3 and ?v3.0 = 3]) (simp_all add: reply_message_def)
qed

section \<open>Retries of a submission\<close>

text \<open>Property C12: a client may repeat a message. The first \<^verbatim>\<open>message/send\<close> creates the task and hands exactly one operation to
  the broker; a repetition with the same context and message id creates nothing, enqueues nothing, and changes
  neither the storage nor the push configurations.\<close>

theorem resubmission_enqueues_once:
  assumes "e_so (tm_env tm) = InMemoryStorage_ops" and "mem_inv (w_store w)" and "quiet w" and "new_request tm params ctx"
    and "mem_idem (w_store w) ctx (m_message_id (sr_message params)) = None"
    and "uid = e_uuid (tm_env tm) (w_tick w)" and "mem_view (w_store w) uid = None"
  shows "\<exists>r1 w1 r2 w2. send_message tm params rc ev w = (Inr r1, w1) \<and> send_message tm params rc' ev' w1 = (Inr r2, w2)
    \<and> w_background w1 = w_background w @ [EnqueueOrFail uid (bind_message params ctx uid) True rc]
    \<and> w_store w2 = w_store w1 \<and> w_background w2 = w_background w1 \<and> w_push w2 = w_push w1"
proof -
  from mem.wp_send_new [OF assms, of rc ev "\<lambda>_ _. False"] obtain r1 w1 where
    w1: "send_message tm params rc ev w = (Inr r1, w1)" "mem_inv (w_store w1)" "quiet w1"
    "mem_idem (w_store w1) ctx (m_message_id (sr_message params)) = Some uid"
    "w_background w1 = w_background w @ [EnqueueOrFail uid (bind_message params ctx uid) True rc]"
    by (auto simp: wp_def split: prod.splits sum.splits)
  from mem.wp_send_known [OF assms(1) w1(2,3) assms(4) w1(4), of rc' ev' "\<lambda>_ _. False"] obtain r2 w2 where
    "send_message tm params rc' ev' w1 = (Inr r2, w2)" "w_store w2 = w_store w1" "kept w1 w2"
    by (auto simp: wp_def split: prod.splits sum.splits)
  with w1 show ?thesis by (auto simp: kept_def)
qed

definition sample_request :: send_request where
  "sample_request = \<lparr>sr_message = sample_message\<lparr>m_message_id := ''m7'', m_context_id := Some ''c7''\<rparr>,
     sr_configuration = None, sr_tenant = Some ''acme''\<rparr>"

lemma sample_new_request: "new_request sample_tm sample_request ''c7''"
  by (simp add: new_request_def sample_request_def sample_message_def accepts_modes_def sample_tm_def
      effective_mode_def part_kind_def text_part_def empty_part_def request_history_length_def valid_length_def)

definition empty_world :: "(mem_store, bus_item list) world" where
  "empty_world = (sample_world [])\<lparr>w_store := InMemoryStorage_init\<rparr>"

lemma empty_world_simps:
  "w_store empty_world = InMemoryStorage_init" "quiet empty_world" "mem_view InMemoryStorage_init tid = None"
  "mem_idem InMemoryStorage_init c k = None"
  by (simp_all add: empty_world_def quiet_def mem_view_def mem_idem_def InMemoryStorage_init_def)

theorem resubmission_enqueues_once_witness:
  "\<exists>r1 w1 r2 w2. send_message sample_tm sample_request None [] empty_world = (Inr r1, w1)
    \<and> send_message sample_tm sample_request None [] w1 = (Inr r2, w2)
    \<and> length (w_background w1) = 1 \<and> w_background w2 = w_background w1"
  using resubmission_enqueues_once [OF _ _ empty_world_simps(2) sample_new_request _ refl, of None "[]" None "[]"] mem_inv_init
  by (auto simp: empty_world_simps) (auto simp: empty_world_def sample_world_def)

section \<open>Cancellation and broker failures\<close>

text \<open>Cancelling twice is cancelling once. Both requests return the task, nothing is written by either, the
  cancel key is set, and exactly one force-cancel timer is started.\<close>

theorem cancel_starts_one_timer:
  assumes "e_so (tm_env tm) = InMemoryStorage_ops" and "mem_inv (w_store w)" and "quiet w"
    and "mem_view (w_store w) tid = Some (t, v)" and "t_state t \<notin> TERMINAL_STATES"
    and "\<not> CancelRegistry_is_cancelled tid (w_cancel w)"
  shows "\<exists>w1 w2. cancel_task tm tid w = (Inr t, w1) \<and> cancel_task tm tid w1 = (Inr t, w2)
    \<and> CancelRegistry_is_cancelled tid (w_cancel w2) \<and> w_store w2 = w_store w
    \<and> w_background w2 = w_background w @ [ForceCancelAfter tid (tm_cancel_force_timeout_s tm)]"
proof -
  from mem.wp_cancel_task [OF assms(1-5), of "\<lambda>_ _. False"] assms(6) obtain w1 where
    w1: "cancel_task tm tid w = (Inr t, w1)" "mem_inv (w_store w1)" "quiet w1" "w_store w1 = w_store w" "cancel_set tid w1"
      "w_background w1 = w_background w @ [ForceCancelAfter tid (tm_cancel_force_timeout_s tm)]"
    by (auto simp: wp_def split: prod.splits sum.splits)
  from mem.wp_cancel_task [OF assms(1) w1(2,3) _ assms(5), where tid = tid and v = v and E = "\<lambda>_ _. False"] w1(4,5) assms(4) obtain w2 where
    "cancel_task tm tid w1 = (Inr t, w2)" "w_store w2 = w_store w1" "cancel_set tid w2" "w_background w2 = w_background w1"
    by (auto simp: wp_def split: prod.splits sum.splits)
  with w1 show ?thesis by auto
qed

theorem cancel_starts_one_timer_witness:
  "\<exists>t w1 w2. cancel_task sample_tm ''t1'' (sample_world []) = (Inr t, w1) \<and> cancel_task sample_tm ''t1'' w1 = (Inr t, w2)
    \<and> w_background w2 = [ForceCancelAfter ''t1'' 60]"
proof -
  obtain t where t: "mem_view (w_store (sample_world [])) ''t1'' = Some (t, 2)" "t_state t \<notin> TERMINAL_STATES"
    using working_view(2) by auto
  have f: "\<not> CancelRegistry_is_cancelled ''t1'' (w_cancel (sample_world []))"
    "w_background (sample_world []) = []" "tm_cancel_force_timeout_s sample_tm = 60"
    by (simp_all add: sample_world_def CancelRegistry_is_cancelled_def sample_tm_def)
  from cancel_starts_one_timer [OF _ _ _ t f(1), of sample_tm] working_view(1) show ?thesis
    unfolding f by auto
qed




definition broken_tm :: "(mem_store, bus_item list) task_manager" where
  "broken_tm = sample_tm\<lparr>tm_env := sample_env\<lparr>e_broker_fault := (\<lambda>_. Some (False, WorkerError ''connection lost''))\<rparr>\<rparr>"


text \<open>Property C26: background work under interference. Whatever other clients do meanwhile, the enqueueing coroutine
  and the force-cancel timer keep the storage invariant and the life of their task, and every terminal marker
  they publish announces a state that was stored before.\<close>

theorem background_safe:
  assumes "e_so (tm_env tm) = InMemoryStorage_ops" and "emitter_ok (tm_emitter tm)"
    and "b = EnqueueOrFail tid params is_new rc \<or> b = ForceCancelAfter tid d"
    and "rely mem_inv mem_view tid w" and "run_background tm b w = (r, w')"
  shows "mem_inv (w_store w') \<and> task_le (mem_view (w_store w) tid) (mem_view (w_store w') tid)
    \<and> prefix (w_trace w) (w_trace w') \<and> (announced_ok (w_trace w) \<longrightarrow> announced_ok (w_trace w'))"
proof -
  have "keeps (guar mem_inv mem_view tid) (run_background tm b)"
    using assms(3) by (elim disjE; simp only: run_background.simps enqueue_or_fail_def;
        intro keeps_intros mem.keeps_enqueue_failed mem.keeps_force_cancel assms(1,2))
  from keepsE [OF this assms(5)] assms(4) show ?thesis by (auto simp: guar_def rely_def anno_def)
qed

theorem background_safe_witness:
  "\<exists>r w'. run_background sample_tm (ForceCancelAfter ''t1'' 60) (sample_world [id, rival]) = (r, w')
    \<and> mem_inv (w_store w') \<and> announced_ok (w_trace w')"
proof -
  let ?w = "sample_world [id, rival]"
  obtain r w' where w': "run_background sample_tm (ForceCancelAfter ''t1'' 60) ?w = (r, w')" by fastforce
  have "rely mem_inv mem_view ''t1'' ?w"
    using rival_honours working_view(1) by (auto simp: rely_def honours_def)
  from background_safe [OF _ _ _ this w', where d = 60] have "mem_inv (w_store w') \<and> announced_ok (w_trace w')"
    by (simp add: announced_ok_def)
  with w' show ?thesis by blast
qed

section \<open>Reconnection and retried streams\<close>

text \<open>Property C39: reconnecting to a task that has ended meanwhile yields its snapshot and nothing else: the events that
  were published after the given id are not replayed, although the bus may still hold them.\<close>

theorem terminal_reconnect_snapshot_only:
  assumes "e_so (tm_env tm) = InMemoryStorage_ops" and "mem_inv (w_store w)" and "quiet w"
    and "mem_view (w_store w) tid = Some (t, v)" and "t_state t \<in> TERMINAL_STATES"
  shows "\<exists>w'. subscribe_task tm tid (Some last_id) received w = (Inr [(None, TaskSnapshot t)], w')"
  using mem.wp_subscribe_terminal [OF assms, where a = last_id and received = received and E = "\<lambda>_ _. False"]
  by (auto simp: wp_def split: prod.splits sum.splits)

lemma rival_view: "mem_inv (rival working_store)" "\<exists>t. mem_view (rival working_store) ''t1'' = Some (t, 3) \<and> t_state t = task_state_completed"
proof -
  let ?u = "no_update\<lparr>u_state := Some task_state_completed\<rparr>"
  obtain t1 where t1: "mem_view working_store ''t1'' = Some (t1, 2)" "t_state t1 \<notin> TERMINAL_STATES"
    using working_view(2) by auto
  have u: "valid_update ?u" by (simp add: valid_update_def)
  obtain t3 where t3: "apply_update ''2028'' ?u t1 = Inr t3"
    using valid_update_applies [OF u mem.view_meta [OF working_view(1) t1(1)]] by blast
  from mem.update_ok [OF working_view(1) t1(1) _ _ u t3] t1(2) apply_update_fields(5) [OF t3]
  show "mem_inv (rival working_store)" "\<exists>t. mem_view (rival working_store) ''t1'' = Some (t, 3) \<and> t_state t = task_state_completed"
    by (auto simp: rival_def)
qed

theorem terminal_reconnect_snapshot_only_witness:
  "\<exists>t w'. subscribe_task sample_tm ''t1'' (Some ''0'') [] ((sample_world [])\<lparr>w_store := rival working_store\<rparr>)
    = (Inr [(None, TaskSnapshot t)], w')"
proof -
  obtain t where t: "mem_view (rival working_store) ''t1'' = Some (t, 3)" "t_state t = task_state_completed"
    using rival_view(2) by blast
  from terminal_reconnect_snapshot_only [of sample_tm "(sample_world [])\<lparr>w_store := rival working_store\<rparr>" "''t1''" t 3 "''0''" "[]"]
    t rival_view(1) show ?thesis by (auto simp: quiet_def)
qed

lemma length_update: "length (AList.update k v d) = (if map_of d k = None then Suc (length d) else length d)"
  by (induction d) auto

text \<open>Property C38: a retried \<^verbatim>\<open>message/stream\<close> registers its inline push configuration again. The task is
  recognised and not run twice, but a configuration without an id is stored once more under a new id, so the
  client's receiver gets every notification once per retry.\<close>

theorem stream_retry_duplicates_push:
  assumes "e_so (tm_env tm) = InMemoryStorage_ops" and "mem_inv (w_store w)" and "quiet w" and "new_request tm params ctx"
    and "mem_idem (w_store w) ctx (m_message_id (sr_message params)) = Some tid" and "w_push w = Some ps"
    and "extract_inline_push_config params = Some cfg" and "pc_id cfg = None"
    and "\<forall>n. map_of (configs_of ps tid) (e_uuid (tm_env tm) n) = None"
  shows "\<exists>ps'. w_push (snd (stream_message tm params rc received w)) = Some ps'
    \<and> length (push_list_configs tid ps') = length (push_list_configs tid ps) + 1"
proof -
  obtain n where "w_push (snd (stream_message tm params rc received w)) = Some (snd (push_set_config (e_uuid (tm_env tm) n) tid cfg ps))"
    using mem.wp_stream_known [OF assms(1-7), of rc received] by (auto simp: wp_def split: prod.splits sum.splits)
  with assms(8,9) show ?thesis
    by (simp add: push_set_config_def push_list_configs_def Let_def length_update)
qed

definition hook_push :: inline_push where
  "hook_push = \<lparr>ip_id = None, ip_url = ''https://example.com/hook'', ip_token = None, ip_auth_v10 = None, ip_auth_v03 = None\<rparr>"

definition sample_push_request :: send_request where
  "sample_push_request = \<lparr>sr_message = sample_message\<lparr>m_context_id := Some ''c1''\<rparr>,
     sr_configuration = Some \<lparr>sc_return_immediately = None, sc_history_length = None, sc_accepted_output_modes = [],
       sc_task_push = Some hook_push, sc_push_v03 = None\<rparr>, sr_tenant = None\<rparr>"

lemma sample_push_request_new: "new_request sample_tm sample_push_request ''c1''"
  by (simp add: new_request_def sample_push_request_def sample_message_def accepts_modes_def sample_tm_def
      effective_mode_def part_kind_def text_part_def empty_part_def request_history_length_def valid_length_def)

theorem stream_retry_duplicates_push_witness:
  "\<exists>ps'. w_push (snd (stream_message sample_tm sample_push_request None [] ((sample_world [])\<lparr>w_store := sample_store\<rparr>))) = Some ps'
    \<and> length (push_list_configs ''t1'' ps') = 1"
proof -
  let ?w = "(sample_world [])\<lparr>w_store := sample_store\<rparr>"
  have f: "mem_inv (w_store ?w)" "quiet ?w" "w_push ?w = Some []"
    "mem_idem (w_store ?w) ''c1'' (m_message_id (sr_message sample_push_request)) = Some ''t1''"
    "extract_inline_push_config sample_push_request = Some \<lparr>pc_id = None, pc_url = ''https://example.com/hook'',
       pc_token = None, pc_authentication = None\<rparr>"
    using sample_view(1,3)
    by (simp_all add: quiet_def sample_world_def sample_push_request_def sample_message_def extract_inline_push_config_def hook_push_def)
  from stream_retry_duplicates_push [OF _ f(1,2) sample_push_request_new f(4,3,5), of None "[]"] show ?thesis
    by (auto simp: push_list_configs_def)
qed

section \<open>Push configurations\<close>

text \<open>The configuration store. A configuration that was set is found under the id that was returned and no
  other entry changes; deleting it reports success once, removes exactly it, and reports a second deletion as missing.\<close>

theorem push_config_laws:
  assumes "push_set_config uid tid c ps = (stored, ps1)" and "tp_id stored = Some cid" and "cid \<noteq> []"
    and "push_delete_config tid cid ps1 = (found, ps2)"
  shows "push_get_config tid (Some cid) ps1 = Some stored
    \<and> (k \<noteq> [] \<and> (tid', k) \<noteq> (tid, cid) \<longrightarrow> push_get_config tid' (Some k) ps1 = push_get_config tid' (Some k) ps
        \<and> push_get_config tid' (Some k) ps2 = push_get_config tid' (Some k) ps)
    \<and> found \<and> push_get_config tid (Some cid) ps2 = None \<and> \<not> fst (push_delete_config tid cid ps2)"
proof -
  have cid: "cid = or_else (pc_id c) uid" using mem_push.set_id [of uid tid c ps] assms(1,2) by simp
  have "ps1 = snd (push_set_config uid tid c ps)" "stored = fst (push_set_config uid tid c ps)"
    "ps2 = snd (push_delete_config tid cid ps1)" "found = fst (push_delete_config tid cid ps1)"
    using assms(1,4) by simp_all
  with assms(3) cid show ?thesis
    by (auto simp: mem_push.get_set mem_push.get_delete mem_push.delete_result)
qed

theorem push_config_laws_witness:
  "\<exists>stored ps1. push_set_config ''u0'' ''t1'' \<lparr>pc_id = None, pc_url = ''https://example.com/hook'', pc_token = None,
      pc_authentication = None\<rparr> [] = (stored, ps1) \<and> push_get_config ''t1'' (Some ''u0'') ps1 = Some stored"
proof -
  let ?c = "\<lparr>pc_id = None, pc_url = ''https://example.com/hook'', pc_token = None, pc_authentication = None\<rparr>"
  obtain stored ps1 where s: "push_set_config ''u0'' ''t1'' ?c [] = (stored, ps1)" by fastforce
  have "tp_id stored = Some ''u0''" using mem_push.set_id [of "''u0''" "''t1''" ?c "[]"] s by simp
  from push_config_laws [OF s this _ prod.collapse [symmetric]] s show ?thesis by simp
qed

end
