(* ===== verification/Net_Address.thy ===== *)
theory Net_Address
  imports A2A_Prelude "HOL-Library.Word"
begin

text \<open>
  What the webhook code uses of Python's \<^verbatim>\<open>str\<close> and \<^verbatim>\<open>ipaddress\<close>: partitioning of strings, parsing and printing of
  addresses, and the classification \<^verbatim>\<open>is_global\<close> by the networks of the IANA registries (as of Python 3.11).
  Addresses are words of their width; a string is a list of characters below 256.
\<close>

unbundle bit_operations_syntax

section \<open>Strings\<close>

text \<open>\<^verbatim>\<open>s.partition(c)\<close>: the part before, whether the separator occurs, the part after.\<close>

definition partition_str :: "char \<Rightarrow> string \<Rightarrow> string \<times> bool \<times> string" where
  "partition_str c s = (takeWhile (\<lambda>x. x \<noteq> c) s, c \<in> set s, tl (dropWhile (\<lambda>x. x \<noteq> c) s))"

text \<open>\<^verbatim>\<open>s.rpartition(c)\<close>; without a separator everything is in the last component.\<close>

definition rpartition_str :: "char \<Rightarrow> string \<Rightarrow> string \<times> bool \<times> string" where
  "rpartition_str c s =
     (rev (tl (dropWhile (\<lambda>x. x \<noteq> c) (rev s))), c \<in> set s, rev (takeWhile (\<lambda>x. x \<noteq> c) (rev s)))"

fun split_on :: "char \<Rightarrow> string \<Rightarrow> string list" where
  "split_on c [] = [[]]"
| "split_on c (x # xs) =
     (if x = c then [] # split_on c xs
      else case split_on c xs of [] \<Rightarrow> [[x]] | y # ys \<Rightarrow> (x # y) # ys)"

fun join_with :: "string \<Rightarrow> string list \<Rightarrow> string" where
  "join_with sep [] = []"
| "join_with sep [x] = x"
| "join_with sep (x # y # ys) = x @ sep @ join_with sep (y # ys)"

text \<open>\<^verbatim>\<open>str.lower\<close> on characters below 256.\<close>

definition lower_char :: "char \<Rightarrow> char" where
  "lower_char c = (let n = of_char c :: nat in
     if 65 \<le> n \<and> n \<le> 90 \<or> 192 \<le> n \<and> n \<le> 222 \<and> n \<noteq> 215 then char_of (n + 32) else c)"

definition lower :: "string \<Rightarrow> string" where
  "lower s = map lower_char s"

fun hex_str :: "nat \<Rightarrow> string" where
  "hex_str n = (if n < 16 then [hex_digit n] else hex_str (n div 16) @ [hex_digit (n mod 16)])"

declare hex_str.simps [simp del]

definition hex_value :: "char \<Rightarrow> nat option" where
  "hex_value c = (let n = of_char c :: nat in
     if 48 \<le> n \<and> n \<le> 57 then Some (n - 48)
     else if 97 \<le> n \<and> n \<le> 102 then Some (n - 87)
     else if 65 \<le> n \<and> n \<le> 70 then Some (n - 55) else None)"

section \<open>Parsing\<close>

datatype ip = IPv4 "32 word" | IPv6 "128 word" "string option"

definition parse_octet :: "string \<Rightarrow> nat option" where
  "parse_octet s =
     (if s = [] \<or> \<not> list_all is_digit s \<or> length s > 3 \<or> s \<noteq> ''0'' \<and> hd s = CHR ''0'' then None
      else case parse_digits 0 False s of None \<Rightarrow> None | Some n \<Rightarrow> if n > 255 then None else Some n)"

text \<open>All results, or none if one is missing.\<close>

fun all_some :: "'a option list \<Rightarrow> 'a list option" where
  "all_some [] = Some []"
| "all_some (None # xs) = None"
| "all_some (Some x # xs) = map_option ((#) x) (all_some xs)"

definition v4_int :: "string \<Rightarrow> nat option" where
  "v4_int s = (let octets = split_on (CHR ''.'') s in
     if s = [] \<or> length octets \<noteq> 4 then None
     else map_option (foldl (\<lambda>acc b. 256 * acc + b) 0) (all_some (map parse_octet octets)))"

definition parse_hextet :: "string \<Rightarrow> nat option" where
  "parse_hextet s =
     (if s = [] \<or> length s > 4 then None
      else map_option (foldl (\<lambda>acc d. 16 * acc + d) 0) (all_some (map hex_value s)))"

text \<open>The parts between the colons, with a dotted suffix rewritten as two groups.\<close>

definition v6_parts :: "string \<Rightarrow> string list option" where
  "v6_parts s = (let parts = split_on (CHR '':'') s in
     if s = [] \<or> length parts < 3 then None
     else if CHR ''.'' \<in> set (last parts)
     then map_option (\<lambda>n. butlast parts @ [hex_str (n div 65536), hex_str (n mod 65536)]) (v4_int (last parts))
     else Some parts)"

definition v6_value :: "string list \<Rightarrow> nat \<Rightarrow> string list \<Rightarrow> nat option" where
  "v6_value hi skipped lo =
     map_option (foldl (\<lambda>acc h. 65536 * acc + h) 0)
       (all_some (map parse_hextet hi @ replicate skipped (Some 0) @ map parse_hextet lo))"

definition v6_int :: "string \<Rightarrow> nat option" where
  "v6_int s = (case v6_parts s of None \<Rightarrow> None | Some parts \<Rightarrow>
     if length parts > 9 then None
     else case filter (\<lambda>i. parts ! i = []) [1..<length parts - 1] of
         [] \<Rightarrow> if length parts \<noteq> 8 \<or> hd parts = [] \<or> last parts = [] then None else v6_value parts 0 []
       | [i] \<Rightarrow>
           let hi = (if hd parts = [] then i - 1 else i);
               lo = (if last parts = [] then length parts - i - 2 else length parts - i - 1)
           in if hd parts = [] \<and> hi \<noteq> 0 \<or> last parts = [] \<and> lo \<noteq> 0 \<or> hi + lo > 7 then None
              else v6_value (take hi parts) (8 - (hi + lo)) (drop (length parts - lo) parts)
       | _ \<Rightarrow> None)"

definition ip_address :: "string \<Rightarrow> ip option" where
  "ip_address s =
     (if CHR ''/'' \<in> set s then None
      else case v4_int s of Some n \<Rightarrow> Some (IPv4 (of_nat n))
      | None \<Rightarrow>
          (case partition_str (CHR ''%'') s of (addr, sep, scope) \<Rightarrow>
             if sep \<and> (scope = [] \<or> CHR ''%'' \<in> set scope) then None
             else map_option (\<lambda>n. IPv6 (of_nat n) (if sep then Some scope else None)) (v6_int addr)))"

section \<open>Printing\<close>

definition v4_str :: "32 word \<Rightarrow> string" where
  "v4_str w = join_with ''.'' (map (\<lambda>k. nat_str (unat (take_bit 8 (drop_bit k w)))) [24, 16, 8, 0])"

definition hextets :: "128 word \<Rightarrow> string list" where
  "hextets w = map (\<lambda>k. hex_str (unat (take_bit 16 (drop_bit k w)))) [112, 96, 80, 64, 48, 32, 16, 0]"

text \<open>Start and length of the first longest run of zero groups: index, current run, best run so far.\<close>

fun best_zeros :: "nat \<Rightarrow> nat \<Rightarrow> nat \<times> nat \<Rightarrow> string list \<Rightarrow> nat \<times> nat" where
  "best_zeros i n best [] = best"
| "best_zeros i n best (h # hs) =
     (if h = ''0''
      then best_zeros (Suc i) (Suc n) (if Suc n > snd best then (i - n, Suc n) else best) hs
      else best_zeros (Suc i) 0 best hs)"

definition compress_hextets :: "string list \<Rightarrow> string list" where
  "compress_hextets hs = (case best_zeros 0 0 (0, 0) hs of (start, len) \<Rightarrow>
     if len > 1 then
       let hs1 = (if start + len = length hs then hs @ [''''] else hs);
           hs2 = take start hs1 @ [''''] @ drop (start + len) hs1
       in if start = 0 then '''' # hs2 else hs2
     else hs)"

fun ip_str :: "ip \<Rightarrow> string" where
  "ip_str (IPv4 w) = v4_str w"
| "ip_str (IPv6 w scope) = join_with '':'' (compress_hextets (hextets w))
     @ (if truthy scope then CHR ''%'' # the scope else [])"

section \<open>Classification\<close>

definition in_net :: "'a::len word \<Rightarrow> 'a word \<times> nat \<Rightarrow> bool" where
  "in_net w net = (case net of (a, len) \<Rightarrow> drop_bit (LENGTH('a) - len) w = drop_bit (LENGTH('a) - len) a)"

definition v4 :: "nat \<Rightarrow> nat \<Rightarrow> nat \<Rightarrow> nat \<Rightarrow> 32 word" where
  "v4 a b c d = of_nat (((a * 256 + b) * 256 + c) * 256 + d)"

definition v4_private_networks :: "(32 word \<times> nat) list" where
  "v4_private_networks = [(v4 0 0 0 0, 8), (v4 10 0 0 0, 8), (v4 127 0 0 0, 8), (v4 169 254 0 0, 16), (v4 172 16 0 0, 12),
     (v4 192 0 0 0, 24), (v4 192 0 0 170, 31), (v4 192 0 2 0, 24), (v4 192 168 0 0, 16), (v4 198 18 0 0, 15),
     (v4 198 51 100 0, 24), (v4 203 0 113 0, 24), (v4 240 0 0 0, 4), (v4 255 255 255 255, 32)]"

definition v4_private_exceptions :: "(32 word \<times> nat) list" where
  "v4_private_exceptions = [(v4 192 0 0 9, 32), (v4 192 0 0 10, 32)]"

text \<open>An IPv6 address from its eight groups.\<close>

definition v6 :: "nat list \<Rightarrow> 128 word" where
  "v6 gs = of_nat (foldl (\<lambda>acc g. 65536 * acc + g) 0 gs)"

definition v6_private_networks :: "(128 word \<times> nat) list" where
  "v6_private_networks = [(v6 [0,0,0,0,0,0,0,1], 128), (v6 [0,0,0,0,0,0,0,0], 128), (v6 [0,0,0,0,0,0xffff,0,0], 96),
     (v6 [0x64,0xff9b,1,0,0,0,0,0], 48), (v6 [0x100,0,0,0,0,0,0,0], 64), (v6 [0x2001,0,0,0,0,0,0,0], 23),
     (v6 [0x2001,0xdb8,0,0,0,0,0,0], 32), (v6 [0x2002,0,0,0,0,0,0,0], 16), (v6 [0xfc00,0,0,0,0,0,0,0], 7),
     (v6 [0xfe80,0,0,0,0,0,0,0], 10)]"

definition v6_private_exceptions :: "(128 word \<times> nat) list" where
  "v6_private_exceptions = [(v6 [0x2001,1,0,0,0,0,0,1], 128), (v6 [0x2001,1,0,0,0,0,0,2], 128), (v6 [0x2001,3,0,0,0,0,0,0], 32),
     (v6 [0x2001,4,0x112,0,0,0,0,0], 48), (v6 [0x2001,0x20,0,0,0,0,0,0], 28), (v6 [0x2001,0x30,0,0,0,0,0,0], 28)]"

definition in_table :: "('a::len word \<times> nat) list \<Rightarrow> ('a word \<times> nat) list \<Rightarrow> 'a word \<Rightarrow> bool" where
  "in_table nets exceptions w \<longleftrightarrow> list_ex (in_net w) nets \<and> list_all (\<lambda>n. \<not> in_net w n) exceptions"

definition v4_is_private :: "32 word \<Rightarrow> bool" where
  "v4_is_private w = in_table v4_private_networks v4_private_exceptions w"

definition ipv4_mapped :: "128 word \<Rightarrow> 32 word option" where
  "ipv4_mapped w = (if drop_bit 32 w = 0xFFFF then Some (ucast w) else None)"

fun is_global :: "ip \<Rightarrow> bool" where
  "is_global (IPv4 w) = (\<not> in_net w (v4 100 64 0 0, 10) \<and> \<not> v4_is_private w)"
| "is_global (IPv6 w scope) = (\<not> (case ipv4_mapped w of Some w4 \<Rightarrow> v4_is_private w4
     | None \<Rightarrow> in_table v6_private_networks v6_private_exceptions w))"

section \<open>Lemmas\<close>

lemma takeWhile_sep: "c \<notin> set a \<Longrightarrow> takeWhile (\<lambda>x. x \<noteq> c) (a @ c # b) = a"
  and dropWhile_sep: "c \<notin> set a \<Longrightarrow> dropWhile (\<lambda>x. x \<noteq> c) (a @ c # b) = c # b"
  by (induction a) auto

lemma takeWhile_no_sep: "c \<notin> set s \<Longrightarrow> takeWhile (\<lambda>x. x \<noteq> c) s = s"
  and dropWhile_no_sep: "c \<notin> set s \<Longrightarrow> dropWhile (\<lambda>x. x \<noteq> c) s = []"
  by (induction s) auto

lemma partition_str_found [simp]: "c \<notin> set a \<Longrightarrow> partition_str c (a @ c # b) = (a, True, b)"
  by (simp add: partition_str_def takeWhile_sep dropWhile_sep)

lemma partition_str_absent [simp]: "c \<notin> set s \<Longrightarrow> partition_str c s = (s, False, [])"
  by (simp add: partition_str_def takeWhile_no_sep dropWhile_no_sep)

lemma rpartition_str_found [simp]: "c \<notin> set b \<Longrightarrow> rpartition_str c (a @ c # b) = (a, True, b)"
  by (simp add: rpartition_str_def takeWhile_sep dropWhile_sep)

lemma rpartition_str_absent [simp]: "c \<notin> set s \<Longrightarrow> rpartition_str c s = ([], False, s)"
  by (simp add: rpartition_str_def takeWhile_no_sep dropWhile_no_sep)

lemma set_partition_str:
  "set (fst (partition_str c s)) \<subseteq> set s" "set (snd (snd (partition_str c s))) \<subseteq> set s"
  by (auto simp: partition_str_def dest!: set_takeWhileD)
    (metis dropWhile.simps(1) list.set_sel(2) set_dropWhileD tl_Nil)

lemma set_rpartition_str: "set (fst (rpartition_str c s)) \<subseteq> set s"
proof
  fix x assume "x \<in> set (fst (rpartition_str c s))"
  then have "x \<in> set (tl (dropWhile (\<lambda>x. x \<noteq> c) (rev s)))" by (simp add: rpartition_str_def)
  then have "x \<in> set (dropWhile (\<lambda>x. x \<noteq> c) (rev s))" by (cases "dropWhile (\<lambda>x. x \<noteq> c) (rev s)") auto
  then show "x \<in> set s" by (auto dest: set_dropWhileD)
qed

text \<open>A printed address, without scope, consists of lower-case hexadecimal digits, dots and colons.\<close>

definition addr_char :: "char \<Rightarrow> bool" where
  "addr_char c \<longleftrightarrow> (let n = of_char c :: nat in n = 46 \<or> 48 \<le> n \<and> n \<le> 58 \<or> 97 \<le> n \<and> n \<le> 102)"

lemma hex_digit_addr: "n < 16 \<Longrightarrow> addr_char (hex_digit n)"
proof -
  assume "n < 16"
  then have "hex_digit n \<in> set ''0123456789abcdef''" unfolding hex_digit_def by (intro nth_mem) simp
  moreover have "list_all addr_char ''0123456789abcdef''" by (simp add: addr_char_def)
  ultimately show ?thesis by (simp only: list_all_iff)
qed

lemma hex_str_addr: "list_all addr_char (hex_str n)"
  by (induction n rule: hex_str.induct) (subst hex_str.simps, simp add: hex_digit_addr)

lemma digit_char_addr: "n < 10 \<Longrightarrow> addr_char (digit_char n)"
  by (simp add: addr_char_def digit_char_code)

lemma nat_str_addr: "list_all addr_char (nat_str n)"
  by (induction n rule: nat_str.induct) (subst nat_str.simps, simp add: digit_char_addr)

lemma join_with_addr:
  "list_all addr_char sep \<Longrightarrow> list_all (list_all addr_char) xs \<Longrightarrow> list_all addr_char (join_with sep xs)"
  by (induction sep xs rule: join_with.induct) auto

lemma compress_addr:
  assumes "list_all (list_all addr_char) hs"
  shows "list_all (list_all addr_char) (compress_hextets hs)"
proof -
  have "list_all (list_all addr_char) (take n hs)" "list_all (list_all addr_char) (drop n hs)" for n
    using assms by (auto simp: list_all_iff dest: in_set_takeD in_set_dropD)
  with assms show ?thesis
    by (simp add: compress_hextets_def Let_def case_prod_unfold)
qed

lemma ip_str_addr:
  assumes "case a of IPv4 w \<Rightarrow> True | IPv6 w scope \<Rightarrow> \<not> truthy scope"
  shows "list_all addr_char (ip_str a)"
proof (cases a)
  case (IPv4 w)
  then show ?thesis unfolding ip_str.simps v4_str_def
    by (simp only: ip_str.simps v4_str_def, intro join_with_addr) (simp_all add: nat_str_addr addr_char_def)
next
  case (IPv6 w scope)
  with assms show ?thesis
    by (simp, intro join_with_addr compress_addr) (simp_all add: hextets_def hex_str_addr addr_char_def)
qed

lemma addr_char_plain:
  "addr_char c \<Longrightarrow> lower_char c = c \<and> c \<notin> {CHR ''@'', CHR ''['', CHR '']'', CHR ''%'', CHR ''/'', CHR ''?'', CHR ''#''}
     \<and> (of_char c :: nat) \<notin> {9, 10, 13}"
  unfolding addr_char_def by (auto simp: lower_char_def Let_def)

end
