(* ===== verification/Web_Url.thy ===== *)
theory Web_Url
  imports Net_Address
begin

text \<open>
  What the webhook code uses of Python's \<^verbatim>\<open>urllib.parse\<close>: \<^verbatim>\<open>urlparse\<close> with its views \<^verbatim>\<open>username\<close>,
  \<^verbatim>\<open>password\<close>, \<^verbatim>\<open>hostname\<close>, \<^verbatim>\<open>port\<close>, and \<^verbatim>\<open>urlunparse\<close>. A \<^verbatim>\<open>ValueError\<close> is \<open>None\<close>. The check of
  compatibility characters never fires for characters below 256.
\<close>

record parse_result =
  u_scheme :: string
  u_netloc :: string
  u_path :: string
  u_params :: string
  u_query :: string
  u_fragment :: string

definition is_alpha :: "char \<Rightarrow> bool" where
  "is_alpha c \<longleftrightarrow> (let n = of_char c :: nat in 65 \<le> n \<and> n \<le> 90 \<or> 97 \<le> n \<and> n \<le> 122)"

definition scheme_char :: "char \<Rightarrow> bool" where
  "scheme_char c \<longleftrightarrow> is_alpha c \<or> is_digit c \<or> c \<in> {CHR ''+'', CHR ''-'', CHR ''.''}"

definition clean_url :: "string \<Rightarrow> string" where
  "clean_url s = filter (\<lambda>c. (of_char c :: nat) \<notin> {9, 10, 13}) (dropWhile (\<lambda>c. (of_char c :: nat) \<le> 32) s)"

definition split_scheme :: "string \<Rightarrow> string \<times> string" where
  "split_scheme s =
     (case partition_str (CHR '':'') s of (pre, sep, rest) \<Rightarrow>
        if sep \<and> pre \<noteq> [] \<and> is_alpha (hd pre) \<and> list_all scheme_char pre then (lower pre, rest) else ('''', s))"

definition netloc_end :: "char \<Rightarrow> bool" where
  "netloc_end c \<longleftrightarrow> c \<in> {CHR ''/'', CHR ''?'', CHR ''#''}"

text \<open>\<^verbatim>\<open>_check_bracketed_host\<close>.\<close>

definition bracketed_ok :: "string \<Rightarrow> bool" where
  "bracketed_ok h =
     (if h \<noteq> [] \<and> hd h = CHR ''v'' then
        (case partition_str (CHR ''.'') (tl h) of (hex, sep, rest) \<Rightarrow>
           sep \<and> hex \<noteq> [] \<and> list_all (\<lambda>c. hex_value c \<noteq> None) hex \<and> rest \<noteq> []
             \<and> list_all (\<lambda>c. c \<noteq> char_of (10 :: nat)) rest)
      else case ip_address h of Some (IPv6 w sc) \<Rightarrow> True | _ \<Rightarrow> False)"

definition netloc_ok :: "string \<Rightarrow> bool" where
  "netloc_ok netloc =
     (if CHR ''['' \<in> set netloc \<and> CHR '']'' \<in> set netloc
      then bracketed_ok (fst (partition_str (CHR '']'') (snd (snd (partition_str (CHR ''['') netloc)))))
      else CHR ''['' \<notin> set netloc \<and> CHR '']'' \<notin> set netloc)"

definition split_netloc :: "string \<Rightarrow> string \<times> string" where
  "split_netloc rest =
     (if take 2 rest = ''//'' then (takeWhile (\<lambda>c. \<not> netloc_end c) (drop 2 rest), dropWhile (\<lambda>c. \<not> netloc_end c) (drop 2 rest))
      else ('''', rest))"

definition uses_params :: "string list" where
  "uses_params = ['''', ''ftp'', ''hdl'', ''prospero'', ''http'', ''imap'', ''https'', ''shttp'', ''rtsp'', ''rtsps'', ''rtspu'',
     ''sip'', ''sips'', ''mms'', ''sftp'', ''tel'']"

definition uses_netloc :: "string list" where
  "uses_netloc = ['''', ''ftp'', ''http'', ''gopher'', ''nntp'', ''telnet'', ''imap'', ''wais'', ''file'', ''mms'', ''https'', ''shttp'',
     ''snews'', ''prospero'', ''rtsp'', ''rtsps'', ''rtspu'', ''rsync'', ''svn'', ''svn+ssh'', ''sftp'', ''nfs'', ''git'', ''git+ssh'',
     ''ws'', ''wss'']"

text \<open>\<^verbatim>\<open>_splitparams\<close>: at the first semicolon of the last path segment.\<close>

definition split_params :: "string \<Rightarrow> string \<times> string" where
  "split_params path =
     (case rpartition_str (CHR ''/'') path of (dir, sep, seg) \<Rightarrow>
        (case partition_str (CHR '';'') seg of (base, semi, params) \<Rightarrow>
           if semi then ((if sep then dir @ ''/'' else '''') @ base, params) else (path, '''')))"

definition urlparse :: "string \<Rightarrow> parse_result option" where
  "urlparse url =
     (case split_scheme (clean_url url) of (scheme, rest) \<Rightarrow>
      case split_netloc rest of (netloc, rest) \<Rightarrow>
      if \<not> netloc_ok netloc then None else
      case partition_str (CHR ''#'') rest of (rest, _, fragment) \<Rightarrow>
      case partition_str (CHR ''?'') rest of (path, _, query) \<Rightarrow>
      case (if scheme \<in> set uses_params then split_params path else (path, '''')) of (path, params) \<Rightarrow>
      Some \<lparr>u_scheme = scheme, u_netloc = netloc, u_path = path, u_params = params, u_query = query, u_fragment = fragment\<rparr>)"

section \<open>Views of the authority\<close>

definition url_username :: "parse_result \<Rightarrow> string option" where
  "url_username u = (case rpartition_str (CHR ''@'') (u_netloc u) of (info, have, _) \<Rightarrow>
     if have then Some (fst (partition_str (CHR '':'') info)) else None)"

definition url_password :: "parse_result \<Rightarrow> string option" where
  "url_password u = (case rpartition_str (CHR ''@'') (u_netloc u) of (info, have, _) \<Rightarrow>
     if have then (case partition_str (CHR '':'') info of (_, sep, pw) \<Rightarrow> if sep then Some pw else None) else None)"

definition hostinfo :: "string \<Rightarrow> string \<times> string option" where
  "hostinfo netloc =
     (let h = snd (snd (rpartition_str (CHR ''@'') netloc)) in
      case partition_str (CHR ''['') h of (_, open_br, bracketed) \<Rightarrow>
      let (name, port) = (if open_br then (case partition_str (CHR '']'') bracketed of (name, _, rest) \<Rightarrow>
                            (name, snd (snd (partition_str (CHR '':'') rest))))
                          else (case partition_str (CHR '':'') h of (name, _, port) \<Rightarrow> (name, port)))
      in (name, if port = [] then None else Some port))"

definition url_hostname :: "parse_result \<Rightarrow> string option" where
  "url_hostname u = (let h = fst (hostinfo (u_netloc u)) in
     if h = [] then None
     else case partition_str (CHR ''%'') h of (name, sep, zone) \<Rightarrow>
       Some (lower name @ (if sep then CHR ''%'' # zone else [])))"

text \<open>\<^verbatim>\<open>port\<close> raises for text that is not a number of 16 bits.\<close>

definition url_port :: "parse_result \<Rightarrow> nat option option" where
  "url_port u = (case snd (hostinfo (u_netloc u)) of
      None \<Rightarrow> Some None
    | Some p \<Rightarrow> if list_all is_digit p
        then (case parse_digits 0 False p of Some n \<Rightarrow> if n \<le> 65535 then Some (Some n) else None | None \<Rightarrow> None)
        else None)"

definition urlunparse :: "parse_result \<Rightarrow> string" where
  "urlunparse u =
     (let url = (if u_params u = [] then u_path u else u_path u @ '';'' @ u_params u);
          url = (if u_netloc u \<noteq> [] \<or> u_scheme u \<noteq> [] \<and> u_scheme u \<in> set uses_netloc \<or> take 2 url = ''//''
                 then ''//'' @ u_netloc u @ (if url \<noteq> [] \<and> hd url \<noteq> CHR ''/'' then ''/'' @ url else url) else url);
          url = (if u_scheme u = [] then url else u_scheme u @ '':'' @ url);
          url = (if u_query u = [] then url else url @ ''?'' @ u_query u)
      in if u_fragment u = [] then url else url @ ''#'' @ u_fragment u)"

section \<open>Reading back what was put together\<close>

abbreviation plain :: "char \<Rightarrow> bool" where
  "plain c \<equiv> \<not> netloc_end c \<and> (of_char c :: nat) \<notin> {9, 10, 13}"

lemma urlparse_netloc_plain:
  assumes "urlparse url = Some u"
  shows "list_all plain (u_netloc u)"
proof -
  obtain scheme rest where r: "split_scheme (clean_url url) = (scheme, rest)" by fastforce
  have "set (clean_url url) \<subseteq> {c. (of_char c :: nat) \<notin> {9, 10, 13}}" by (auto simp: clean_url_def)
  then have "set rest \<subseteq> {c. (of_char c :: nat) \<notin> {9, 10, 13}}"
    using r set_partition_str(2) [of "CHR '':''" "clean_url url"]
    by (auto simp: split_scheme_def split: if_splits prod.splits)
  moreover have "u_netloc u = fst (split_netloc rest)"
    using assms r by (auto simp: urlparse_def Let_def split: prod.splits if_splits)
  ultimately show ?thesis
    by (fastforce simp: split_netloc_def list_all_iff dest: set_takeWhileD in_set_dropD)
qed

lemma urlunparse_shape:
  assumes "u_netloc u \<noteq> []" and "u_scheme u \<noteq> []"
  shows "\<exists>tail. urlunparse u = u_scheme u @ ''://'' @ u_netloc u @ tail \<and> (tail = [] \<or> netloc_end (hd tail))"
  using assms by (auto simp: urlunparse_def Let_def netloc_end_def hd_append)

lemma takeWhile_tail: "list_all P xs \<Longrightarrow> tail = [] \<or> \<not> P (hd tail) \<Longrightarrow> takeWhile P (xs @ tail) = xs"
  by (cases tail) (auto simp: list_all_iff takeWhile_append takeWhile_eq_all_conv)

lemma urlparse_urlunparse:
  assumes "u_scheme u \<in> {''http'', ''https''}" and "u_netloc u \<noteq> []" and "list_all plain (u_netloc u)"
    and "urlparse (urlunparse u) = Some v"
  shows "u_scheme v = u_scheme u \<and> u_netloc v = u_netloc u"
proof -
  obtain tail where tail: "urlunparse u = u_scheme u @ ''://'' @ u_netloc u @ tail" "tail = [] \<or> netloc_end (hd tail)"
    using urlunparse_shape [of u] assms(1,2) by auto
  let ?ok = "\<lambda>c. (of_char c :: nat) \<notin> {9, 10, 13}"
  let ?tail = "filter ?ok tail"
  have t: "?tail = [] \<or> netloc_end (hd ?tail)"
    using tail(2) by (cases tail) (auto simp: netloc_end_def)
  have n: "filter ?ok (u_netloc u) = u_netloc u"
    using assms(3) by (simp add: list_all_iff filter_id_conv)
  have c: "clean_url (urlunparse u) = u_scheme u @ CHR '':'' # ''//'' @ u_netloc u @ ?tail"
    using assms(1) n unfolding tail(1) clean_url_def by auto
  have s: "split_scheme (u_scheme u @ CHR '':'' # ''//'' @ u_netloc u @ ?tail) = (u_scheme u, ''//'' @ u_netloc u @ ?tail)"
    using assms(1) unfolding split_scheme_def
    by (subst partition_str_found) (auto simp: is_alpha_def scheme_char_def lower_def lower_char_def Let_def)
  have "split_netloc (''//'' @ u_netloc u @ ?tail) = (u_netloc u, dropWhile (\<lambda>c. \<not> netloc_end c) (u_netloc u @ ?tail))"
    using takeWhile_tail [of "\<lambda>c. \<not> netloc_end c" "u_netloc u" ?tail] assms(3) t
    by (simp add: split_netloc_def list_all_iff)
  with assms(4) c s show ?thesis
    by (auto simp: urlparse_def split: prod.splits if_splits)
qed

text \<open>The host of an authority whose host is a printed address, with or without user and port.\<close>

lemma hostinfo_addr:
  assumes "list_all addr_char a" and "a \<noteq> []" and "port = [] \<or> port = CHR '':'' # p \<and> list_all is_digit p"
    and "pre = [] \<or> (\<exists>user. pre = user @ ''@'')"
  shows "fst (hostinfo (pre @ (if CHR '':'' \<in> set a then ''['' @ a @ '']'' else a) @ port)) = a"
proof -
  let ?h = "(if CHR '':'' \<in> set a then ''['' @ a @ '']'' else a) @ port"
  have a: "CHR ''@'' \<notin> set a" "CHR ''['' \<notin> set a" "CHR '']'' \<notin> set a"
    using assms(1) addr_char_plain unfolding list_all_iff by blast+
  have p: "x \<notin> set port" if "\<not> is_digit x" "x \<noteq> CHR '':''" for x
    using assms(3) that by (auto simp: list_all_iff)
  have h: "CHR ''@'' \<notin> set ?h" using a p [of "CHR ''@''"] by (auto simp: is_digit_def)
  have r: "snd (snd (rpartition_str (CHR ''@'') (pre @ ?h))) = ?h"
    using assms(4) rpartition_str_found [OF h] rpartition_str_absent [OF h] by auto
  show ?thesis
  proof (cases "CHR '':'' \<in> set a")
    case True
    have "partition_str (CHR ''['') ([] @ CHR ''['' # a @ CHR '']'' # port) = ([], True, a @ CHR '']'' # port)"
      by (rule partition_str_found) simp
    with True a r show ?thesis by (simp add: hostinfo_def Let_def)
  next
    case False
    have "CHR ''['' \<notin> set (a @ port)" using a p [of "CHR ''[''"] by (auto simp: is_digit_def)
    moreover have "fst (partition_str (CHR '':'') (a @ port)) = a"
      using False assms(3) by (cases port) auto
    ultimately show ?thesis using False r
      by (simp add: hostinfo_def Let_def case_prod_unfold)
  qed
qed

lemma hostname_addr:
  assumes "list_all addr_char a" and "a \<noteq> []" and "fst (hostinfo (u_netloc u)) = a"
  shows "url_hostname u = Some a"
proof -
  have "CHR ''%'' \<notin> set a" using assms(1) addr_char_plain unfolding list_all_iff by blast
  moreover have "lower a = a" using assms(1) addr_char_plain unfolding list_all_iff lower_def by (auto intro: map_idI)
  ultimately show ?thesis using assms(2,3) by (simp add: url_hostname_def Let_def)
qed

end
