(* ===== verification/Push_Validation.thy ===== *)
theory Push_Validation
  imports Web_Url A2A_Types
begin

text \<open>
  \<^verbatim>\<open>push/validation.py\<close>: which webhook addresses the server may connect to. The resolver is a parameter: it maps a
  host name to the addresses of its answers, or to \<open>None\<close> for an \<^verbatim>\<open>OSError\<close>.
\<close>

record resolved_url =
  rv_hostname :: string
  rv_pinned_ips :: "string list option"

text \<open>\<^verbatim>\<open>WebhookValidationPolicy\<close>; a set of hosts is a list.\<close>

record policy =
  pl_allow_http :: bool
  pl_allowed_hosts :: "string list option"
  pl_blocked_hosts :: "string list option"

type_synonym resolver = "string \<Rightarrow> string list option"

definition is_blocked_ip :: "ip \<Rightarrow> bool" where
  "is_blocked_ip ip =
     (let ip' = (case ip of IPv6 w sc \<Rightarrow> (case ipv4_mapped w of Some w4 \<Rightarrow> IPv4 w4 | None \<Rightarrow> ip) | IPv4 w \<Rightarrow> ip)
      in \<not> is_global ip')"

text \<open>The loop over the answers: \<open>None\<close> as soon as one address is blocked.\<close>

fun scan_addrinfo :: "string list \<Rightarrow> string list \<Rightarrow> exn + string list option" where
  "scan_addrinfo [] ips = Inr (Some ips)"
| "scan_addrinfo (a # as) ips = (case ip_address a of
      None \<Rightarrow> Inl (ValueError (py_repr a @ '' does not appear to be an IPv4 or IPv6 address''))
    | Some ip \<Rightarrow>
        if is_blocked_ip ip then Inr None
        else scan_addrinfo as (if ip_str ip \<in> set ips then ips else ips @ [ip_str ip]))"

definition truthy_list :: "'a list option \<Rightarrow> bool" where
  "truthy_list v \<longleftrightarrow> opt_list v \<noteq> []"

text \<open>A host that no list decides: an address literal, or a name to resolve.\<close>

definition resolve_host :: "resolver \<Rightarrow> string \<Rightarrow> exn + resolved_url option" where
  "resolve_host dns hostname =
     (case ip_address hostname of
        Some ip \<Rightarrow> Inr (if is_blocked_ip ip then None else Some \<lparr>rv_hostname = hostname, rv_pinned_ips = None\<rparr>)
      | None \<Rightarrow> (case dns hostname of
          None \<Rightarrow> Inr None
        | Some addrinfo \<Rightarrow> (case scan_addrinfo addrinfo [] of
            Inl e \<Rightarrow> Inl e
          | Inr None \<Rightarrow> Inr None
          | Inr (Some ips) \<Rightarrow> Inr (if ips = [] then None else Some \<lparr>rv_hostname = hostname, rv_pinned_ips = Some ips\<rparr>))))"

definition resolve_webhook_url :: "resolver \<Rightarrow> policy \<Rightarrow> string \<Rightarrow> exn + resolved_url option" where
  "resolve_webhook_url dns pol url =
     (case urlparse url of None \<Rightarrow> Inr None | Some parsed \<Rightarrow>
      if \<not> pl_allow_http pol \<and> u_scheme parsed \<noteq> ''https'' then Inr None
      else if u_scheme parsed \<notin> {''http'', ''https''} then Inr None
      else case url_hostname parsed of None \<Rightarrow> Inr None | Some hostname \<Rightarrow>
        if hostname = '''' then Inr None
        else if truthy_list (pl_blocked_hosts pol) \<and> lower hostname \<in> set (opt_list (pl_blocked_hosts pol)) then Inr None
        else if truthy_list (pl_allowed_hosts pol)
        then Inr (if lower hostname \<in> set (opt_list (pl_allowed_hosts pol))
                  then Some \<lparr>rv_hostname = hostname, rv_pinned_ips = None\<rparr> else None)
        else resolve_host dns hostname)"

definition validate_webhook_url :: "resolver \<Rightarrow> policy \<Rightarrow> string \<Rightarrow> exn + bool" where
  "validate_webhook_url dns pol url = map_sum id (\<lambda>r. r \<noteq> None) (resolve_webhook_url dns pol url)"

section \<open>What validation admits\<close>

text \<open>Every pinned address is the text of an address that is not blocked.\<close>

definition safe_addr :: "string \<Rightarrow> bool" where
  "safe_addr x \<longleftrightarrow> (\<exists>ip. x = ip_str ip \<and> \<not> is_blocked_ip ip \<and> list_all addr_char x)"

lemma scan_addrinfo_pinned:
  assumes "scan_addrinfo as ips = Inr (Some out)" and "\<forall>a \<in> set as. CHR ''%'' \<notin> set a" and "\<forall>x \<in> set ips. safe_addr x"
  shows "\<forall>x \<in> set out. safe_addr x"
  using assms
proof (induction as ips rule: scan_addrinfo.induct)
  case (2 a as ips)
  obtain ip where ip: "ip_address a = Some ip" "\<not> is_blocked_ip ip"
    using 2(2) by (auto split: option.splits if_splits)
  have "case ip of IPv4 w \<Rightarrow> True | IPv6 w scope \<Rightarrow> \<not> truthy scope"
    using ip(1) 2(3) by (auto simp: ip_address_def split: if_splits option.splits)
  then have "safe_addr (ip_str ip)" using ip(2) ip_str_addr by (auto simp: safe_addr_def)
  then have "\<forall>x \<in> set (if ip_str ip \<in> set ips then ips else ips @ [ip_str ip]). safe_addr x"
    using 2(4) by simp
  with 2(1) [OF ip(1) ip(2)] 2(2,3) ip show ?case by simp
qed simp

lemma hex_str_not_Nil [simp]: "hex_str n \<noteq> []"
  by (subst hex_str.simps) simp

lemma join_with_not_Nil: "hd xs \<noteq> [] \<or> length xs > 1 \<Longrightarrow> xs \<noteq> [] \<Longrightarrow> sep \<noteq> [] \<Longrightarrow> join_with sep xs \<noteq> []"
  by (induction sep xs rule: join_with.induct) auto

lemma compress_long: "length hs > 1 \<Longrightarrow> hd hs \<noteq> [] \<Longrightarrow> compress_hextets hs \<noteq> [] \<and> (hd (compress_hextets hs) \<noteq> [] \<or> length (compress_hextets hs) > 1)"
  by (auto simp: compress_hextets_def Let_def case_prod_unfold hd_append)

lemma ip_str_not_Nil: "ip_str a \<noteq> []"
proof (cases a)
  case (IPv6 w scope)
  have "join_with '':'' (compress_hextets (hextets w)) \<noteq> []"
    using compress_long [of "hextets w"] by (intro join_with_not_Nil) (auto simp: hextets_def)
  then show ?thesis using IPv6 by simp
qed (simp add: v4_str_def)

text \<open>What a successful validation says: scheme, host lists, and the addresses a connection may go to.\<close>

lemma resolve_admits:
  assumes "resolve_webhook_url dns pol url = Inr (Some r)"
  obtains u h where "urlparse url = Some u" "url_hostname u = Some h" "h \<noteq> []" "u_scheme u \<in> {''http'', ''https''}"
    "pl_allow_http pol \<or> u_scheme u = ''https''" "lower h \<notin> set (opt_list (pl_blocked_hosts pol))"
    "truthy_list (pl_allowed_hosts pol) \<and> lower h \<in> set (opt_list (pl_allowed_hosts pol)) \<and> rv_pinned_ips r = None
      \<or> \<not> truthy_list (pl_allowed_hosts pol) \<and> resolve_host dns h = Inr (Some r)"
  using assms
  by (auto simp: resolve_webhook_url_def truthy_list_def split: option.splits if_splits)

lemma resolve_host_admits:
  assumes "resolve_host dns h = Inr (Some r)" and "\<And>as. dns h = Some as \<Longrightarrow> \<forall>a \<in> set as. CHR ''%'' \<notin> set a"
  shows "case rv_pinned_ips r of
      None \<Rightarrow> \<exists>ip. ip_address h = Some ip \<and> \<not> is_blocked_ip ip
    | Some ips \<Rightarrow> ips \<noteq> [] \<and> (\<forall>x \<in> set ips. safe_addr x)"
  using assms scan_addrinfo_pinned [of _ "[]"]
  by (auto simp: resolve_host_def split: option.splits if_splits sum.splits)

section \<open>Blocked ranges\<close>

lemma in_net_prefix:
  fixes w a :: "32 word"
  assumes "in_net w (a, len)" and "k \<le> len" and "len \<le> 32"
  shows "drop_bit (32 - k) w = drop_bit (32 - k) a"
proof -
  have "drop_bit (len - k) (drop_bit (32 - len) w) = drop_bit (len - k) (drop_bit (32 - len) a)"
    using assms(1) by (simp add: in_net_def)
  then show ?thesis using assms(2,3) by (simp add: add.commute)
qed

lemma v4_exception_prefix:
  "\<not> list_all (\<lambda>n. \<not> in_net w n) v4_private_exceptions \<Longrightarrow> drop_bit 16 w = 0xC000"
  using in_net_prefix [of w _ 32 16] by (auto simp: v4_private_exceptions_def v4_def)

lemma v4_net_private:
  assumes "n \<in> set v4_private_networks" and "in_net w n" and "drop_bit 16 w \<noteq> 0xC000"
  shows "v4_is_private w"
  using assms v4_exception_prefix unfolding v4_is_private_def in_table_def list_ex_iff by blast

lemma v4_local_private:
  fixes w :: "32 word"
  assumes "drop_bit 24 w \<in> {0, 10, 127} \<or> drop_bit 16 w \<in> {0xA9FE, 0xC0A8} \<or> drop_bit 20 w = 0xAC1"
  shows "v4_is_private w"
proof -
  have d: "drop_bit 8 (drop_bit 16 w) = drop_bit 24 w" "drop_bit 4 (drop_bit 16 w) = drop_bit 20 w" by simp_all
  have "drop_bit 16 w \<noteq> 0xC000"
  proof
    assume c: "drop_bit 16 w = 0xC000"
    have "drop_bit 24 w = 0xC0" "drop_bit 20 w = 0xC00" unfolding d [symmetric] c by simp_all
    with assms c show False by auto
  qed
  moreover have "in_net w (v4 0 0 0 0, 8) \<or> in_net w (v4 10 0 0 0, 8) \<or> in_net w (v4 127 0 0 0, 8)
      \<or> in_net w (v4 169 254 0 0, 16) \<or> in_net w (v4 192 168 0 0, 16) \<or> in_net w (v4 172 16 0 0, 12)"
    using assms by (auto simp: in_net_def v4_def)
  ultimately show ?thesis
    using v4_net_private [of _ w] unfolding v4_private_networks_def by auto
qed

lemma v4_multicast_public:
  fixes w :: "32 word"
  assumes "drop_bit 28 w = 0xE"
  shows "is_global (IPv4 w)"
proof -
  have "\<not> in_net w (a, len)" if "4 \<le> len" "len \<le> 32" "drop_bit 28 a \<noteq> 0xE" for a len
    using in_net_prefix [of w a len 4] that assms by auto
  then show ?thesis
    by (simp add: v4_is_private_def in_table_def v4_private_networks_def v4_def)
qed

definition mapped :: "32 word \<Rightarrow> 128 word" where
  "mapped w = push_bit 32 0xFFFF OR ucast w"

lemma ipv4_mapped_mapped: "ipv4_mapped (mapped w) = Some w"
proof -
  have u: "drop_bit 32 (ucast w :: 128 word) = 0"
    by (rule bit_eqI) (auto simp: bit_simps dest: bit_imp_le_length)
  have "drop_bit 32 (mapped w) = 0xFFFF"
    unfolding mapped_def by (simp add: drop_bit_or u)
  have low: "(ucast (push_bit 32 x OR ucast w :: 128 word) :: 32 word) = w" for x :: "128 word"
    by (rule bit_eqI) (auto simp: bit_simps dest: bit_imp_le_length)
  have "(ucast (mapped w) :: 32 word) = w" unfolding mapped_def by (rule low)
  with \<open>drop_bit 32 (mapped w) = 0xFFFF\<close> show ?thesis by (simp add: ipv4_mapped_def)
qed

text \<open>Property C34: local addresses are blocked. Loopback, the private ranges, link-local and the zero network are rejected as
  IPv4 addresses and as IPv4-mapped IPv6 addresses; multicast addresses, which the documentation lists among the rejected ones,
  are admitted.\<close>

theorem local_addresses_blocked:
  fixes w :: "32 word"
  shows "(drop_bit 24 w \<in> {0, 10, 127} \<or> drop_bit 16 w \<in> {0xA9FE, 0xC0A8} \<or> drop_bit 20 w = 0xAC1
      \<longrightarrow> is_blocked_ip (IPv4 w) \<and> is_blocked_ip (IPv6 (mapped w) scope))
    \<and> (drop_bit 28 w = 0xE \<longrightarrow> \<not> is_blocked_ip (IPv4 w))"
  using v4_local_private [of w] v4_multicast_public [of w]
  by (auto simp: is_blocked_ip_def ipv4_mapped_mapped Let_def)

theorem local_addresses_blocked_witness:
  "is_blocked_ip (IPv4 (v4 127 0 0 1)) \<and> \<not> is_blocked_ip (IPv4 (v4 224 0 0 1))"
  using local_addresses_blocked [of "v4 127 0 0 1" None] local_addresses_blocked [of "v4 224 0 0 1" None]
  by (simp add: v4_def)

end
