(* ===== verification/Http_Common.thy ===== *)
theory Http_Common
  imports A2A_Types
begin

text \<open>
  Helpers of \<^verbatim>\<open>endpoints.py\<close> that several components share.
\<close>

text \<open>\<^verbatim>\<open>_sanitize_task_for_client\<close>: metadata keys that begin with an underscore are internal.\<close>

definition sanitize_task_for_client :: "task \<Rightarrow> task" where
  "sanitize_task_for_client t =
     (let md = metadata_dict t; cleaned = filter (\<lambda>(k, v). take 1 k \<noteq> ''_'') md in
      if md = [] \<or> length cleaned = length md then t
      else t\<lparr>t_metadata := (if cleaned = [] then None else Some cleaned)\<rparr>)"

lemma length_filter_same: "length (filter P xs) = length xs \<longleftrightarrow> (\<forall>x \<in> set xs. P x)"
proof (induction xs)
  case (Cons x xs)
  have "length (filter P xs) \<noteq> Suc (length xs)" using length_filter_le [of P xs] by linarith
  with Cons show ?case by auto
qed simp

text \<open>After it no internal key is left, public keys keep their values, and nothing but metadata changed.\<close>

lemma sanitize_keys: "k \<in> fst ` set (metadata_dict (sanitize_task_for_client t)) \<Longrightarrow> take 1 k \<noteq> ''_''"
  by (auto simp: sanitize_task_for_client_def Let_def length_filter_same split: if_splits)

lemma map_of_filter_key: "P k \<Longrightarrow> map_of (filter (\<lambda>(k, v). P k) d) k = map_of d k"
  by (induction d) auto

lemma sanitize_public:
  "take 1 k \<noteq> ''_'' \<Longrightarrow> map_of (metadata_dict (sanitize_task_for_client t)) k = map_of (metadata_dict t) k"
  using map_of_filter_key [of "\<lambda>k. take 1 k \<noteq> ''_''" k "metadata_dict t"]
  by (auto simp: sanitize_task_for_client_def Let_def)

lemma sanitize_other:
  "t_id (sanitize_task_for_client t) = t_id t" "t_status (sanitize_task_for_client t) = t_status t"
  "t_history (sanitize_task_for_client t) = t_history t" "t_artifacts (sanitize_task_for_client t) = t_artifacts t"
  "t_context_id (sanitize_task_for_client t) = t_context_id t"
  by (simp_all add: sanitize_task_for_client_def Let_def)

end
