(* ===== verification/Push_Delivery.thy ===== *)
theory Push_Delivery
  imports Complex_Main Push_Validation Push_Store Http_Common
begin

text \<open>
  \<^verbatim>\<open>push/delivery.py\<close>: one bounded queue and one worker per configuration of a task. The service is a record;
  what its coroutines do between two awaits is a step. Resolver and HTTP client are parameters.
\<close>

section \<open>Queues\<close>

type_synonym queue_key = "string \<times> string"

record queue_worker =
  wk_id :: nat
  wk_config :: task_push_config
  wk_busy :: "task option"
  wk_done :: bool

record delivery =
  dv_policy :: policy
  dv_max_retries :: int
  dv_retry_base_delay :: rat
  dv_max_queue_size :: int
  dv_started :: bool
  dv_queues :: "(queue_key, task option list) pydict"
  dv_workers :: "(queue_key, queue_worker) pydict"
  dv_next :: nat

definition WebhookDeliveryService_init :: "int \<Rightarrow> rat \<Rightarrow> policy \<Rightarrow> int \<Rightarrow> delivery" where
  "WebhookDeliveryService_init max_retries retry_base_delay pol max_queue_size =
     \<lparr>dv_policy = pol, dv_max_retries = max_retries, dv_retry_base_delay = retry_base_delay,
      dv_max_queue_size = max_queue_size, dv_started = False, dv_queues = [], dv_workers = [], dv_next = 0\<rparr>"

definition delivery_startup :: "delivery \<Rightarrow> delivery" where
  "delivery_startup dv = dv\<lparr>dv_started := True\<rparr>"

text \<open>The loop of \<^verbatim>\<open>_enqueue\<close>: put, or drop the oldest and put again; \<^verbatim>\<open>maxsize <= 0\<close> is unbounded.\<close>

fun put_drop_oldest :: "int \<Rightarrow> 'a \<Rightarrow> 'a list \<Rightarrow> 'a list" where
  "put_drop_oldest maxsize x [] = [x]"
| "put_drop_oldest maxsize x (y # q) =
     (if 0 < maxsize \<and> maxsize \<le> int (length (y # q)) then put_drop_oldest maxsize x q else y # q @ [x])"

definition delivery_enqueue :: "queue_key \<Rightarrow> task option \<Rightarrow> delivery \<Rightarrow> delivery" where
  "delivery_enqueue key item dv =
     dv\<lparr>dv_queues := AList.update key (put_drop_oldest (dv_max_queue_size dv) item (opt_list (map_of (dv_queues dv) key)))
        (dv_queues dv)\<rparr>"

definition config_key :: "task \<Rightarrow> task_push_config \<Rightarrow> queue_key" where
  "config_key t c = (t_id t, or_else (tp_id c) ''default'')"

definition start_worker :: "queue_key \<Rightarrow> task_push_config \<Rightarrow> delivery \<Rightarrow> delivery" where
  "start_worker key c dv =
     dv\<lparr>dv_queues := AList.update key [] (AList.delete key (dv_queues dv)),
        dv_workers := AList.update key \<lparr>wk_id = dv_next dv, wk_config = c, wk_busy = None, wk_done = False\<rparr>
          (AList.delete key (dv_workers dv)),
        dv_next := Suc (dv_next dv)\<rparr>"

definition deliver_to :: "task \<Rightarrow> task_push_config \<Rightarrow> delivery \<Rightarrow> delivery" where
  "deliver_to t c dv =
     (let key = config_key t c;
          dv1 = (if (case map_of (dv_workers dv) key of None \<Rightarrow> True | Some w \<Rightarrow> wk_done w)
                 then start_worker key c dv else dv)
      in delivery_enqueue key (Some t) dv1)"

definition delivery_deliver :: "task_push_config list \<Rightarrow> task \<Rightarrow> delivery \<Rightarrow> delivery" where
  "delivery_deliver configs t dv = fold (deliver_to t) configs dv"

definition cleanup_queue :: "queue_key \<Rightarrow> nat \<Rightarrow> delivery \<Rightarrow> delivery" where
  "cleanup_queue key finished dv =
     (case map_of (dv_workers dv) key of
        Some w \<Rightarrow> if wk_id w = finished
          then dv\<lparr>dv_queues := AList.delete key (dv_queues dv), dv_workers := AList.delete key (dv_workers dv)\<rparr> else dv
      | None \<Rightarrow> dv)"

text \<open>\<^verbatim>\<open>shutdown\<close>: a sentinel for every queue; after the grace period the remaining workers are cancelled.\<close>

definition delivery_sentinels :: "delivery \<Rightarrow> delivery" where
  "delivery_sentinels dv = fold (\<lambda>key. delivery_enqueue key None) (map fst (dv_queues dv)) dv"

definition delivery_cancel :: "delivery \<Rightarrow> delivery" where
  "delivery_cancel dv = dv\<lparr>dv_workers := map (\<lambda>(k, w). (k, w\<lparr>wk_done := True\<rparr>)) (dv_workers dv)\<rparr>"

section \<open>One delivery\<close>

record request =
  rq_url :: string
  rq_headers :: "(string, string) pydict"
  rq_sni :: "string option"
  rq_task :: task

datatype http_result = Status int | RequestError | Raised exn

datatype delivery_action = Post request | Pause rat

datatype delivery_outcome = Delivered | Rejected | Exhausted | NotSent | Failed exn

definition build_headers :: "task_push_config \<Rightarrow> (string, string) pydict" where
  "build_headers c =
     (let h0 = [(''Content-Type'', ''application/json''), (''User-Agent'', ''a2akit-push/0.1'')];
          h1 = (if truthy (tp_token c) then AList.update ''X-A2A-Notification-Token'' (the (tp_token c)) h0 else h0)
      in case tp_authentication c of None \<Rightarrow> h1
        | Some auth \<Rightarrow> if truthy (pa_credentials auth) \<and> pa_schemes auth \<noteq> []
            then AList.update ''Authorization'' (hd (pa_schemes auth) @ '' '' @ the (pa_credentials auth)) h1 else h1)"

definition url_userinfo :: "parse_result \<Rightarrow> string" where
  "url_userinfo parsed =
     (if truthy (url_username parsed)
      then the (url_username parsed) @ (if truthy (url_password parsed) then '':'' @ the (url_password parsed) else '''') @ ''@''
      else '''')"

text \<open>The URL for the connection, the \<^verbatim>\<open>Host\<close> header and the name for TLS; \<open>None\<close> is the \<^verbatim>\<open>ValueError\<close> of an invalid port.\<close>

definition pin_url :: "string \<Rightarrow> string \<Rightarrow> (string \<times> string \<times> string option) option" where
  "pin_url url ip =
     (case urlparse url of None \<Rightarrow> None | Some parsed \<Rightarrow>
      let host = or_else (url_hostname parsed) '''';
          userinfo = url_userinfo parsed;
          ip_ref = (if CHR '':'' \<in> set ip then ''['' @ ip @ '']'' else ip)
      in case url_port parsed of None \<Rightarrow> None | Some port \<Rightarrow>
        let suffix = (case port of None \<Rightarrow> '''' | Some p \<Rightarrow> '':'' @ nat_str p)
        in Some (urlunparse (parsed\<lparr>u_netloc := userinfo @ ip_ref @ suffix\<rparr>), host @ suffix,
             if u_scheme parsed = ''https'' then Some host else None))"

text \<open>The attempts \<open>n, n + 1, \<dots>\<close> of \<open>m\<close> more; the client answers attempt \<open>i\<close> with \<open>http i\<close>.\<close>

fun attempt_loop ::
  "(nat \<Rightarrow> http_result) \<Rightarrow> rat \<Rightarrow> request \<Rightarrow> nat \<Rightarrow> nat \<Rightarrow> delivery_action list \<times> delivery_outcome" where
  "attempt_loop http base rq n 0 = ([], Exhausted)"
| "attempt_loop http base rq n (Suc m) =
     (let again = (case attempt_loop http base rq (Suc n) m of (acts, out) \<Rightarrow>
            (Post rq # (if m > 0 then [Pause (base * 2 ^ (n - 1))] else []) @ acts, out))
      in case http n of
           Status s \<Rightarrow> if 200 \<le> s \<and> s < 300 then ([Post rq], Delivered)
             else if s < 500 then ([Post rq], Rejected) else again
         | RequestError \<Rightarrow> again
         | Raised e \<Rightarrow> ([Post rq], Failed e))"

definition deliver_single ::
  "resolver \<Rightarrow> (nat \<Rightarrow> http_result) \<Rightarrow> delivery \<Rightarrow> task_push_config \<Rightarrow> task \<Rightarrow> delivery_action list \<times> delivery_outcome" where
  "deliver_single dns http dv c t =
     (case resolve_webhook_url dns (dv_policy dv) (tp_url c) of
        Inl e \<Rightarrow> ([], Failed e)
      | Inr None \<Rightarrow> ([], NotSent)
      | Inr (Some resolved) \<Rightarrow>
          if \<not> dv_started dv then ([], Failed AssertionError) else
          let headers = build_headers c;
              send = (\<lambda>rq. attempt_loop http (dv_retry_base_delay dv) rq 1 (nat (dv_max_retries dv)))
          in if truthy_list (rv_pinned_ips resolved)
             then (case pin_url (tp_url c) (hd (the (rv_pinned_ips resolved))) of
                 None \<Rightarrow> ([], Failed (ValueError ''port''))
               | Some (request_url, host_header, sni) \<Rightarrow>
                   send \<lparr>rq_url = request_url, rq_headers = AList.update ''Host'' host_header headers, rq_sni = sni,
                     rq_task = sanitize_task_for_client t\<rparr>)
             else send \<lparr>rq_url = tp_url c, rq_headers = headers, rq_sni = None, rq_task = sanitize_task_for_client t\<rparr>)"

section \<open>The steps of the service\<close>

datatype delivery_event =
    Submit "task_push_config list" task
  | Send queue_key task
  | Internal

definition set_worker :: "queue_key \<Rightarrow> queue_worker \<Rightarrow> delivery \<Rightarrow> delivery" where
  "set_worker key w dv = dv\<lparr>dv_workers := AList.update key w (dv_workers dv)\<rparr>"

definition set_queue :: "queue_key \<Rightarrow> task option list \<Rightarrow> delivery \<Rightarrow> delivery" where
  "set_queue key q dv = dv\<lparr>dv_queues := AList.update key q (dv_queues dv)\<rparr>"

definition delivery_final :: "task_state set" where
  "delivery_final = {task_state_completed, task_state_failed, task_state_canceled, task_state_rejected}"

text \<open>\<open>take\<close>, \<open>sentinel\<close>, \<open>idle\<close> and \<open>finish\<close> are the branches of the loop in \<^verbatim>\<open>_queue_worker\<close>.\<close>

inductive delivery_step :: "delivery \<Rightarrow> delivery_event \<Rightarrow> delivery \<Rightarrow> bool" where
  deliver: "delivery_step dv (Submit cs t) (delivery_deliver cs t dv)"
| take: "map_of (dv_workers dv) key = Some w \<Longrightarrow> \<not> wk_done w \<Longrightarrow> wk_busy w = None \<Longrightarrow>
    map_of (dv_queues dv) key = Some (Some t # q) \<Longrightarrow>
    delivery_step dv (Send key t) (set_worker key (w\<lparr>wk_busy := Some t\<rparr>) (set_queue key q dv))"
| sentinel: "map_of (dv_workers dv) key = Some w \<Longrightarrow> \<not> wk_done w \<Longrightarrow> wk_busy w = None \<Longrightarrow>
    map_of (dv_queues dv) key = Some (None # q) \<Longrightarrow>
    delivery_step dv Internal (set_worker key (w\<lparr>wk_done := True\<rparr>) (set_queue key q dv))"
| idle: "map_of (dv_workers dv) key = Some w \<Longrightarrow> \<not> wk_done w \<Longrightarrow> wk_busy w = None \<Longrightarrow>
    map_of (dv_queues dv) key = Some [] \<Longrightarrow>
    delivery_step dv Internal (set_worker key (w\<lparr>wk_done := True\<rparr>) dv)"
| finish: "map_of (dv_workers dv) key = Some w \<Longrightarrow> \<not> wk_done w \<Longrightarrow> wk_busy w = Some t \<Longrightarrow>
    map_of (dv_queues dv) key = Some q \<Longrightarrow>
    delivery_step dv Internal
      (set_worker key (w\<lparr>wk_busy := None, wk_done := (q = [] \<and> t_state t \<in> delivery_final)\<rparr>) dv)"
| cleanup: "delivery_step dv Internal (cleanup_queue key finished dv)"
| shutdown: "delivery_step dv Internal (delivery_sentinels dv)"
| cancel: "delivery_step dv Internal (delivery_cancel dv)"

inductive delivery_run :: "delivery \<Rightarrow> delivery_event list \<Rightarrow> delivery \<Rightarrow> bool" where
  start: "delivery_run dv [] dv"
| step: "delivery_run dv evs dv1 \<Longrightarrow> delivery_step dv1 ev dv2 \<Longrightarrow> delivery_run dv (evs @ [ev]) dv2"

inductive_cases delivery_stepE: "delivery_step dv ev dv'"

end
