(* ===== verification/Delivery_Properties.thy ===== *)
theory Delivery_Properties
  imports Push_Delivery
begin

text \<open>
  Properties of webhook delivery: what a queue keeps, the order in which snapshots are sent, and where requests can go.
\<close>

section \<open>A bounded queue keeps the newest\<close>

lemma put_drop_oldest_eq:
  assumes "0 < m"
  shows "put_drop_oldest m x q = drop (length q + 1 - nat m) q @ [x]"
proof (induction q)
  case (Cons y q)
  show ?case
  proof (cases "m \<le> int (length (y # q))")
    case True
    with assms have "length (y # q) + 1 - nat m = Suc (length q + 1 - nat m)" by auto
    with True assms Cons show ?thesis by simp
  qed (use assms in auto)
qed (use assms in simp)

lemma put_drop_oldest_suffix: "suffix (put_drop_oldest m x q) (q @ [x])"
  by (induction q) (auto simp: suffix_ConsI)

lemma put_drop_oldest_last: "last (put_drop_oldest m x q) = x" "put_drop_oldest m x q \<noteq> []"
  by (induction q) auto

lemma length_put_drop_oldest: "0 < m \<Longrightarrow> int (length (put_drop_oldest m x q)) \<le> m"
  by (simp add: put_drop_oldest_eq)

definition newest :: "nat \<Rightarrow> 'a list \<Rightarrow> 'a list" where
  "newest k xs = drop (length xs - k) xs"

lemma newest_append: "newest k (newest k xs @ ys) = newest k (xs @ ys)"
proof (cases "length xs \<le> k")
  case False
  then have "length xs - k + length ys = length (xs @ ys) - k" by simp
  with False show ?thesis by (simp add: newest_def add.commute)
qed (simp add: newest_def)

lemma put_drop_oldest_newest: "0 < m \<Longrightarrow> put_drop_oldest m x q = newest (nat m) (q @ [x])"
  by (simp add: put_drop_oldest_eq newest_def)

text \<open>A delivery queue keeps the newest snapshots. After any number of enqueue operations a queue of positive size
  holds exactly the most recent snapshots, as many as fit, in the order in which they were enqueued.\<close>

theorem queue_keeps_newest:
  assumes "0 < m" and "length q \<le> nat m"
  shows "fold (put_drop_oldest m) xs q = drop (length (q @ xs) - nat m) (q @ xs)"
proof -
  have "fold (put_drop_oldest m) xs q = newest (nat m) (q @ xs)"
    using assms(2)
  proof (induction xs arbitrary: q)
    case (Cons x xs)
    have "length (put_drop_oldest m x q) \<le> nat m"
      using length_put_drop_oldest [OF assms(1), of x q] by (simp add: le_nat_iff assms(1) less_imp_le)
    from Cons.IH [OF this] show ?case
      using assms(1) newest_append [of "nat m" "q @ [x]" xs] by (simp add: put_drop_oldest_newest)
  qed (simp add: newest_def)
  then show ?thesis by (simp add: newest_def)
qed

theorem queue_keeps_newest_witness: "fold (put_drop_oldest 2) [3, 4, 5::nat] [1] = [4, 5]"
  using queue_keeps_newest [of 2 "[1]" "[3, 4, 5]"] by simp

section \<open>Order of deliveries\<close>

abbreviation queue_of :: "delivery \<Rightarrow> queue_key \<Rightarrow> task option list" where
  "queue_of dv key \<equiv> opt_list (map_of (dv_queues dv) key)"

definition snapshots :: "task option list \<Rightarrow> task list" where
  "snapshots q = map the (filter (\<lambda>x. x \<noteq> None) q)"

text \<open>What was submitted for a key, and what its worker has sent.\<close>

fun accepted :: "queue_key \<Rightarrow> delivery_event list \<Rightarrow> task list" where
  "accepted key [] = []"
| "accepted key (Submit cs t # evs) = replicate (length (filter (\<lambda>c. config_key t c = key) cs)) t @ accepted key evs"
| "accepted key (_ # evs) = accepted key evs"

fun sent :: "queue_key \<Rightarrow> delivery_event list \<Rightarrow> task list" where
  "sent key [] = []"
| "sent key (Send k t # evs) = (if k = key then t # sent key evs else sent key evs)"
| "sent key (_ # evs) = sent key evs"

lemma accepted_append: "accepted key (xs @ ys) = accepted key xs @ accepted key ys"
  by (induction key xs rule: accepted.induct) auto

lemma sent_append: "sent key (xs @ ys) = sent key xs @ sent key ys"
  by (induction key xs rule: sent.induct) auto

lemma snapshots_simps [simp]:
  "snapshots [] = []" "snapshots (Some t # q) = t # snapshots q" "snapshots (None # q) = snapshots q"
  "snapshots (q @ q') = snapshots q @ snapshots q'"
  by (simp_all add: snapshots_def)

lemma snapshots_suffix: "suffix q q' \<Longrightarrow> subseq (snapshots q) (snapshots q')"
  by (auto simp: suffix_def intro: list_emb_append2)

text \<open>Enqueueing one item appends it and loses at most the oldest ones.\<close>

lemma enqueue_queue:
  "subseq (snapshots (queue_of (delivery_enqueue key item dv) key')) (snapshots (queue_of dv key' @ (if key' = key then [item] else [])))"
  using snapshots_suffix [OF put_drop_oldest_suffix] by (simp add: delivery_enqueue_def)

lemma deliver_to_queue:
  "subseq (snapshots (queue_of (deliver_to t c dv) key)) (snapshots (queue_of dv key) @ (if config_key t c = key then [t] else []))"
proof -
  let ?k = "config_key t c"
  have start: "subseq (snapshots (queue_of (start_worker ?k c dv) key)) (snapshots (queue_of dv key))"
    by (simp add: start_worker_def)
  have enq: "subseq (snapshots (queue_of (delivery_enqueue ?k (Some t) d) key)) (snapshots (queue_of d key) @ (if ?k = key then [t] else []))" for d
    using enqueue_queue [of ?k "Some t" d key] by (auto simp: eq_commute [of key])
  show ?thesis
  proof (cases "case map_of (dv_workers dv) ?k of None \<Rightarrow> True | Some w \<Rightarrow> wk_done w")
    case True
    then have "deliver_to t c dv = delivery_enqueue ?k (Some t) (start_worker ?k c dv)" unfolding deliver_to_def Let_def by simp
    then show ?thesis
      using subseq_order.trans [OF enq list_emb_append_mono [OF start subseq_order.refl]] by simp
  next
    case False
    then have "deliver_to t c dv = delivery_enqueue ?k (Some t) dv" unfolding deliver_to_def Let_def by simp
    then show ?thesis using enq by simp
  qed
qed

lemma deliver_queue:
  "subseq (snapshots (queue_of (delivery_deliver cs t dv) key))
     (snapshots (queue_of dv key) @ replicate (length (filter (\<lambda>c. config_key t c = key) cs)) t)"
  unfolding delivery_deliver_def
proof (induction cs arbitrary: dv)
  case (Cons c cs)
  have "subseq (snapshots (queue_of (deliver_to t c dv) key) @ replicate (length (filter (\<lambda>c. config_key t c = key) cs)) t)
      ((snapshots (queue_of dv key) @ (if config_key t c = key then [t] else [])) @ replicate (length (filter (\<lambda>c. config_key t c = key) cs)) t)"
    by (rule list_emb_append_mono [OF deliver_to_queue subseq_order.refl])
  then show ?case using subseq_order.trans [OF Cons] by (auto split: if_splits)
qed simp

lemma sentinels_queue: "subseq (snapshots (queue_of (fold (\<lambda>k. delivery_enqueue k None) ks dv) key)) (snapshots (queue_of dv key))"
proof (induction ks arbitrary: dv)
  case (Cons k ks)
  have "subseq (snapshots (queue_of (delivery_enqueue k None dv) key)) (snapshots (queue_of dv key))"
    using enqueue_queue [of k None dv key] by (auto split: if_splits)
  with Cons show ?case by (auto intro: subseq_order.trans)
qed simp

text \<open>Every step keeps: what was sent, followed by what is queued, is a subsequence of what was submitted.\<close>

lemma step_in_order:
  assumes "delivery_step dv ev dv'" and "subseq (sent key evs @ snapshots (queue_of dv key)) (accepted key evs)"
  shows "subseq (sent key (evs @ [ev]) @ snapshots (queue_of dv' key)) (accepted key (evs @ [ev]))"
proof -
  have shrink: "subseq (sent key evs @ xs) (accepted key evs)" if "subseq xs (snapshots (queue_of dv key))" for xs
    using subseq_order.trans [OF list_emb_append_mono [OF subseq_order.refl that] assms(2)] .
  from assms(1) show ?thesis
  proof cases
    case (deliver cs t)
    have "subseq ((sent key evs @ snapshots (queue_of dv key)) @ replicate (length (filter (\<lambda>c. config_key t c = key) cs)) t)
        (accepted key evs @ replicate (length (filter (\<lambda>c. config_key t c = key) cs)) t)"
      by (rule list_emb_append_mono [OF assms(2) subseq_order.refl])
    with deliver show ?thesis
      by (auto simp: accepted_append sent_append intro: subseq_order.trans list_emb_append_mono [OF subseq_order.refl deliver_queue])
  next
    case (take k w t q)
    then show ?thesis using assms(2)
      by (cases "k = key") (auto simp: accepted_append sent_append set_worker_def set_queue_def)
  next
    case (sentinel k w q)
    then show ?thesis using assms(2)
      by (cases "k = key") (auto simp: accepted_append sent_append set_worker_def set_queue_def)
  next
    case shutdown
    then show ?thesis using shrink [OF sentinels_queue] by (simp add: accepted_append sent_append delivery_sentinels_def)
  next
    case (cleanup k f)
    then show ?thesis using shrink [of "[]"] assms(2)
      by (auto simp: accepted_append sent_append cleanup_queue_def split: option.split)
  qed (use assms(2) in \<open>auto simp: accepted_append sent_append set_worker_def delivery_cancel_def\<close>)
qed

text \<open>Property C33: webhooks receive snapshots in order. Whatever is submitted, dropped, cancelled or shut down, for every
  configuration the snapshots its worker has sent, followed by those still queued, form a subsequence of the snapshots that
  were submitted: none is repeated, none overtakes another.\<close>

theorem deliveries_in_order:
  assumes "delivery_run (WebhookDeliveryService_init retries delay pol maxsize) evs dv"
  shows "subseq (sent key evs @ snapshots (queue_of dv key)) (accepted key evs)"
proof -
  have "subseq (sent key evs @ snapshots (queue_of dv key)) (accepted key evs)"
    if "delivery_run dv0 evs dv" "dv0 = WebhookDeliveryService_init retries delay pol maxsize" for dv0
    using that
    by (induction rule: delivery_run.induct) (auto simp: WebhookDeliveryService_init_def intro: step_in_order)
  with assms show ?thesis by blast
qed

definition hook_config :: task_push_config where
  "hook_config = \<lparr>tp_task_id = ''t1'', tp_id = None, tp_url = ''https://example.com/hook'', tp_token = None, tp_authentication = None\<rparr>"

definition open_policy :: policy where
  "open_policy = \<lparr>pl_allow_http = False, pl_allowed_hosts = None, pl_blocked_hosts = None\<rparr>"

theorem deliveries_in_order_witness:
  "\<forall>t. \<exists>dv. delivery_run (WebhookDeliveryService_init 3 1 open_policy 100) [Submit [hook_config] t] dv
    \<and> subseq (snapshots (queue_of dv (t_id t, ''default''))) [t]"
proof
  fix t
  let ?i = "WebhookDeliveryService_init 3 1 open_policy 100"
  have run: "delivery_run ?i [Submit [hook_config] t] (delivery_deliver [hook_config] t ?i)"
    using delivery_run.step [OF delivery_run.start delivery_step.deliver] by simp
  from deliveries_in_order [OF run, of "(t_id t, ''default'')"] run
  show "\<exists>dv. delivery_run ?i [Submit [hook_config] t] dv \<and> subseq (snapshots (queue_of dv (t_id t, ''default''))) [t]"
    by (auto simp: config_key_def hook_config_def)
qed

section \<open>Where requests go\<close>

lemma attempt_loop_posts: "Post r \<in> set (fst (attempt_loop http base rq n m)) \<Longrightarrow> r = rq"
  by (induction http base rq n m rule: attempt_loop.induct)
    (auto simp: Let_def case_prod_unfold split: http_result.splits if_splits)

lemma set_username: "url_username u = Some x \<Longrightarrow> set x \<subseteq> set (u_netloc u)"
  using set_partition_str(1) [of "CHR '':''" "fst (rpartition_str (CHR ''@'') (u_netloc u))"] set_rpartition_str [of "CHR ''@''" "u_netloc u"]
  by (auto simp: url_username_def case_prod_unfold split: if_splits)

lemma set_password: "url_password u = Some x \<Longrightarrow> set x \<subseteq> set (u_netloc u)"
  using set_partition_str(2) [of "CHR '':''" "fst (rpartition_str (CHR ''@'') (u_netloc u))"] set_rpartition_str [of "CHR ''@''" "u_netloc u"]
  by (auto simp: url_password_def case_prod_unfold split: if_splits)

lemma userinfo_shape: "url_userinfo u = [] \<or> (\<exists>x. url_userinfo u = x @ ''@'' \<and> set x \<subseteq> insert (CHR '':'') (set (u_netloc u)))"
proof (cases "url_username u")
  case (Some x)
  show ?thesis
  proof (cases "url_password u")
    case (Some y)
    with \<open>url_username u = Some x\<close> have "url_userinfo u = [] \<or> url_userinfo u = (x @ (if y \<noteq> [] then '':'' @ y else '''')) @ ''@''"
      by (simp add: url_userinfo_def)
    moreover have "set (x @ (if y \<noteq> [] then '':'' @ y else '''')) \<subseteq> insert (CHR '':'') (set (u_netloc u))"
      using set_username [OF \<open>url_username u = Some x\<close>] set_password [OF Some] by auto
    ultimately show ?thesis by blast
  next
    case None
    with \<open>url_username u = Some x\<close> have "url_userinfo u = [] \<or> url_userinfo u = x @ ''@''"
      by (simp add: url_userinfo_def)
    with set_username [OF \<open>url_username u = Some x\<close>] show ?thesis by blast
  qed
qed (simp add: url_userinfo_def)

text \<open>The authority of a pinned URL names the pinned address.\<close>

lemma pinned_authority:
  assumes "urlparse url = Some u" and "u_scheme u \<in> {''http'', ''https''}" and "list_all addr_char ip" and "ip \<noteq> []"
    and "pin_url url ip = Some (url', host, sni)" and "urlparse url' = Some v"
  shows "url_hostname v = Some ip \<and> u_scheme v = u_scheme u"
proof -
  let ?ref = "if CHR '':'' \<in> set ip then ''['' @ ip @ '']'' else ip"
  obtain port where port: "url_port u = Some port" using assms(1,5) by (auto simp: pin_url_def Let_def split: option.splits)
  let ?suffix = "case port of None \<Rightarrow> '''' | Some p \<Rightarrow> '':'' @ nat_str p"
  let ?netloc = "url_userinfo u @ ?ref @ ?suffix"
  have url': "url' = urlunparse (u\<lparr>u_netloc := ?netloc\<rparr>)"
    using assms(1,5) port by (auto simp: pin_url_def Let_def)
  note user = userinfo_shape [of u]
  have plain: "list_all plain x" if "list_all addr_char x" for x
    using that addr_char_plain by (auto simp: list_all_iff netloc_end_def)
  have ip: "list_all plain ip" by (rule plain [OF assms(3)])
  have suffix: "list_all plain ?suffix"
    using plain [OF nat_str_addr] by (auto simp: netloc_end_def split: option.split)
  have "c \<in> set (url_userinfo u) \<Longrightarrow> c \<in> {CHR ''@'', CHR '':''} \<union> set (u_netloc u)" for c
    using user by auto
  moreover have "plain (CHR ''@'')" "plain (CHR '':'')" by (simp_all add: netloc_end_def)
  moreover have "\<And>c. c \<in> set (u_netloc u) \<Longrightarrow> plain c" using urlparse_netloc_plain [OF assms(1)] by (simp add: list_all_iff)
  ultimately have "\<And>c. c \<in> set (url_userinfo u) \<Longrightarrow> plain c" by blast
  then have "list_all plain (url_userinfo u)" by (simp add: list_all_iff)
  moreover have "list_all plain ?ref" using ip by (simp add: netloc_end_def)
  ultimately have "list_all plain ?netloc" using suffix by (simp only: list_all_append simp_thms)
  with urlparse_urlunparse [of "u\<lparr>u_netloc := ?netloc\<rparr>" v] assms(2,4,6) url'
  have v: "u_scheme v = u_scheme u" "u_netloc v = ?netloc" by auto
  have "fst (hostinfo ?netloc) = ip"
    by (rule hostinfo_addr [OF assms(3,4), where p = "case port of None \<Rightarrow> '''' | Some p \<Rightarrow> nat_str p"])
      (use user nat_str_digits in \<open>auto simp: list_all_iff split: option.split\<close>)
  with hostname_addr [OF assms(3,4)] v show ?thesis by simp
qed

lemma deliver_single_post:
  assumes "Post rq \<in> set (fst (deliver_single dns http dv c t))"
  obtains r where "resolve_webhook_url dns (dv_policy dv) (tp_url c) = Inr (Some r)" "rq_task rq = sanitize_task_for_client t"
    "truthy_list (rv_pinned_ips r) \<and> (\<exists>host sni. pin_url (tp_url c) (hd (the (rv_pinned_ips r))) = Some (rq_url rq, host, sni))
      \<or> \<not> truthy_list (rv_pinned_ips r) \<and> rq_url rq = tp_url c"
  using assms
  by (auto simp: deliver_single_def Let_def split: sum.splits option.splits if_splits prod.splits dest!: attempt_loop_posts)

text \<open>Property C32: no request leaves for a blocked address. Every request that a delivery sends, on every attempt, carries the
  scheme the policy allows and a host that is on the allow list or, without one, is an address that is not blocked: the literal
  of the URL or an address the resolver returned during validation; the resolver is not asked again. The hypothesis on the resolver is
  that it returns plain addresses, without a scope.\<close>

theorem requests_reach_safe_hosts:
  assumes "Post rq \<in> set (fst (deliver_single dns http dv c t))" and "urlparse (rq_url rq) = Some v"
    and "\<forall>h as. dns h = Some as \<longrightarrow> (\<forall>a \<in> set as. CHR ''%'' \<notin> set a)"
  shows "(pl_allow_http (dv_policy dv) \<or> u_scheme v = ''https'') \<and> (\<exists>h. url_hostname v = Some h \<and>
    (if truthy_list (pl_allowed_hosts (dv_policy dv)) then lower h \<in> set (opt_list (pl_allowed_hosts (dv_policy dv)))
     else \<exists>ip. (ip_address h = Some ip \<or> h = ip_str ip) \<and> \<not> is_blocked_ip ip))"
proof -
  obtain r where r: "resolve_webhook_url dns (dv_policy dv) (tp_url c) = Inr (Some r)" "rq_task rq = sanitize_task_for_client t"
    "truthy_list (rv_pinned_ips r) \<and> (\<exists>host sni. pin_url (tp_url c) (hd (the (rv_pinned_ips r))) = Some (rq_url rq, host, sni))
      \<or> \<not> truthy_list (rv_pinned_ips r) \<and> rq_url rq = tp_url c"
    by (rule deliver_single_post [OF assms(1)])
  obtain u h where u: "urlparse (tp_url c) = Some u" "url_hostname u = Some h" "h \<noteq> []" "u_scheme u \<in> {''http'', ''https''}"
    "pl_allow_http (dv_policy dv) \<or> u_scheme u = ''https''" "lower h \<notin> set (opt_list (pl_blocked_hosts (dv_policy dv)))"
    "truthy_list (pl_allowed_hosts (dv_policy dv)) \<and> lower h \<in> set (opt_list (pl_allowed_hosts (dv_policy dv))) \<and> rv_pinned_ips r = None
      \<or> \<not> truthy_list (pl_allowed_hosts (dv_policy dv)) \<and> resolve_host dns h = Inr (Some r)"
    by (rule resolve_admits [OF r(1)])
  show ?thesis
  proof (cases "rv_pinned_ips r")
    case None
    with r(3) assms(2) u(1) have "v = u" by (auto simp: truthy_list_def)
    with u resolve_host_admits [of dns h r] assms(3) None show ?thesis by auto
  next
    case (Some ips)
    with u(7) resolve_host_admits [of dns h r] assms(3)
    have ips: "ips \<noteq> []" "safe_addr (hd ips)" "\<not> truthy_list (pl_allowed_hosts (dv_policy dv))" by auto
    then obtain ip where ip: "hd ips = ip_str ip" "\<not> is_blocked_ip ip" "list_all addr_char (hd ips)"
      by (auto simp: safe_addr_def)
    from r(3) Some ips(1) obtain host sni where "pin_url (tp_url c) (hd ips) = Some (rq_url rq, host, sni)"
      by (auto simp: truthy_list_def)
    with pinned_authority [OF u(1,4) ip(3) _ _ assms(2)] ip(1) ip_str_not_Nil [of ip]
    have "url_hostname v = Some (hd ips)" "u_scheme v = u_scheme u" by auto
    with u(5) ips(3) ip show ?thesis by auto
  qed
qed

text \<open>A host name that resolves to a public address.\<close>

definition public_dns :: resolver where
  "public_dns h = Some [''8.8.8.8'']"

definition sample_delivery :: delivery where
  "sample_delivery = delivery_startup (WebhookDeliveryService_init 3 1 open_policy 100)"

definition h_config :: task_push_config where
  "h_config = \<lparr>tp_task_id = ''t1'', tp_id = None, tp_url = ''https://h/'', tp_token = None, tp_authentication = None\<rparr>"

lemma sample_urls:
  "urlparse ''https://h/'' = Some \<lparr>u_scheme = ''https'', u_netloc = ''h'', u_path = ''/'', u_params = '''', u_query = '''', u_fragment = ''''\<rparr>"
  "pin_url ''https://h/'' ''8.8.8.8'' = Some (''https://8.8.8.8/'', ''h'', Some ''h'')"
  "urlparse ''https://8.8.8.8/'' = Some \<lparr>u_scheme = ''https'', u_netloc = ''8.8.8.8'', u_path = ''/'', u_params = '''', u_query = '''', u_fragment = ''''\<rparr>"
  "ip_address ''h'' = None" "v4_str 0x08080808 = ''8.8.8.8''"
  by code_simp+

lemma sample_address: "ip_address ''8.8.8.8'' = Some (IPv4 0x08080808)" "\<not> is_blocked_ip (IPv4 0x08080808)"
  by (simp_all add: ip_address_def v4_int_def parse_octet_def is_digit_def Let_def
      is_blocked_ip_def v4_is_private_def in_table_def in_net_def v4_def v4_private_networks_def)

lemma sample_resolve:
  "resolve_webhook_url public_dns open_policy ''https://h/'' = Inr (Some \<lparr>rv_hostname = ''h'', rv_pinned_ips = Some [''8.8.8.8'']\<rparr>)"
proof -
  have "url_hostname \<lparr>u_scheme = ''https'', u_netloc = ''h'', u_path = ''/'', u_params = '''', u_query = '''', u_fragment = ''''\<rparr> = Some ''h''"
    by code_simp
  then show ?thesis
    by (simp add: resolve_webhook_url_def sample_urls open_policy_def truthy_list_def resolve_host_def public_dns_def sample_address)
qed

theorem requests_reach_safe_hosts_witness:
  "\<forall>t. \<exists>rq v. Post rq \<in> set (fst (deliver_single public_dns (\<lambda>_. Status 200) sample_delivery h_config t)) \<and> urlparse (rq_url rq) = Some v
    \<and> u_scheme v = ''https'' \<and> (\<exists>h ip. url_hostname v = Some h \<and> (ip_address h = Some ip \<or> h = ip_str ip) \<and> \<not> is_blocked_ip ip)"
proof
  fix t
  let ?rq = "\<lparr>rq_url = ''https://8.8.8.8/'', rq_headers = AList.update ''Host'' ''h'' (build_headers h_config), rq_sni = Some ''h'',
    rq_task = sanitize_task_for_client t\<rparr>"
  have dv: "dv_policy sample_delivery = open_policy" "dv_started sample_delivery" "nat (dv_max_retries sample_delivery) = Suc 2"
    "tp_url h_config = ''https://h/''"
    by (simp_all add: sample_delivery_def delivery_startup_def WebhookDeliveryService_init_def h_config_def)
  have post: "Post ?rq \<in> set (fst (deliver_single public_dns (\<lambda>_. Status 200) sample_delivery h_config t))"
    by (simp add: deliver_single_def dv sample_resolve sample_urls truthy_list_def Let_def numeral_3_eq_3)
  from requests_reach_safe_hosts [OF post, of "the (urlparse ''https://8.8.8.8/'')"] post
  show "\<exists>rq v. Post rq \<in> set (fst (deliver_single public_dns (\<lambda>_. Status 200) sample_delivery h_config t)) \<and> urlparse (rq_url rq) = Some v
    \<and> u_scheme v = ''https'' \<and> (\<exists>h ip. url_hostname v = Some h \<and> (ip_address h = Some ip \<or> h = ip_str ip) \<and> \<not> is_blocked_ip ip)"
    by (intro exI [of _ ?rq] exI [of _ "the (urlparse ''https://8.8.8.8/'')"])
      (auto simp: sample_urls(3) dv open_policy_def truthy_list_def public_dns_def)
qed

end
