(* ===== verification/Errors_V10.thy ===== *)
theory Errors_V10
  imports Worker_Adapter
begin

text \<open>
  \<^verbatim>\<open>_errors_v10.py\<close>: the one table that turns framework exceptions into error answers, for REST (\<^verbatim>\<open>google.rpc.Status\<close>)
  and for JSON-RPC. Every exception class of the framework derives from \<^verbatim>\<open>Exception\<close> directly, so the walk along the class
  order finds the entry of the class itself or none.
\<close>

record ErrorDescriptor =
  http_status :: int
  grpc_status :: string
  json_rpc_code :: int
  reason :: string
  default_message :: string

definition VALIDATION_ERROR :: ErrorDescriptor where
  "VALIDATION_ERROR = \<lparr>http_status = 400, grpc_status = ''INVALID_ARGUMENT'', json_rpc_code = -32600,
     reason = ''INVALID_REQUEST'', default_message = ''Invalid request''\<rparr>"

definition METHOD_NOT_FOUND :: ErrorDescriptor where
  "METHOD_NOT_FOUND = \<lparr>http_status = 404, grpc_status = ''NOT_FOUND'', json_rpc_code = -32601,
     reason = ''METHOD_NOT_FOUND'', default_message = ''Method not found''\<rparr>"

definition PARSE_ERROR :: ErrorDescriptor where
  "PARSE_ERROR = \<lparr>http_status = 400, grpc_status = ''INVALID_ARGUMENT'', json_rpc_code = -32700,
     reason = ''PARSE_ERROR'', default_message = ''Parse error''\<rparr>"

definition INTERNAL_ERROR :: ErrorDescriptor where
  "INTERNAL_ERROR = \<lparr>http_status = 500, grpc_status = ''INTERNAL'', json_rpc_code = -32603,
     reason = ''INTERNAL_ERROR'', default_message = ''Internal error''\<rparr>"

fun ERROR_CATALOG :: "exn \<Rightarrow> ErrorDescriptor option" where
  "ERROR_CATALOG (TaskNotFoundError _) = Some \<lparr>http_status = 404, grpc_status = ''NOT_FOUND'', json_rpc_code = -32001,
     reason = ''TASK_NOT_FOUND'', default_message = ''Task not found''\<rparr>"
| "ERROR_CATALOG (TaskTerminalStateError _) = Some \<lparr>http_status = 409, grpc_status = ''FAILED_PRECONDITION'',
     json_rpc_code = -32004, reason = ''TASK_TERMINAL_STATE'', default_message = ''Task is in terminal state''\<rparr>"
| "ERROR_CATALOG (TaskNotCancelableError _) = Some \<lparr>http_status = 409, grpc_status = ''FAILED_PRECONDITION'',
     json_rpc_code = -32002, reason = ''TASK_NOT_CANCELABLE'', default_message = ''Task is not cancelable''\<rparr>"
| "ERROR_CATALOG (ContextMismatchError _ _ _) = Some \<lparr>http_status = 400, grpc_status = ''INVALID_ARGUMENT'',
     json_rpc_code = -32602, reason = ''CONTEXT_MISMATCH'', default_message = ''contextId does not match task''\<rparr>"
| "ERROR_CATALOG (TaskNotAcceptingMessagesError _) = Some \<lparr>http_status = 422, grpc_status = ''FAILED_PRECONDITION'',
     json_rpc_code = -32602, reason = ''TASK_NOT_ACCEPTING_MESSAGES'', default_message = ''Task does not accept messages''\<rparr>"
| "ERROR_CATALOG (UnsupportedOperationError _) = Some \<lparr>http_status = 400, grpc_status = ''UNIMPLEMENTED'',
     json_rpc_code = -32004, reason = ''UNSUPPORTED_OPERATION'', default_message = ''Operation not supported''\<rparr>"
| "ERROR_CATALOG (ContentTypeNotSupportedError _) = Some \<lparr>http_status = 415, grpc_status = ''INVALID_ARGUMENT'',
     json_rpc_code = -32005, reason = ''CONTENT_TYPE_NOT_SUPPORTED'', default_message = ''Incompatible content type''\<rparr>"
| "ERROR_CATALOG (InvalidAgentResponseError _) = Some \<lparr>http_status = 500, grpc_status = ''INTERNAL'',
     json_rpc_code = -32006, reason = ''INVALID_AGENT_RESPONSE'', default_message = ''Invalid agent response''\<rparr>"
| "ERROR_CATALOG (ConcurrencyError _ _) = Some \<lparr>http_status = 409, grpc_status = ''ABORTED'',
     json_rpc_code = -32004, reason = ''CONCURRENT_MODIFICATION'', default_message = ''Concurrent modification, please retry''\<rparr>"
| "ERROR_CATALOG (AuthenticationRequiredError _ _) = Some \<lparr>http_status = 401, grpc_status = ''UNAUTHENTICATED'',
     json_rpc_code = -32603, reason = ''AUTH_REQUIRED'', default_message = ''Authentication required''\<rparr>"
| "ERROR_CATALOG (PushConfigNotFoundError _) = Some \<lparr>http_status = 404, grpc_status = ''NOT_FOUND'',
     json_rpc_code = -32001, reason = ''PUSH_CONFIG_NOT_FOUND'', default_message = ''Push config not found''\<rparr>"
| "ERROR_CATALOG _ = None"

definition descriptor_for :: "exn \<Rightarrow> ErrorDescriptor" where
  "descriptor_for e = (case ERROR_CATALOG e of Some d \<Rightarrow> d | None \<Rightarrow> INTERNAL_ERROR)"

text \<open>What the source tests as \<^verbatim>\<open>desc is INTERNAL_ERROR\<close>: the entries of the table are objects of their own.\<close>

definition uncataloged :: "exn \<Rightarrow> bool" where
  "uncataloged e \<longleftrightarrow> ERROR_CATALOG e = None"

section \<open>Answers\<close>

record response =
  rs_status :: int
  rs_content :: json
  rs_headers :: "(string, string) pydict"

definition json_strings :: "(string, string) pydict \<Rightarrow> json" where
  "json_strings d = JObj (map (\<lambda>(k, v). (k, JStr v)) d)"

definition error_info :: "string \<Rightarrow> (string, string) pydict \<Rightarrow> json" where
  "error_info rsn metadata = JObj ([(''@type'', JStr ''type.googleapis.com/google.rpc.ErrorInfo''), (''reason'', JStr rsn),
     (''domain'', JStr ''a2a-protocol.org'')] @ (if metadata = [] then [] else [(''metadata'', json_strings metadata)]))"

definition to_payload :: "int \<Rightarrow> string \<Rightarrow> string \<Rightarrow> string \<Rightarrow> (string, string) pydict \<Rightarrow> json" where
  "to_payload code status msg rsn metadata = JObj [(''error'', JObj [(''code'', JInt code), (''status'', JStr status),
     (''message'', JStr msg), (''details'', JList [error_info rsn metadata])])]"

definition build_error ::
  "int \<Rightarrow> string \<Rightarrow> string \<Rightarrow> string \<Rightarrow> (string, string) pydict \<Rightarrow> (string, string) pydict \<Rightarrow> response" where
  "build_error code status msg rsn metadata headers =
     \<lparr>rs_status = code, rs_content = to_payload code status msg rsn metadata, rs_headers = headers\<rparr>"

text \<open>The metadata an exception adds: \<^verbatim>\<open>setdefault\<close> keeps a value the caller gave.\<close>

fun exn_metadata :: "exn \<Rightarrow> (string, string) pydict" where
  "exn_metadata (ContentTypeNotSupportedError mime) = [(''mimeType'', mime)]"
| "exn_metadata (InvalidAgentResponseError detail) = [(''detail'', detail)]"
| "exn_metadata _ = []"

definition set_defaults :: "('k, 'v) pydict \<Rightarrow> ('k, 'v) pydict \<Rightarrow> ('k, 'v) pydict" where
  "set_defaults new d = d @ filter (\<lambda>(k, v). k \<notin> fst ` set d) new"

fun auth_header :: "exn \<Rightarrow> (string, string) pydict \<Rightarrow> (string, string) pydict" where
  "auth_header (AuthenticationRequiredError scheme realm) headers =
     AList.update ''WWW-Authenticate'' (scheme @ '' realm=\"'' @ realm @ ''\"'') headers"
| "auth_header _ headers = headers"

definition non_empty :: "string \<Rightarrow> string \<Rightarrow> string" where
  "non_empty s d = (if s = '''' then d else s)"

definition build_error_from_exception ::
  "exn \<Rightarrow> string option \<Rightarrow> (string, string) pydict \<Rightarrow> (string, string) pydict \<Rightarrow> response" where
  "build_error_from_exception e msg metadata headers =
     (let desc = descriptor_for e;
          msg1 = (if uncataloged e then Some (default_message INTERNAL_ERROR) else msg)
      in build_error (http_status desc) (grpc_status desc)
           (or_else msg1 (non_empty (exn_str e) (default_message desc)))
           (reason desc) (set_defaults (exn_metadata e) metadata) (auth_header e headers))"

definition jsonrpc_error_body :: "json \<Rightarrow> int \<Rightarrow> string \<Rightarrow> string \<Rightarrow> (string, string) pydict \<Rightarrow> json" where
  "jsonrpc_error_body req_id code msg rsn metadata =
     JObj [(''jsonrpc'', JStr ''2.0''), (''id'', req_id),
       (''error'', JObj [(''code'', JInt code), (''message'', JStr msg), (''data'', JList [error_info rsn metadata])])]"

definition jsonrpc_error_from_exception :: "exn \<Rightarrow> json \<Rightarrow> json" where
  "jsonrpc_error_from_exception e req_id =
     (let desc = descriptor_for e;
          msg = (if uncataloged e then default_message INTERNAL_ERROR
                 else non_empty (exn_str e) (default_message desc))
      in jsonrpc_error_body req_id (json_rpc_code desc) msg (reason desc) (exn_metadata e))"

section \<open>What the table guarantees\<close>

lemma catalog_cases:
  "ERROR_CATALOG e = Some d \<Longrightarrow> 400 \<le> http_status d \<and> http_status d < 600 \<and> -32768 \<le> json_rpc_code d
    \<and> json_rpc_code d \<le> -32000 \<and> reason d \<noteq> ''INTERNAL_ERROR''"
  by (cases e) auto

text \<open>\<open>is INTERNAL_ERROR\<close> and equality agree, so the test recognises exactly the exceptions outside the table.\<close>

lemma uncataloged_iff: "uncataloged e \<longleftrightarrow> descriptor_for e = INTERNAL_ERROR"
  using catalog_cases [of e]
  by (auto simp: uncataloged_def descriptor_for_def INTERNAL_ERROR_def split: option.split)

text \<open>Both transports report the same reason for the same exception, in the reserved ranges of their codes.\<close>

lemma descriptor_ranges:
  "400 \<le> http_status (descriptor_for e) \<and> http_status (descriptor_for e) < 600
    \<and> -32768 \<le> json_rpc_code (descriptor_for e) \<and> json_rpc_code (descriptor_for e) \<le> -32000"
  using catalog_cases [of e] by (auto simp: descriptor_for_def INTERNAL_ERROR_def split: option.split)

text \<open>No internals leak: the answer for two exceptions outside the table is the same, whatever texts they carry.\<close>

lemma uncataloged_metadata: "uncataloged e \<Longrightarrow> exn_metadata e = [] \<and> auth_header e h = h"
  by (cases e) (simp_all add: uncataloged_def)

lemma uncataloged_answers:
  assumes "uncataloged e" and "uncataloged e'"
  shows "jsonrpc_error_from_exception e i = jsonrpc_error_from_exception e' i"
    and "build_error_from_exception e msg md h = build_error_from_exception e' msg' md h"
  using assms by (simp_all add: jsonrpc_error_from_exception_def build_error_from_exception_def uncataloged_metadata
    descriptor_for_def uncataloged_def Let_def or_else_def INTERNAL_ERROR_def truthy_def)

end
