(* ===== verification/Stream_V10.thy ===== *)
theory Stream_V10
  imports Errors_V10 Task_Manager
begin

text \<open>
  What leaves the server in version 1.0: JSON text as \<^verbatim>\<open>json.dumps\<close> prints it, the frames of an event stream, and
  \<^verbatim>\<open>_stream_v10.py\<close>, which wraps stream events. The dumps of the protocol objects are pydantic's and parameters of the model.
\<close>

section \<open>JSON text\<close>

definition json_char :: "char \<Rightarrow> string" where
  "json_char c = (let n = of_char c :: nat; bs = char_of (92 :: nat) in
     if n = 34 \<or> n = 92 then [bs, c]
     else if n = 8 then [bs, CHR ''b''] else if n = 9 then [bs, CHR ''t''] else if n = 10 then [bs, CHR ''n'']
     else if n = 12 then [bs, CHR ''f''] else if n = 13 then [bs, CHR ''r'']
     else if n < 32 \<or> 128 \<le> n then bs # ''u00'' @ [hex_digit (n div 16), hex_digit (n mod 16)]
     else [c])"

definition json_string :: "string \<Rightarrow> string" where
  "json_string s = [char_of (34 :: nat)] @ concat (map json_char s) @ [char_of (34 :: nat)]"

fun json_dumps :: "json \<Rightarrow> string" where
  "json_dumps JNull = ''null''"
| "json_dumps (JBool b) = (if b then ''true'' else ''false'')"
| "json_dumps (JInt n) = int_str n"
| "json_dumps (JStr s) = json_string s"
| "json_dumps (JList xs) = ''['' @ join_strings '', '' (map json_dumps xs) @ '']''"
| "json_dumps (JObj d) = ''{'' @ join_strings '', '' (map (\<lambda>(k, v). json_string k @ '': '' @ json_dumps v) d) @ ''}''"

text \<open>Frames: \<^verbatim>\<open>id: ...\ndata: ...\n\n\<close>.\<close>

definition newline :: char where
  "newline = char_of (10 :: nat)"

definition sse_frame :: "string option \<Rightarrow> string \<Rightarrow> string" where
  "sse_frame eid payload = ''id: '' @ or_else eid '''' @ [newline] @ ''data: '' @ payload @ [newline, newline]"

section \<open>Stream events\<close>

record codec =
  cd_task :: "task \<Rightarrow> json"
  cd_message :: "message \<Rightarrow> json"
  cd_status_event :: "status_event \<Rightarrow> json"
  cd_artifact_event :: "artifact_event \<Rightarrow> json"
  cd_list_result :: "list_result \<Rightarrow> json"
  cd_push_config :: "task_push_config \<Rightarrow> json"

text \<open>\<^verbatim>\<open>sanitize_task_v10\<close>: internal metadata stays on the server.\<close>

definition sanitize_task_v10 :: "task \<Rightarrow> task" where
  "sanitize_task_v10 t =
     (let md = metadata_dict t; cleaned = filter (\<lambda>(k, v). take 1 k \<noteq> ''_'') md in
      if md = [] then t
      else if length cleaned = length md then t
      else t\<lparr>t_metadata := (if cleaned = [] then None else Some cleaned)\<rparr>)"

type_synonym task_cache = "(string, task) pydict"

fun artifact_index :: "string \<Rightarrow> artifact list \<Rightarrow> nat option" where
  "artifact_index aid [] = None"
| "artifact_index aid (a # as) = (if a_artifact_id a = aid then Some 0 else map_option Suc (artifact_index aid as))"

text \<open>Every stream event has a representation; the source's last line, for other objects, is not reached.\<close>

fun wrap_stream_event_v10 :: "codec \<Rightarrow> stream_event \<Rightarrow> task_cache \<Rightarrow> mdict \<times> task_cache" where
  "wrap_stream_event_v10 cd (DirectReply m) cache = ([(''message'', cd_message cd m)], cache)"
| "wrap_stream_event_v10 cd (TerminalMarker se) cache = ([(''taskStatusUpdate'', cd_status_event cd se)], cache)"
| "wrap_stream_event_v10 cd (TaskSnapshot t) cache =
     (let s = sanitize_task_v10 t in ([(''task'', cd_task cd s)], AList.update (t_id s) s cache))"
| "wrap_stream_event_v10 cd (MessageEvent m) cache = ([(''message'', cd_message cd m)], cache)"
| "wrap_stream_event_v10 cd (TaskStatusUpdateEvent se) cache = ([(''taskStatusUpdate'', cd_status_event cd se)], cache)"
| "wrap_stream_event_v10 cd (TaskArtifactUpdateEvent ae) cache =
     (let idx = (case map_of cache (ae_task_id ae) of None \<Rightarrow> None
                 | Some t \<Rightarrow> artifact_index (a_artifact_id (ae_artifact ae)) (t_artifacts t))
      in ([(''taskArtifactUpdate'', cd_artifact_event cd ae)]
            @ (case idx of None \<Rightarrow> [] | Some i \<Rightarrow> [(''index'', JInt (int i))]), cache))"

fun is_DirectReply :: "stream_event \<Rightarrow> bool" where
  "is_DirectReply (DirectReply m) = True"
| "is_DirectReply _ = False"

fun is_TerminalMarker :: "stream_event \<Rightarrow> bool" where
  "is_TerminalMarker (TerminalMarker se) = True"
| "is_TerminalMarker _ = False"

text \<open>The loop of the stream generators, with the text of one event as a parameter: direct replies are skipped, a terminal
  marker is the last event.\<close>

fun sse_rest ::
  "(mdict \<Rightarrow> string) \<Rightarrow> codec \<Rightarrow> task_cache \<Rightarrow> (string option \<times> stream_event) list \<Rightarrow> (string option \<times> string) list" where
  "sse_rest txt_of cd cache [] = []"
| "sse_rest txt_of cd cache ((eid, ev) # evs) =
     (if is_DirectReply ev then sse_rest txt_of cd cache evs
      else case wrap_stream_event_v10 cd ev cache of (payload, cache') \<Rightarrow>
        (eid, txt_of payload) # (if is_TerminalMarker ev then [] else sse_rest txt_of cd cache' evs))"

text \<open>The first event is sent in any case, also a direct reply.\<close>

fun sse_events ::
  "(mdict \<Rightarrow> string) \<Rightarrow> codec \<Rightarrow> (string option \<times> stream_event) list \<Rightarrow> (string option \<times> string) list" where
  "sse_events txt_of cd [] = []"
| "sse_events txt_of cd ((eid, ev) # evs) =
     (case wrap_stream_event_v10 cd ev [] of (payload, cache) \<Rightarrow> (eid, txt_of payload) # sse_rest txt_of cd cache evs)"

end
