(* ===== verification/Middleware.thy ===== *)
theory Middleware
  imports Task_Manager Net_Address
begin

text \<open>
  \<^verbatim>\<open>middleware/base.py\<close>, \<^verbatim>\<open>middleware/auth.py\<close> and the pipelines in which the endpoints run middleware.

  A middleware is a pair of methods on the request envelope; it is user code and any such pair is allowed. The state of a request
  is the world, the envelope, the list \<open>started\<close> of the middleware whose \<^verbatim>\<open>before_dispatch\<close> returned, and a log of the
  calls, in which \<open>Handled\<close> marks the moment at which the request reaches the task manager or a handler. \<^verbatim>\<open>_a2a_error\<close>, the
  one entry of the context that is an exception object, is a field of its own.
\<close>

section \<open>Requests, envelopes, middleware\<close>

record http_request =
  hr_path :: string
  hr_header :: "string \<Rightarrow> string option"

record envelope =
  en_params :: "send_request option"
  en_tenant :: "string option"
  en_context :: mdict
  en_error :: "exn option"

definition empty_envelope :: envelope where
  "empty_envelope = \<lparr>en_params = None, en_tenant = None, en_context = [], en_error = None\<rparr>"

record middleware =
  mw_id :: nat
  mw_before :: "http_request \<Rightarrow> (envelope, exn, unit) py"
  mw_after :: "send_response option \<Rightarrow> (envelope, exn, unit) py"

text \<open>\<^verbatim>\<open>A2AMiddleware\<close> itself does nothing.\<close>

definition A2AMiddleware :: "nat \<Rightarrow> middleware" where
  "A2AMiddleware i = \<lparr>mw_id = i, mw_before = (\<lambda>req. ret ()), mw_after = (\<lambda>result. ret ())\<rparr>"

definition set_context :: "string \<Rightarrow> json \<Rightarrow> (envelope, exn, unit) py" where
  "set_context k v = modify (\<lambda>en. en\<lparr>en_context := AList.update k v (en_context en)\<rparr>)"

definition default_exclude_paths :: "string list" where
  "default_exclude_paths = [''/v1/health'', ''/v1/health/ready'']"

definition exclude_or_default :: "string list option \<Rightarrow> string list" where
  "exclude_or_default ps = (if opt_list ps = [] then default_exclude_paths else opt_list ps)"

text \<open>\<^verbatim>\<open>scheme.casefold() != "bearer"\<close>: on the characters a header can carry, folding agrees with lower case for this test.\<close>

definition bearer_before ::
  "(string \<Rightarrow> exn + json option) \<Rightarrow> string \<Rightarrow> string list \<Rightarrow> http_request \<Rightarrow> (envelope, exn, unit) py" where
  "bearer_before verify realm exclude req =
     (if hr_path req \<in> set exclude then ret () else
      let auth = or_else (hr_header req ''Authorization'') '''';
          (scheme, sep, token) = partition_str (CHR '' '') auth
      in if lower scheme \<noteq> ''bearer'' \<or> token = '''' then raise (AuthenticationRequiredError ''Bearer'' realm)
         else case verify token of
             Inl e \<Rightarrow> raise e
           | Inr None \<Rightarrow> raise (AuthenticationRequiredError ''Bearer'' realm)
           | Inr (Some claims) \<Rightarrow> thenE (set_context ''auth_claims'' claims) (set_context ''auth_token'' (JStr token)))"

definition BearerTokenMiddleware ::
  "nat \<Rightarrow> (string \<Rightarrow> exn + json option) \<Rightarrow> string \<Rightarrow> string list option \<Rightarrow> middleware" where
  "BearerTokenMiddleware i verify realm exclude =
     (A2AMiddleware i)\<lparr>mw_before := bearer_before verify realm (exclude_or_default exclude)\<rparr>"

text \<open>\<^verbatim>\<open>hmac.compare_digest\<close> on strings accepts ASCII only. The keys are listed in the order in which the set is walked.\<close>

definition ascii :: "string \<Rightarrow> bool" where
  "ascii s \<longleftrightarrow> (\<forall>c \<in> set s. (of_char c :: nat) < 128)"

fun any_key :: "string \<Rightarrow> string list \<Rightarrow> exn + bool" where
  "any_key key [] = Inr False"
| "any_key key (k # ks) =
     (if \<not> (ascii key \<and> ascii k) then Inl (TypeError ''comparing strings with non-ASCII characters is not supported'')
      else if key = k then Inr True else any_key key ks)"

definition api_key_before ::
  "string list \<Rightarrow> string \<Rightarrow> string list \<Rightarrow> http_request \<Rightarrow> (envelope, exn, unit) py" where
  "api_key_before valid_keys header exclude req =
     (if hr_path req \<in> set exclude then ret () else
      if \<not> truthy (hr_header req header) then raise (AuthenticationRequiredError ''ApiKey'' ''a2a'') else
      let key = the (hr_header req header) in
      case any_key key valid_keys of
        Inl e \<Rightarrow> raise e
      | Inr ok \<Rightarrow> if ok then set_context ''api_key'' (JStr key)
          else raise (AuthenticationRequiredError ''ApiKey'' ''a2a''))"

definition ApiKeyMiddleware :: "nat \<Rightarrow> string list \<Rightarrow> string \<Rightarrow> string list option \<Rightarrow> middleware" where
  "ApiKeyMiddleware i valid_keys header exclude =
     (A2AMiddleware i)\<lparr>mw_before := api_key_before valid_keys header (exclude_or_default exclude)\<rparr>"

section \<open>Pipelines\<close>

datatype mw_call = Entered nat | Refused nat | Handled | Left nat "send_response option"

record ('s, 'q) http =
  h_world :: "('s, 'q) world"
  h_envelope :: envelope
  h_started :: "middleware list"
  h_calls :: "mw_call list"

type_synonym ('s, 'q, 'a) hact = "(('s, 'q) http, exn, 'a) py"

definition on_world :: "('s, 'q, 'a) act \<Rightarrow> ('s, 'q, 'a) hact" where
  "on_world m = (\<lambda>h. case m (h_world h) of (r, w) \<Rightarrow> (r, h\<lparr>h_world := w\<rparr>))"

definition on_envelope :: "(envelope, exn, 'a) py \<Rightarrow> ('s, 'q, 'a) hact" where
  "on_envelope m = (\<lambda>h. case m (h_envelope h) of (r, en) \<Rightarrow> (r, h\<lparr>h_envelope := en\<rparr>))"

definition log_call :: "mw_call \<Rightarrow> ('s, 'q, unit) hact" where
  "log_call c = modify (\<lambda>h. h\<lparr>h_calls := h_calls h @ [c]\<rparr>)"

definition handled :: "('s, 'q, 'a) act \<Rightarrow> ('s, 'q, 'a) hact" where
  "handled m = thenE (log_call Handled) (on_world m)"

fun before_all :: "http_request \<Rightarrow> middleware list \<Rightarrow> ('s, 'q, unit) hact" where
  "before_all req [] = ret ()"
| "before_all req (mw # mws) =
     tryE (on_envelope (mw_before mw req))
       (\<lambda>e. thenE (log_call (Refused (mw_id mw))) (raise e))
       (\<lambda>_. thenE (log_call (Entered (mw_id mw)))
          (thenE (modify (\<lambda>h. h\<lparr>h_started := h_started h @ [mw]\<rparr>)) (before_all req mws)))"

fun after_each :: "send_response option \<Rightarrow> middleware list \<Rightarrow> ('s, 'q, unit) hact" where
  "after_each result [] = ret ()"
| "after_each result (mw # mws) =
     thenE (log_call (Left (mw_id mw) result))
       (thenE (on_envelope (mw_after mw result)) (after_each result mws))"

definition after_all :: "send_response option \<Rightarrow> ('s, 'q, unit) hact" where
  "after_all result = bindE (gets h_started) (\<lambda>started. after_each result (rev started))"

definition set_error :: "exn \<Rightarrow> ('s, 'q, unit) hact" where
  "set_error e = on_envelope (modify (\<lambda>en. en\<lparr>en_error := Some e\<rparr>))"

text \<open>A fresh envelope and an empty \<open>started\<close> for the duration of a pipeline.\<close>

definition with_envelope :: "envelope \<Rightarrow> ('s, 'q, 'a) hact \<Rightarrow> ('s, 'q, 'a) hact" where
  "with_envelope en m = (\<lambda>h. case m (h\<lparr>h_envelope := en, h_started := []\<rparr>) of
     (r, h') \<Rightarrow> (r, h'\<lparr>h_envelope := h_envelope h, h_started := h_started h\<rparr>))"

text \<open>The router dependency around an endpoint (\<^verbatim>\<open>_enforce_middleware_pipeline\<close>).\<close>

definition enforce_pipeline ::
  "string list \<Rightarrow> string list \<Rightarrow> envelope \<Rightarrow> middleware list \<Rightarrow> http_request \<Rightarrow> ('s, 'q, 'a) hact \<Rightarrow> ('s, 'q, 'a) hact" where
  "enforce_pipeline self_handled public en mws req endpoint =
     (if hr_path req \<in> set self_handled \<or> hr_path req \<in> set public then endpoint
      else if mws = [] then endpoint
      else with_envelope en
        (finallyE
          (catchE (thenE (before_all req mws) endpoint) (\<lambda>e. thenE (set_error e) (raise e)))
          (after_all None)))"

text \<open>The pipeline of the message endpoints: the task manager gets the envelope's parameters and context. Only subclasses of
  \<^verbatim>\<open>Exception\<close> reach the handler.\<close>

definition envelope_params :: "('s, 'q, send_request \<times> mdict) hact" where
  "envelope_params = bindE (gets h_envelope) (\<lambda>en. case en_params en of
     None \<Rightarrow> raise AssertionError | Some p \<Rightarrow> ret (p, en_context en))"

definition send_pipeline ::
  "envelope \<Rightarrow> middleware list \<Rightarrow> http_request \<Rightarrow> (send_request \<Rightarrow> mdict \<Rightarrow> ('s, 'q, send_response) act)
    \<Rightarrow> ('s, 'q, send_response) hact" where
  "send_pipeline en mws req send = with_envelope en
     (tryE (thenE (before_all req mws) (bindE envelope_params (\<lambda>(p, c). handled (send p c))))
       (\<lambda>e. if is_Exception e then thenE (set_error e) (thenE (after_all None) (raise e)) else raise e)
       (\<lambda>result. thenE (after_all (Some result)) (ret result)))"

text \<open>The pipeline of the streams: \<open>start\<close> runs up to the first event, \<open>failed\<close> answers for a start that raised,
  \<open>rest\<close> sends the events.\<close>

definition stream_pipeline ::
  "envelope \<Rightarrow> middleware list \<Rightarrow> http_request \<Rightarrow> ('s, 'q, 'x) hact \<Rightarrow> (exn \<Rightarrow> ('s, 'q, 'a) hact)
    \<Rightarrow> ('x \<Rightarrow> ('s, 'q, 'a) hact) \<Rightarrow> ('s, 'q, 'a) hact" where
  "stream_pipeline en mws req start failed rest = with_envelope en
     (tryE (catchE (thenE (before_all req mws) start)
              (\<lambda>e. thenE (set_error e) (thenE (after_all None) (raise e))))
       failed
       (\<lambda>first. finallyE (rest first) (after_all None)))"

end
