(* ===== verification/Middleware_Laws.thy ===== *)
theory Middleware_Laws
  imports Middleware
begin

text \<open>
  What the pipelines guarantee whatever the middleware does: the world is touched only by the handler, the handler runs only after
  every \<^verbatim>\<open>before_dispatch\<close> returned, and \<^verbatim>\<open>after_dispatch\<close> runs for exactly those middleware, in reverse order.
\<close>

section \<open>Two relations that the parts of a pipeline keep\<close>

definition same_world :: "('s, 'q) http \<Rightarrow> ('s, 'q) http \<Rightarrow> bool" where
  "same_world h h' \<longleftrightarrow> h_world h' = h_world h"

interpretation same_world: preorder_rel same_world
  by unfold_locales (simp_all add: same_world_def)

text \<open>\<open>inner\<close>: what the code between the hooks does to the bookkeeping.\<close>

definition inner :: "('s, 'q) http \<Rightarrow> ('s, 'q) http \<Rightarrow> bool" where
  "inner h h' \<longleftrightarrow> h_started h' = h_started h \<and> (\<exists>n. h_calls h' = h_calls h @ replicate n Handled)"

interpretation inner: preorder_rel inner
proof
  show "inner h h" for h :: "('s, 'q) http"
    by (auto simp: inner_def intro: exI [of _ 0])
  show "inner h k" if hg: "inner h g" and gk: "inner g k" for h g k :: "('s, 'q) http"
  proof -
    obtain n m where "h_calls g = h_calls h @ replicate n Handled" "h_calls k = h_calls g @ replicate m Handled"
      using hg gk by (auto simp: inner_def)
    then have "h_calls k = h_calls h @ replicate (n + m) Handled" by (simp add: replicate_add)
    with hg gk show ?thesis by (auto simp: inner_def)
  qed
qed

lemma keeps_inner_world [keeps_intros]: "keeps inner (on_world m)"
  by (rule keepsI) (auto simp: on_world_def inner_def split: prod.split intro: exI [of _ 0])

lemma keeps_inner_handled [keeps_intros]: "keeps inner (handled m)"
proof -
  have "inner h (h\<lparr>h_calls := h_calls h @ [Handled]\<rparr>)" for h :: "('a, 'b) http"
    by (auto simp: inner_def intro: exI [of _ 1])
  then have "keeps inner (log_call Handled :: ('a, 'b, unit) hact)"
    by (auto simp: log_call_def modify_def intro: keepsI)
  then show ?thesis unfolding handled_def by (intro keeps_intros)
qed

lemma keeps_inner_envelope_params [keeps_intros]: "keeps inner envelope_params"
  unfolding envelope_params_def by (intro keeps_intros)

lemma keeps_same_world_parts [keeps_intros]:
  "keeps same_world (on_envelope m)" "keeps same_world (log_call c)" "keeps same_world (set_error e)"
  "keeps same_world (modify (\<lambda>h. h\<lparr>h_started := f h\<rparr>))"
  by (auto simp: keeps_def same_world_def on_envelope_def log_call_def set_error_def modify_def split: prod.split)

lemma keeps_same_world_before [keeps_intros]: "keeps same_world (before_all req mws)"
  by (induction mws) (simp_all only: before_all.simps, (intro keeps_intros; assumption)+)

lemma keeps_same_world_after [keeps_intros]: "keeps same_world (after_all result)"
proof -
  have "keeps same_world (after_each result mws)" for mws
    by (induction mws) (simp_all only: after_each.simps, (intro keeps_intros; assumption)+)
  then show ?thesis unfolding after_all_def by (intro keeps_intros)
qed

lemma keeps_with_envelope:
  assumes "keeps same_world m"
  shows "keeps same_world (with_envelope en m)"
proof (rule keepsI)
  fix h :: "('a, 'b) http"
  have "same_world (h\<lparr>h_envelope := en, h_started := []\<rparr>) (snd (m (h\<lparr>h_envelope := en, h_started := []\<rparr>)))"
    using assms by (rule keepsD)
  then show "same_world h (snd (with_envelope en m h))"
    by (auto simp: with_envelope_def same_world_def split: prod.split)
qed

section \<open>The loops\<close>

lemma before_all_spec:
  "before_all req mws h = (r, h') \<Longrightarrow>
     \<exists>ps ss. mws = ps @ ss \<and> h_started h' = h_started h @ ps \<and> (r = Inr () \<longleftrightarrow> ss = [])
       \<and> h_calls h' = h_calls h @ map (\<lambda>mw. Entered (mw_id mw)) ps @ (if ss = [] then [] else [Refused (mw_id (hd ss))])"
proof (induction mws arbitrary: h)
  case (Cons mw mws)
  obtain q en where q: "mw_before mw req (h_envelope h) = (q, en)" by fastforce
  show ?case
  proof (cases q)
    case (Inl e)
    with Cons.prems q show ?thesis
      by (intro exI [of _ "[]"] exI [of _ "mw # mws"]) (auto simp: py_defs on_envelope_def log_call_def)
  next
    case (Inr u)
    let ?h = "h\<lparr>h_envelope := en, h_calls := h_calls h @ [Entered (mw_id mw)], h_started := h_started h @ [mw]\<rparr>"
    have "before_all req mws ?h = (r, h')"
      using Cons.prems q Inr by (simp add: py_defs on_envelope_def log_call_def)
    from Cons.IH [OF this] obtain ps ss where "mws = ps @ ss" "h_started h' = (h_started h @ [mw]) @ ps" "r = Inr () \<longleftrightarrow> ss = []"
      "h_calls h' = (h_calls h @ [Entered (mw_id mw)]) @ map (\<lambda>mw. Entered (mw_id mw)) ps
         @ (if ss = [] then [] else [Refused (mw_id (hd ss))])"
      by auto
    then show ?thesis by (intro exI [of _ "mw # ps"] exI [of _ ss]) simp
  qed
qed (simp add: ret_def)

text \<open>\<open>mw_quiet\<close>: an \<^verbatim>\<open>after_dispatch\<close> that does not raise. A raising one ends the loop over the others.\<close>

definition mw_quiet :: "middleware \<Rightarrow> bool" where
  "mw_quiet mw \<longleftrightarrow> (\<forall>result en. fst (mw_after mw result en) = Inr ())"

lemma after_each_spec:
  "\<forall>mw \<in> set mws. mw_quiet mw \<Longrightarrow> \<exists>en. after_each result mws h =
     (Inr (), h\<lparr>h_envelope := en, h_calls := h_calls h @ map (\<lambda>mw. Left (mw_id mw) result) mws\<rparr>)"
proof (induction mws arbitrary: h)
  case Nil
  then show ?case by (auto simp: ret_def intro: exI [of _ "h_envelope h"])
next
  case (Cons mw mws)
  obtain q en where q: "mw_after mw result (h_envelope h) = (q, en)" by fastforce
  have "fst (mw_after mw result (h_envelope h)) = Inr ()" using Cons.prems by (simp add: mw_quiet_def)
  with q have "q = Inr ()" by simp
  with q Cons.IH [of "h\<lparr>h_calls := h_calls h @ [Left (mw_id mw) result], h_envelope := en\<rparr>"] Cons.prems
  show ?case by (auto simp: py_defs on_envelope_def log_call_def)
qed

lemma after_all_spec:
  "\<forall>mw \<in> set (h_started h). mw_quiet mw \<Longrightarrow> \<exists>en. after_all result h =
     (Inr (), h\<lparr>h_envelope := en, h_calls := h_calls h @ map (\<lambda>mw. Left (mw_id mw) result) (rev (h_started h))\<rparr>)"
  using after_each_spec [of "rev (h_started h)" result h] by (simp add: after_all_def py_defs)

section \<open>Refused requests\<close>

text \<open>\<open>refuses mw req\<close>: the hook raises on this request, whatever the envelope holds.\<close>

definition refuses :: "middleware \<Rightarrow> http_request \<Rightarrow> bool" where
  "refuses mw req \<longleftrightarrow> (\<forall>en. \<exists>e. fst (mw_before mw req en) = Inl e)"

lemma before_all_refused:
  "mw \<in> set mws \<Longrightarrow> refuses mw req \<Longrightarrow> \<exists>e. fst (before_all req mws h) = Inl e"
proof (induction mws arbitrary: h)
  case (Cons m mws)
  obtain q en where q: "mw_before m req (h_envelope h) = (q, en)" by fastforce
  show ?case
  proof (cases q)
    case (Inl e)
    with q show ?thesis by (simp add: py_defs on_envelope_def log_call_def)
  next
    case (Inr u)
    have "m \<noteq> mw"
    proof
      assume "m = mw"
      with Cons.prems(2) obtain e where "fst (mw_before m req (h_envelope h)) = Inl e" unfolding refuses_def by blast
      with q Inr show False by simp
    qed
    with Cons.prems have "mw \<in> set mws" by simp
    with Cons q Inr show ?thesis by (simp add: py_defs on_envelope_def log_call_def)
  qed
qed simp

text \<open>A refused request does not get past the hooks: what follows them in a pipeline is not run.\<close>

lemma then_refused:
  assumes "mw \<in> set mws" and "refuses mw req"
  shows "\<exists>e. thenE (before_all req mws) body h = (Inl e, snd (before_all req mws h))"
proof -
  obtain e where "fst (before_all req mws h) = Inl e" using before_all_refused [OF assms] by blast
  then obtain h' where "before_all req mws h = (Inl e, h')" by (metis prod.collapse)
  then show ?thesis by (simp add: thenE_def bindE_def tryE_def raise_def)
qed

lemma keeps_refused:
  assumes "mw \<in> set mws" and "refuses mw req"
  shows "keeps same_world (thenE (before_all req mws) body)"
proof (rule keepsI)
  fix h :: "('a, 'b) http"
  show "same_world h (snd (thenE (before_all req mws) body h))"
    using then_refused [OF assms, of body h] keepsD [OF keeps_same_world_before, of h req mws] by auto
qed

section \<open>What the built-in authentication admits\<close>

lemma bearer_admits:
  assumes "bearer_before verify realm exclude req en = (Inr (), en')" and "hr_path req \<notin> set exclude"
  shows "\<exists>scheme token claims. hr_header req ''Authorization'' = Some (scheme @ CHR '' '' # token)
    \<and> lower scheme = ''bearer'' \<and> verify token = Inr (Some claims)"
proof -
  define auth where "auth = or_else (hr_header req ''Authorization'') ''''"
  obtain scheme sep token where p: "partition_str (CHR '' '') auth = (scheme, sep, token)" by (metis prod_cases3)
  from assms p have t: "lower scheme = ''bearer''" "token \<noteq> ''''" "\<exists>claims. verify token = Inr (Some claims)"
    by (auto simp: bearer_before_def auth_def [symmetric] py_defs split: if_splits sum.splits option.splits)
  from p have parts: "scheme = takeWhile (\<lambda>x. x \<noteq> CHR '' '') auth" "token = tl (dropWhile (\<lambda>x. x \<noteq> CHR '' '') auth)"
    by (simp_all add: partition_str_def)
  have ne: "dropWhile (\<lambda>x. x \<noteq> CHR '' '') auth \<noteq> []" using t(2) parts(2) by force
  with parts(2) hd_dropWhile [OF ne] have "dropWhile (\<lambda>x. x \<noteq> CHR '' '') auth = CHR '' '' # token"
    by (metis hd_Cons_tl)
  then have "auth = scheme @ CHR '' '' # token"
    using takeWhile_dropWhile_id [of "\<lambda>x. x \<noteq> CHR '' ''" auth] parts(1) by simp
  moreover from this have "hr_header req ''Authorization'' = Some auth"
    by (cases "hr_header req ''Authorization''") (simp_all add: auth_def or_else_def truthy_def split: if_splits)
  ultimately show ?thesis using t by blast
qed

lemma any_key_True: "any_key key ks = Inr True \<Longrightarrow> key \<in> set ks"
  by (induction ks) (auto split: if_splits)

lemma api_key_admits:
  assumes "api_key_before valid_keys header exclude req en = (Inr (), en')" and "hr_path req \<notin> set exclude"
  shows "\<exists>key. hr_header req header = Some key \<and> key \<in> set valid_keys"
  using assms any_key_True
  by (cases "hr_header req header") (auto simp: api_key_before_def py_defs Let_def truthy_def split: if_splits sum.splits)

lemma bearer_refuses:
  assumes "hr_path req \<notin> set (exclude_or_default exclude)"
    and "\<nexists>scheme token claims. hr_header req ''Authorization'' = Some (scheme @ CHR '' '' # token)
      \<and> lower scheme = ''bearer'' \<and> verify token = Inr (Some claims)"
  shows "refuses (BearerTokenMiddleware i verify realm exclude) req"
  unfolding refuses_def
proof
  fix en
  obtain r en' where r: "bearer_before verify realm (exclude_or_default exclude) req en = (r, en')" by fastforce
  then have "r \<noteq> Inr ()" using bearer_admits [OF _ assms(1)] assms(2) by blast
  with r show "\<exists>e. fst (mw_before (BearerTokenMiddleware i verify realm exclude) req en) = Inl e"
    by (cases r) (simp_all add: BearerTokenMiddleware_def)
qed

lemma api_key_refuses:
  assumes "hr_path req \<notin> set (exclude_or_default exclude)"
    and "\<forall>key \<in> set valid_keys. hr_header req header \<noteq> Some key"
  shows "refuses (ApiKeyMiddleware i valid_keys header exclude) req"
  unfolding refuses_def
proof
  fix en
  obtain r en' where r: "api_key_before valid_keys header (exclude_or_default exclude) req en = (r, en')" by fastforce
  then have "r \<noteq> Inr ()" using api_key_admits [OF _ assms(1)] assms(2) by blast
  with r show "\<exists>e. fst (mw_before (ApiKeyMiddleware i valid_keys header exclude) req en) = Inl e"
    by (cases r) (simp_all add: ApiKeyMiddleware_def)
qed

section \<open>Hooks come in pairs\<close>

text \<open>The calls of one request: a prefix of the middleware is entered; if it is all of them the request is handled, otherwise the
  next one has refused it; those that were entered are left in reverse order.\<close>

definition balanced :: "middleware list \<Rightarrow> mw_call list \<Rightarrow> bool" where
  "balanced mws cs \<longleftrightarrow> (\<exists>ps ss mid result. mws = ps @ ss
     \<and> cs = map (\<lambda>mw. Entered (mw_id mw)) ps @ mid @ map (\<lambda>mw. Left (mw_id mw) result) (rev ps)
     \<and> (if ss = [] then \<exists>n. mid = replicate n Handled else mid = [Refused (mw_id (hd ss))]))"

lemma after_all_balanced:
  assumes before: "before_all req mws (h\<lparr>h_envelope := en, h_started := []\<rparr>) = (r, h1)"
    and mw_quiet: "\<forall>mw \<in> set mws. mw_quiet mw"
    and ok: "r = Inr () \<Longrightarrow> inner h1 h2"
    and refused: "r \<noteq> Inr () \<Longrightarrow> h_started h2 = h_started h1 \<and> h_calls h2 = h_calls h1"
  shows "\<exists>cs en'. after_all result h2 = (Inr (), h2\<lparr>h_envelope := en', h_calls := h_calls h @ cs\<rparr>) \<and> balanced mws cs"
proof -
  obtain ps ss where 1: "mws = ps @ ss" "h_started h1 = ps" "r = Inr () \<longleftrightarrow> ss = []"
    "h_calls h1 = h_calls h @ map (\<lambda>mw. Entered (mw_id mw)) ps @ (if ss = [] then [] else [Refused (mw_id (hd ss))])"
    using before_all_spec [OF before] by auto
  define mid where "mid = drop (length (h_calls h @ map (\<lambda>mw. Entered (mw_id mw)) ps)) (h_calls h2)"
  have 2: "h_started h2 = ps \<and> h_calls h2 = h_calls h @ map (\<lambda>mw. Entered (mw_id mw)) ps @ mid
    \<and> (if ss = [] then \<exists>n. mid = replicate n Handled else mid = [Refused (mw_id (hd ss))])"
    using 1 ok refused by (cases "ss = []") (auto simp: inner_def mid_def)
  have "\<forall>mw \<in> set (h_started h2). mw_quiet mw" using mw_quiet 1(1) 2 by auto
  from after_all_spec [OF this, of result] 1(1) 2 show ?thesis
    unfolding balanced_def by fastforce
qed

text \<open>One run of the hooks and of what they enclose.\<close>

lemma then_before_all:
  assumes "keeps inner body" and "thenE (before_all req mws) body h = (r, h2)"
  obtains r1 h1 where "before_all req mws h = (r1, h1)" and "r1 = Inr () \<longrightarrow> inner h1 h2"
    and "r1 \<noteq> Inr () \<longrightarrow> h2 = h1 \<and> (\<exists>e. r = Inl e)"
proof (cases "before_all req mws h")
  case (Pair r1 h1)
  show ?thesis
  proof (cases r1)
    case (Inl e)
    with Pair assms(2) show ?thesis by (intro that [of r1 h1]) (auto simp: thenE_def bindE_def tryE_def raise_def)
  next
    case (Inr u)
    with Pair assms(2) have "body h1 = (r, h2)" by (simp add: thenE_def bindE_def tryE_def)
    with assms(1) have "inner h1 h2" by (rule keepsE)
    with Pair Inr show ?thesis by (intro that [of r1 h1]) simp_all
  qed
qed

lemma set_error_eq: "set_error e h = (Inr (), h\<lparr>h_envelope := (h_envelope h)\<lparr>en_error := Some e\<rparr>\<rparr>)"
  by (simp add: set_error_def on_envelope_def modify_def)

lemma inner_envelope [simp]: "inner h (h2\<lparr>h_envelope := en\<rparr>) \<longleftrightarrow> inner h h2"
  by (simp add: inner_def)

lemma stream_pipeline_balanced:
  assumes mw_quiet: "\<forall>mw \<in> set mws. mw_quiet mw" and body: "keeps inner start" "\<And>x. keeps inner (rest x)"
    and failed: "\<And>e g. snd (failed e g) = g"
  shows "\<exists>cs. h_calls (snd (stream_pipeline en mws req start failed rest h)) = h_calls h @ cs \<and> balanced mws cs
    \<and> ((\<exists>e g. fst (stream_pipeline en mws req start failed rest h) = fst (failed e g))
      \<or> (\<exists>x g. fst (stream_pipeline en mws req start failed rest h) = fst (rest x g)))"
proof -
  let ?h = "h\<lparr>h_envelope := en, h_started := []\<rparr>" and ?m = "thenE (before_all req mws) start"
  let ?c = "catchE ?m (\<lambda>e. thenE (set_error e) (thenE (after_all None) (raise e)))"
  obtain r h2 where r: "?m ?h = (r, h2)" by fastforce
  obtain r1 h1 where b: "before_all req mws ?h = (r1, h1)" "r1 = Inr () \<longrightarrow> inner h1 h2"
    "r1 \<noteq> Inr () \<longrightarrow> h2 = h1 \<and> (\<exists>e. r = Inl e)"
    using then_before_all [OF body(1) r] .
  show ?thesis
  proof (cases r)
    case (Inl e)
    obtain cs en' where "after_all None (snd (set_error e h2))
        = (Inr (), (snd (set_error e h2))\<lparr>h_envelope := en', h_calls := h_calls h @ cs\<rparr>)" and cs: "balanced mws cs"
      using after_all_balanced [OF b(1) mw_quiet, of "snd (set_error e h2)" None] b(2,3) by (auto simp: set_error_eq)
    with r Inl obtain h3 where h3: "?c ?h = (Inl e, h3)" "h_calls h3 = h_calls h @ cs"
      by (auto simp: catchE_def tryE_def [of ?m] thenE_def [of "set_error e"] thenE_def [of "after_all None"]
        bindE_def [of "set_error e"] bindE_def [of "after_all None"] tryE_def [of "set_error e"] tryE_def [of "after_all None"]
        set_error_eq raise_def)
    obtain q where "failed e h3 = (q, h3)" using failed [of e h3] by (metis prod.collapse)
    with h3 have "fst (stream_pipeline en mws req start failed rest h) = fst (failed e h3)"
      "h_calls (snd (stream_pipeline en mws req start failed rest h)) = h_calls h @ cs"
      by (simp_all add: stream_pipeline_def with_envelope_def tryE_def [of ?c])
    with cs show ?thesis by blast
  next
    case (Inr x)
    obtain q h3 where q: "rest x h2 = (q, h3)" by fastforce
    from b(3) Inr have "r1 = Inr ()" by auto
    with b(2) inner.R_trans [OF _ keepsE [OF body(2) q]] have "inner h1 h3" by blast
    with after_all_balanced [OF b(1) mw_quiet, of h3 None] \<open>r1 = Inr ()\<close>
    obtain cs en' where a: "after_all None h3 = (Inr (), h3\<lparr>h_envelope := en', h_calls := h_calls h @ cs\<rparr>)" "balanced mws cs"
      by auto
    have "?c ?h = (Inr x, h2)" using r Inr by (simp add: catchE_def tryE_def [of ?m] ret_def)
    with a(1) q have "fst (stream_pipeline en mws req start failed rest h) = fst (rest x h2)"
      "h_calls (snd (stream_pipeline en mws req start failed rest h)) = h_calls h @ cs"
      by (simp_all add: stream_pipeline_def with_envelope_def tryE_def [of ?c] finallyE_def)
    with a(2) show ?thesis by blast
  qed
qed

lemma send_pipeline_balanced:
  assumes mw_quiet: "\<forall>mw \<in> set mws. mw_quiet mw" and not_cancelled: "\<forall>e. fst (send_pipeline en mws req send h) = Inl e \<longrightarrow> is_Exception e"
  shows "\<exists>cs. h_calls (snd (send_pipeline en mws req send h)) = h_calls h @ cs \<and> balanced mws cs"
proof -
  let ?h = "h\<lparr>h_envelope := en, h_started := []\<rparr>"
  let ?body = "bindE envelope_params (\<lambda>(p, c). handled (send p c))"
  have body: "keeps inner ?body" by (intro keeps_intros)
  obtain r h2 where r: "thenE (before_all req mws) ?body ?h = (r, h2)" by fastforce
  obtain r1 h1 where b: "before_all req mws ?h = (r1, h1)" "r1 = Inr () \<longrightarrow> inner h1 h2"
    "r1 \<noteq> Inr () \<longrightarrow> h2 = h1 \<and> (\<exists>e. r = Inl e)"
    using then_before_all [OF body r] .
  show ?thesis
  proof (cases r)
    case (Inl e)
    have "fst (send_pipeline en mws req send h) = Inl e" if "\<not> is_Exception e"
      using r Inl that by (simp add: send_pipeline_def with_envelope_def tryE_def [of "thenE (before_all req mws) ?body"] raise_def)
    with not_cancelled have "is_Exception e" by blast
    moreover have "\<exists>cs en'. after_all None (snd (set_error e h2))
        = (Inr (), (snd (set_error e h2))\<lparr>h_envelope := en', h_calls := h_calls h @ cs\<rparr>) \<and> balanced mws cs"
      using after_all_balanced [OF b(1) mw_quiet, of "snd (set_error e h2)" None] b(2,3) by (auto simp: set_error_eq)
    ultimately show ?thesis using r Inl
      by (auto simp: send_pipeline_def with_envelope_def tryE_def [of "thenE (before_all req mws) ?body"]
        thenE_def [of "set_error e"] thenE_def [of "after_all None"] bindE_def [of "set_error e"] bindE_def [of "after_all None"]
        tryE_def [of "set_error e"] tryE_def [of "after_all None"] set_error_eq raise_def)
  next
    case (Inr x)
    with b have "r1 = Inr ()" "inner h1 h2" by auto
    with after_all_balanced [OF b(1) mw_quiet, of h2 "Some x"]
    obtain cs en' where "after_all (Some x) h2 = (Inr (), h2\<lparr>h_envelope := en', h_calls := h_calls h @ cs\<rparr>)" "balanced mws cs"
      by auto
    with r Inr show ?thesis
      by (auto simp: send_pipeline_def with_envelope_def tryE_def [of "thenE (before_all req mws) ?body"]
        thenE_def [of "after_all (Some x)"] bindE_def [of "after_all (Some x)"] tryE_def [of "after_all (Some x)"] ret_def)
  qed
qed

lemma enforce_pipeline_balanced:
  assumes mw_quiet: "\<forall>mw \<in> set mws. mw_quiet mw" and body: "keeps inner endpoint"
    and path: "hr_path req \<notin> set self_handled" "hr_path req \<notin> set public" and "mws \<noteq> []"
  shows "\<exists>cs. h_calls (snd (enforce_pipeline self_handled public en mws req endpoint h)) = h_calls h @ cs \<and> balanced mws cs"
proof -
  let ?h = "h\<lparr>h_envelope := en, h_started := []\<rparr>"
  obtain r h2 where r: "thenE (before_all req mws) endpoint ?h = (r, h2)" by fastforce
  obtain r1 h1 where b: "before_all req mws ?h = (r1, h1)" "r1 = Inr () \<longrightarrow> inner h1 h2"
    "r1 \<noteq> Inr () \<longrightarrow> h2 = h1 \<and> (\<exists>e. r = Inl e)"
    using then_before_all [OF body r] .
  define h3 where "h3 = (case r of Inl e \<Rightarrow> snd (set_error e h2) | Inr _ \<Rightarrow> h2)"
  have c: "catchE (thenE (before_all req mws) endpoint) (\<lambda>e. thenE (set_error e) (raise e)) ?h = (r, h3)"
    using r by (cases r) (simp_all add: h3_def catchE_def tryE_def ret_def raise_def set_error_eq
      thenE_def [of "set_error _"] bindE_def [of "set_error _"])
  have "r1 = Inr () \<Longrightarrow> inner h1 h3" "r1 \<noteq> Inr () \<Longrightarrow> h_started h3 = h_started h1 \<and> h_calls h3 = h_calls h1"
    using b(2,3) by (cases r; auto simp: h3_def set_error_eq)+
  from after_all_balanced [OF b(1) mw_quiet this, of None]
  obtain cs en' where "after_all None h3 = (Inr (), h3\<lparr>h_envelope := en', h_calls := h_calls h @ cs\<rparr>)" "balanced mws cs"
    by auto
  with c path \<open>mws \<noteq> []\<close> show ?thesis
    by (auto simp: enforce_pipeline_def with_envelope_def finallyE_def)
qed

end
