(* ===== verification/Push_Endpoints.thy ===== *)
theory Push_Endpoints
  imports Task_Manager Push_Validation
begin

text \<open>
  \<^verbatim>\<open>push/endpoints.py\<close>: the handlers behind the push-configuration routes of all transports. Parsing the body into a
  configuration is pydantic's; its result, or the number of its errors, is an argument. The registration policy is the one the
  delivery service has published, if any.
\<close>

definition task_not_found :: "string \<Rightarrow> exn" where
  "task_not_found tid = TaskNotFoundError (''Task '' @ tid @ '' not found'')"

text \<open>The 400 of an unusable configuration.\<close>

definition bad_config :: "string \<Rightarrow> exn" where
  "bad_config msg = HTTPException 400 (JObj [(''code'', JInt (-32602)), (''message'', JStr msg)])"

text \<open>The first lines of every handler.\<close>

definition require_task :: "('s, 'q) env \<Rightarrow> string \<Rightarrow> ('s, 'q, unit) act" where
  "require_task env tid = bindE (storage_load_task env tid None) (\<lambda>task.
     case task of None \<Rightarrow> raise (task_not_found tid) | Some t \<Rightarrow> ret ())"

definition check_registration :: "resolver \<Rightarrow> policy option \<Rightarrow> string \<Rightarrow> ('s, 'q, unit) act" where
  "check_registration dns pol url = (case pol of None \<Rightarrow> ret ()
     | Some p \<Rightarrow> (case validate_webhook_url dns p url of
         Inl e \<Rightarrow> raise e
       | Inr ok \<Rightarrow> if ok then ret () else raise (bad_config (''Webhook URL rejected (SSRF protection): '' @ url))))"

definition store_config :: "('s, 'q) env \<Rightarrow> string \<Rightarrow> push_config \<Rightarrow> ('s, 'q, task_push_config) act" where
  "store_config env tid c =
     bindE (gets w_push) (\<lambda>ps. case ps of None \<Rightarrow> raise (AttributeError ''set_config'')
       | Some p \<Rightarrow> bindE (tick (e_uuid env)) (\<lambda>uid.
           thenE (modify (\<lambda>w. w\<lparr>w_push := Some (snd (push_set_config uid tid c p))\<rparr>))
             (ret (fst (push_set_config uid tid c p)))))"

definition handle_set_config ::
  "('s, 'q) env \<Rightarrow> resolver \<Rightarrow> policy option \<Rightarrow> string \<Rightarrow> nat + push_config \<Rightarrow> ('s, 'q, task_push_config) act" where
  "handle_set_config env dns pol tid parsed =
     thenE (require_task env tid)
       (case parsed of
          Inl n \<Rightarrow> raise (bad_config (''Invalid push config: '' @ nat_str n @ '' errors''))
        | Inr config \<Rightarrow> thenE (check_registration dns pol (pc_url config)) (store_config env tid config))"

definition handle_get_config :: "('s, 'q) env \<Rightarrow> string \<Rightarrow> string option \<Rightarrow> ('s, 'q, task_push_config) act" where
  "handle_get_config env tid cid =
     thenE (require_task env tid)
       (bindE (gets w_push) (\<lambda>ps. case ps of None \<Rightarrow> raise (AttributeError ''get_config'')
          | Some p \<Rightarrow> (case push_get_config tid cid p of
              None \<Rightarrow> raise (PushConfigNotFoundError
                (''Push config '' @ or_else cid ''default'' @ '' not found for task '' @ tid))
            | Some c \<Rightarrow> ret c)))"

definition handle_list_configs :: "('s, 'q) env \<Rightarrow> string \<Rightarrow> ('s, 'q, task_push_config list) act" where
  "handle_list_configs env tid =
     thenE (require_task env tid)
       (bindE (gets w_push) (\<lambda>ps. case ps of None \<Rightarrow> raise (AttributeError ''list_configs'')
          | Some p \<Rightarrow> ret (push_list_configs tid p)))"

definition handle_delete_config :: "('s, 'q) env \<Rightarrow> string \<Rightarrow> string \<Rightarrow> ('s, 'q, bool) act" where
  "handle_delete_config env tid cid =
     thenE (require_task env tid)
       (bindE (gets w_push) (\<lambda>ps. case ps of None \<Rightarrow> raise (AttributeError ''delete_config'')
          | Some p \<Rightarrow> thenE (modify (\<lambda>w. w\<lparr>w_push := Some (snd (push_delete_config tid cid p))\<rparr>))
              (if fst (push_delete_config tid cid p) then ret True
               else raise (PushConfigNotFoundError (''Push config '' @ cid @ '' not found for task '' @ tid)))))"

text \<open>What the handlers guarantee to others: they never write the storage.\<close>

context storage_writes begin

lemma keeps_require_task [keeps_intros]:
  "e_so env = so \<Longrightarrow> keeps (guar inv view tid') (require_task env tid)"
  unfolding require_task_def by (intro keeps_intros) (simp_all add: valid_length_def)

lemma keeps_set_config [keeps_intros]:
  "e_so env = so \<Longrightarrow> keeps (guar inv view tid') (handle_set_config env dns pol tid parsed)"
  unfolding handle_set_config_def check_registration_def store_config_def
  by (intro keeps_intros keeps_guar_modify) simp_all

lemma keeps_delete_config [keeps_intros]:
  "e_so env = so \<Longrightarrow> keeps (guar inv view tid') (handle_delete_config env tid cid)"
  unfolding handle_delete_config_def by (intro keeps_intros keeps_guar_modify) simp_all

end

text \<open>A configuration is registered only if the task exists and the policy admits its URL.\<close>

lemma set_config_registers:
  assumes "handle_set_config env dns (Some p) tid parsed w = (Inr c, w')"
  shows "\<exists>config. parsed = Inr config \<and> validate_webhook_url dns p (pc_url config) = Inr True \<and> tp_url c = pc_url config"
  using assms
  by (auto simp: handle_set_config_def check_registration_def store_config_def push_set_config_def py_defs Let_def
      split: prod.splits sum.splits option.splits if_splits)

end
