(* ===== verification/Jsonrpc_V10.thy ===== *)
theory Jsonrpc_V10
  imports Stream_V10 Middleware_Laws Push_Endpoints
begin

text \<open>
  \<^verbatim>\<open>jsonrpc_v10.py\<close>: the JSON-RPC binding of version 1.0, from the parsed body to the reply. \<open>app\<close> is the part of the
  application's state that the handlers read, with the validators of pydantic and the provider of the extended card as parameters;
  \<open>ap_replies\<close> and \<open>ap_items\<close> are the events that arrive while a blocking send or a stream waits.

  Parameters of a call are JSON of any shape. An identifier that is not a string is a key that no backend holds: a list or an object
  is not hashable, any other value finds nothing.
\<close>

section \<open>Application state and replies\<close>

record capabilities =
  cap_streaming :: bool
  cap_push_notifications :: bool

record query_args =
  qa_context_id :: json
  qa_tenant :: json
  qa_status :: "task_state option"
  qa_page_size :: json
  qa_page_token :: json
  qa_history_length :: json
  qa_status_timestamp_after :: json
  qa_include_artifacts :: bool

record ('s, 'q) app =
  ap_task_manager :: "('s, 'q) task_manager option"
  ap_env :: "('s, 'q) env"
  ap_capabilities :: "capabilities option"
  ap_middlewares :: "middleware list"
  ap_codec :: codec
  ap_parse_send :: "mdict \<Rightarrow> send_request option"
  ap_parse_state :: "json \<Rightarrow> task_state option"
  ap_parse_query :: "query_args \<Rightarrow> list_query option"
  ap_parse_config :: "json \<Rightarrow> nat + push_config"
  ap_dns :: resolver
  ap_policy :: "policy option"
  ap_extended_card :: "(http_request \<Rightarrow> exn + json) option"
  ap_replies :: "stream_event list"
  ap_items :: "bus_item list"

datatype rpc_reply = RpcJson json | RpcNoContent | RpcStream "string list"

definition error_response :: "json \<Rightarrow> int \<Rightarrow> string \<Rightarrow> string \<Rightarrow> (string, string) pydict \<Rightarrow> rpc_reply" where
  "error_response req_id code msg rsn metadata = RpcJson (jsonrpc_error_body req_id code msg rsn metadata)"

definition invalid_request :: "json \<Rightarrow> string \<Rightarrow> rpc_reply" where
  "invalid_request req_id msg = error_response req_id (json_rpc_code VALIDATION_ERROR) msg (reason VALIDATION_ERROR) []"

definition result_response :: "json \<Rightarrow> json \<Rightarrow> rpc_reply" where
  "result_response req_id result = RpcJson (JObj [(''jsonrpc'', JStr ''2.0''), (''id'', req_id), (''result'', result)])"

definition serialize_task :: "codec \<Rightarrow> task \<Rightarrow> json" where
  "serialize_task cd t = cd_task cd (sanitize_task_v10 t)"

definition map_exception :: "json \<Rightarrow> exn \<Rightarrow> rpc_reply" where
  "map_exception req_id e = RpcJson (jsonrpc_error_from_exception e req_id)"

text \<open>\<^verbatim>\<open>except Exception as exc: return _map_exception(req_id, exc)\<close>\<close>

definition answer_exception :: "json \<Rightarrow> exn \<Rightarrow> ('s, 'q, rpc_reply) hact" where
  "answer_exception req_id e = (if is_Exception e then ret (map_exception req_id e) else raise e)"

definition answering :: "json \<Rightarrow> ('s, 'q, rpc_reply) hact \<Rightarrow> ('s, 'q, rpc_reply) hact" where
  "answering req_id m = catchE m (answer_exception req_id)"

definition get_tm :: "('s, 'q) app \<Rightarrow> ('s, 'q, ('s, 'q) task_manager) hact" where
  "get_tm app = (case ap_task_manager app of None \<Rightarrow> raise (RuntimeError ''TaskManager not initialized'') | Some tm \<Rightarrow> ret tm)"

section \<open>Reading parameters\<close>

definition param :: "mdict \<Rightarrow> string \<Rightarrow> json" where
  "param ps k = (case map_of ps k of None \<Rightarrow> JNull | Some j \<Rightarrow> j)"

text \<open>\<^verbatim>\<open>a or b\<close>\<close>

definition json_or :: "json \<Rightarrow> json \<Rightarrow> json" where
  "json_or a b = (if json_truthy a then a else b)"

definition json_default :: "json \<Rightarrow> json \<Rightarrow> json" where
  "json_default a b = (if a = JNull then b else a)"

fun key_of :: "json \<Rightarrow> exn + string option" where
  "key_of (JStr s) = Inr (Some s)"
| "key_of (JList _) = Inl (TypeError (''unhashable type: '' @ py_repr ''list''))"
| "key_of (JObj _) = Inl (TypeError (''unhashable type: '' @ py_repr ''dict''))"
| "key_of _ = Inr None"

text \<open>A task operation on an identifier; \<open>missing\<close> is what it does for a key that is not there.\<close>

definition on_id :: "json \<Rightarrow> ('s, 'q, 'a) act \<Rightarrow> (string \<Rightarrow> ('s, 'q, 'a) act) \<Rightarrow> ('s, 'q, 'a) act" where
  "on_id j missing m = (case key_of j of Inl e \<Rightarrow> raise e | Inr None \<Rightarrow> missing | Inr (Some s) \<Rightarrow> m s)"

definition on_task_id :: "json \<Rightarrow> (string \<Rightarrow> ('s, 'q, 'a) act) \<Rightarrow> ('s, 'q, 'a) act" where
  "on_task_id j m = on_id j (raise (task_not_found (json_str j))) m"

fun length_of :: "json \<Rightarrow> exn + int option" where
  "length_of JNull = Inr None"
| "length_of (JInt n) = Inr (Some n)"
| "length_of (JBool b) = Inr (Some (if b then 1 else 0))"
| "length_of j = Inl (TypeError ''bad operand type for unary -'')"

text \<open>A length that is not a number fails when a history is trimmed, so only for a task with a history.\<close>

definition get_task_json :: "('s, 'q) task_manager \<Rightarrow> string \<Rightarrow> json \<Rightarrow> ('s, 'q, task option) act" where
  "get_task_json tm tid hl = (case length_of hl of
      Inr n \<Rightarrow> get_task tm tid n
    | Inl e \<Rightarrow> bindE (get_task tm tid None) (\<lambda>t.
        if t \<noteq> None \<and> t_history (the t) \<noteq> None then raise e else ret t))"

definition blank :: "string \<Rightarrow> bool" where
  "blank s \<longleftrightarrow> strip s = ''''"

section \<open>Handlers\<close>

type_synonym ('s, 'q) handler = "('s, 'q) app \<Rightarrow> http_request \<Rightarrow> json \<Rightarrow> mdict \<Rightarrow> ('s, 'q, rpc_reply) hact"

definition message_envelope :: "send_request \<Rightarrow> envelope" where
  "message_envelope p = empty_envelope\<lparr>en_params := Some p, en_tenant := (if truthy (sr_tenant p) then sr_tenant p else None),
     en_context := [(''a2a_version'', JStr ''1.0'')]\<rparr>"

definition plain_envelope :: envelope where
  "plain_envelope = empty_envelope\<lparr>en_context := [(''a2a_version'', JStr ''1.0'')]\<rparr>"

fun send_result_json :: "codec \<Rightarrow> send_response \<Rightarrow> json" where
  "send_result_json cd (TaskResponse t) = JObj [(''task'', serialize_task cd t)]"
| "send_result_json cd (MessageResponse m) = JObj [(''message'', cd_message cd m)]"

definition handle_send_message :: "('s, 'q) handler" where
  "handle_send_message app req req_id params = (case ap_parse_send app params of
      None \<Rightarrow> ret (invalid_request req_id ''Invalid params for SendMessage'')
    | Some p \<Rightarrow>
        if blank (m_message_id (sr_message p)) then ret (invalid_request req_id ''messageId is required'') else
        answering req_id (bindE (get_tm app) (\<lambda>tm.
          bindE (send_pipeline (message_envelope p) (ap_middlewares app) req
                   (\<lambda>p' ctx. send_message tm p' (Some ctx) (ap_replies app)))
            (\<lambda>result. ret (result_response req_id (send_result_json (ap_codec app) result))))))"

definition check_streaming :: "('s, 'q) app \<Rightarrow> json \<Rightarrow> rpc_reply option" where
  "check_streaming app req_id = (case ap_capabilities app of None \<Rightarrow> None
     | Some caps \<Rightarrow> if cap_streaming caps then None else
         let unsupported = UnsupportedOperationError ''Streaming is not supported by this agent''; desc = descriptor_for unsupported
         in Some (error_response req_id (json_rpc_code desc) (exn_str unsupported) (reason desc) []))"

text \<open>\<^verbatim>\<open>await anext(agen)\<close> on a generator that ends without an event raises.\<close>

definition first_event :: "('s, 'q, 'x list) hact \<Rightarrow> ('s, 'q, 'x list) hact" where
  "first_event m = bindE m (\<lambda>evs. if evs = [] then raise StopAsyncIteration else ret evs)"

definition rpc_text :: "json \<Rightarrow> mdict \<Rightarrow> string" where
  "rpc_text req_id payload =
     json_dumps (JObj [(''jsonrpc'', JStr ''2.0''), (''id'', req_id), (''result'', JObj payload)])"

definition sse_gen :: "codec \<Rightarrow> json \<Rightarrow> (string option \<times> stream_event) list \<Rightarrow> rpc_reply" where
  "sse_gen cd req_id evs = RpcStream (map (\<lambda>(eid, s). sse_frame eid s) (sse_events (rpc_text req_id) cd evs))"

definition handle_send_streaming_message :: "('s, 'q) handler" where
  "handle_send_streaming_message app req req_id params = (case check_streaming app req_id of
      Some err \<Rightarrow> ret err
    | None \<Rightarrow> (case ap_parse_send app params of
        None \<Rightarrow> ret (invalid_request req_id ''Invalid params for SendStreamingMessage'')
      | Some p \<Rightarrow>
          if blank (m_message_id (sr_message p)) then ret (invalid_request req_id ''messageId is required'') else
          tryE (get_tm app) (answer_exception req_id) (\<lambda>tm.
            stream_pipeline (message_envelope p) (ap_middlewares app) req
              (first_event (bindE envelope_params (\<lambda>(p', ctx). handled (stream_message tm p' (Some ctx) (ap_items app)))))
              (answer_exception req_id)
              (\<lambda>evs. ret (sse_gen (ap_codec app) req_id evs)))))"

definition handle_subscribe_to_task :: "('s, 'q) handler" where
  "handle_subscribe_to_task app req req_id params = (case check_streaming app req_id of
      Some err \<Rightarrow> ret err
    | None \<Rightarrow>
        let tid = param params ''id'' in
        if \<not> json_truthy tid then ret (invalid_request req_id ''Missing 'id' in params'') else
        stream_pipeline plain_envelope (ap_middlewares app) req
          (bindE (get_tm app) (\<lambda>tm. first_event
             (handled (on_task_id tid (\<lambda>s. subscribe_task tm s (hr_header req ''Last-Event-ID'') (ap_items app))))))
          (answer_exception req_id)
          (\<lambda>evs. ret (sse_gen (ap_codec app) req_id evs)))"

definition handle_get_task :: "('s, 'q) handler" where
  "handle_get_task app req req_id params =
     (let tid = param params ''id''; hl = json_default (param params ''historyLength'') (param params ''history_length'') in
      if \<not> json_truthy tid then ret (invalid_request req_id ''Missing 'id' in params'') else
      answering req_id (bindE (get_tm app) (\<lambda>tm.
        bindE (handled (on_id tid (ret None) (\<lambda>s. get_task_json tm s hl))) (\<lambda>t. case t of
            None \<Rightarrow> ret (RpcJson (JObj [(''jsonrpc'', JStr ''2.0''), (''id'', req_id), (''error'', JObj
              [(''code'', JInt (-32001)), (''message'', JStr ''Task not found''),
               (''data'', JList [JObj [(''@type'', JStr ''type.googleapis.com/google.rpc.ErrorInfo''),
                 (''reason'', JStr ''TASK_NOT_FOUND''), (''domain'', JStr ''a2a-protocol.org''),
                 (''metadata'', JObj [(''taskId'', tid)])]])])]))
          | Some t \<Rightarrow> ret (result_response req_id (serialize_task (ap_codec app) t))))))"

definition list_args :: "mdict \<Rightarrow> task_state option \<Rightarrow> query_args" where
  "list_args params st =
     \<lparr>qa_context_id = json_or (param params ''contextId'') (param params ''context_id''),
      qa_tenant = param params ''tenant'', qa_status = st,
      qa_page_size = (case map_of params ''pageSize'' of Some j \<Rightarrow> j
        | None \<Rightarrow> (case map_of params ''page_size'' of Some j \<Rightarrow> j | None \<Rightarrow> JInt 50)),
      qa_page_token = json_or (param params ''pageToken'') (param params ''page_token''),
      qa_history_length = json_default (param params ''historyLength'') (param params ''history_length''),
      qa_status_timestamp_after = json_or (param params ''statusTimestampAfter'') (param params ''status_timestamp_after''),
      qa_include_artifacts = (json_truthy (param params ''includeArtifacts'') \<or> json_truthy (param params ''include_artifacts''))\<rparr>"

definition handle_list_tasks :: "('s, 'q) handler" where
  "handle_list_tasks app req req_id params =
     answering req_id (bindE (get_tm app) (\<lambda>tm.
       let raw = param params ''status'' in
       let st = (if raw = JNull then None else ap_parse_state app raw) in
       if raw \<noteq> JNull \<and> st = None then ret (invalid_request req_id (''Invalid status: '' @ json_repr raw)) else
       (case ap_parse_query app (list_args params st) of
          None \<Rightarrow> raise (ValueError ''validation error for ListTasksQuery'')
        | Some q \<Rightarrow> bindE (handled (list_tasks tm q)) (\<lambda>r.
            ret (result_response req_id (cd_list_result (ap_codec app) (r\<lparr>lr_tasks := map sanitize_task_v10 (lr_tasks r)\<rparr>)))))))"

definition handle_cancel_task :: "('s, 'q) handler" where
  "handle_cancel_task app req req_id params =
     (let tid = param params ''id'' in
      if \<not> json_truthy tid then ret (invalid_request req_id ''Missing 'id' in params'') else
      answering req_id (bindE (get_tm app) (\<lambda>tm.
        bindE (handled (on_task_id tid (\<lambda>s. cancel_task tm s))) (\<lambda>t.
          ret (result_response req_id (serialize_task (ap_codec app) t))))))"

definition handle_health :: "('s, 'q) handler" where
  "handle_health app req req_id params = ret (result_response req_id (JObj [(''status'', JStr ''ok'')]))"

text \<open>Push configurations.\<close>

definition check_push_supported :: "('s, 'q) app \<Rightarrow> json \<Rightarrow> rpc_reply option" where
  "check_push_supported app req_id =
     (if ap_capabilities app = None \<or> \<not> cap_push_notifications (the (ap_capabilities app))
      then Some (error_response req_id (-32003) ''Push notifications are not supported'' ''PUSH_NOTIFICATIONS_NOT_SUPPORTED'' [])
      else None)"

definition config_data :: "mdict \<Rightarrow> json" where
  "config_data params = JObj [(''id'', param params ''id''), (''url'', param params ''url''), (''token'', param params ''token''),
     (''authentication'', param params ''authentication'')]"

definition handle_push_create :: "('s, 'q) handler" where
  "handle_push_create app req req_id params = (case check_push_supported app req_id of
      Some err \<Rightarrow> ret err
    | None \<Rightarrow>
        let tid = json_or (param params ''taskId'') (param params ''task_id'') in
        if \<not> json_truthy tid then ret (invalid_request req_id ''Missing taskId'') else
        answering req_id (bindE (handled (on_task_id tid (\<lambda>s.
            handle_set_config (ap_env app) (ap_dns app) (ap_policy app) s (ap_parse_config app (config_data params))))) (\<lambda>c.
          ret (result_response req_id (cd_push_config (ap_codec app) c)))))"

text \<open>A configuration identifier: falsy values select the default configuration, strings are looked up. Another key finds nothing;
  one that is not hashable raises, except where \<^verbatim>\<open>dict.pop\<close> meets an empty dictionary (\<open>pops\<close>).\<close>

definition on_config_id ::
  "('s, 'q) env \<Rightarrow> bool \<Rightarrow> string \<Rightarrow> json \<Rightarrow> (string option \<Rightarrow> ('s, 'q, 'a) act) \<Rightarrow> ('s, 'q, 'a) act" where
  "on_config_id env pops tid cid m =
     (if \<not> json_truthy cid then m None else
      case key_of cid of
        Inr (Some c) \<Rightarrow> m (Some c)
      | r \<Rightarrow> thenE (require_task env tid) (bindE (gets w_push) (\<lambda>ps. case (ps, r) of
            (None, _) \<Rightarrow> raise (AttributeError ''push_store'')
          | (Some p, Inl e) \<Rightarrow>
              raise (if pops \<and> configs_of p tid = []
                then PushConfigNotFoundError (''Push config '' @ json_str cid @ '' not found for task '' @ tid) else e)
          | (Some p, Inr _) \<Rightarrow>
              raise (PushConfigNotFoundError (''Push config '' @ json_str cid @ '' not found for task '' @ tid)))))"

definition push_get_ids :: "mdict \<Rightarrow> json \<times> json" where
  "push_get_ids params = (json_or (json_or (param params ''taskId'') (param params ''task_id'')) (param params ''id''),
     json_or (param params ''id'') (param params ''configId''))"

definition handle_push_get :: "('s, 'q) handler" where
  "handle_push_get app req req_id params = (case check_push_supported app req_id of
      Some err \<Rightarrow> ret err
    | None \<Rightarrow> (case push_get_ids params of (tid, cid) \<Rightarrow>
        if \<not> json_truthy tid then ret (invalid_request req_id ''Missing taskId'') else
        answering req_id (bindE (handled (on_task_id tid (\<lambda>s.
            on_config_id (ap_env app) False s cid (\<lambda>c. handle_get_config (ap_env app) s c)))) (\<lambda>c.
          ret (result_response req_id (cd_push_config (ap_codec app) c))))))"

definition handle_push_list :: "('s, 'q) handler" where
  "handle_push_list app req req_id params = (case check_push_supported app req_id of
      Some err \<Rightarrow> ret err
    | None \<Rightarrow>
        let tid = fst (push_get_ids params) in
        if \<not> json_truthy tid then ret (invalid_request req_id ''Missing taskId'') else
        answering req_id (bindE (handled (on_task_id tid (\<lambda>s. handle_list_configs (ap_env app) s))) (\<lambda>cs.
          ret (result_response req_id (JObj [(''configs'', JList (map (cd_push_config (ap_codec app)) cs))])))))"

definition handle_push_delete :: "('s, 'q) handler" where
  "handle_push_delete app req req_id params = (case check_push_supported app req_id of
      Some err \<Rightarrow> ret err
    | None \<Rightarrow>
        let tid = json_or (param params ''taskId'') (param params ''task_id''); cid = snd (push_get_ids params) in
        if \<not> json_truthy tid \<or> \<not> json_truthy cid then ret (invalid_request req_id ''Missing taskId or config id'') else
        answering req_id (bindE (handled (on_task_id tid (\<lambda>s.
            on_config_id (ap_env app) True s cid (\<lambda>c. handle_delete_config (ap_env app) s (the c))))) (\<lambda>_.
          ret (result_response req_id JNull))))"

definition handle_get_extended_card :: "('s, 'q) handler" where
  "handle_get_extended_card app req req_id params = (case ap_extended_card app of
      None \<Rightarrow> ret (error_response req_id (-32007) ''Authenticated Extended Card not configured'' ''EXTENDED_CARD_NOT_CONFIGURED'' [])
    | Some provider \<Rightarrow> (case provider req of
        Inr extended \<Rightarrow> ret (result_response req_id extended)
      | Inl e \<Rightarrow> if is_Exception e then ret (error_response req_id (-32603) ''Internal error'' ''INTERNAL_ERROR'' []) else raise e))"

section \<open>The endpoint\<close>

definition MIDDLEWARE_SELF_HANDLED :: "string list" where
  "MIDDLEWARE_SELF_HANDLED = [''SendMessage'', ''SendStreamingMessage'', ''SubscribeToTask'']"

definition PUBLIC_METHODS :: "string list" where
  "PUBLIC_METHODS = [''health'']"

definition STREAMING_METHODS :: "string list" where
  "STREAMING_METHODS = [''SendStreamingMessage'', ''SubscribeToTask'']"

definition JSONRPC_DISPATCH :: "(string \<times> ('s, 'q) handler) list" where
  "JSONRPC_DISPATCH =
     [(''SendMessage'', handle_send_message), (''SendStreamingMessage'', handle_send_streaming_message),
      (''GetTask'', handle_get_task), (''ListTasks'', handle_list_tasks), (''CancelTask'', handle_cancel_task),
      (''SubscribeToTask'', handle_subscribe_to_task), (''CreateTaskPushNotificationConfig'', handle_push_create),
      (''GetTaskPushNotificationConfig'', handle_push_get), (''ListTaskPushNotificationConfigs'', handle_push_list),
      (''DeleteTaskPushNotificationConfig'', handle_push_delete), (''GetExtendedAgentCard'', handle_get_extended_card),
      (''health'', handle_health)]"

text \<open>\<^verbatim>\<open>_parse_body\<close>: a reply, or the identifier, whether the call is a notification, and the body. \<open>None\<close> is a body that is
  not JSON.\<close>

definition parse_body :: "json option \<Rightarrow> rpc_reply + json \<times> bool \<times> mdict" where
  "parse_body body = (case body of
      None \<Rightarrow> Inl (error_response JNull (json_rpc_code PARSE_ERROR) (default_message PARSE_ERROR) (reason PARSE_ERROR) [])
    | Some (JObj b) \<Rightarrow>
        let is_notification = (map_of b ''id'' = None); req_id = param b ''id'' in
        if param b ''jsonrpc'' \<noteq> JStr ''2.0''
        then Inl (if is_notification then RpcNoContent else invalid_request req_id (''Invalid Request: jsonrpc must be '' @ py_repr ''2.0''))
        else (case param b ''method'' of
            JStr _ \<Rightarrow> Inr (req_id, is_notification, b)
          | _ \<Rightarrow> Inl (if is_notification then RpcNoContent else invalid_request req_id ''Invalid Request: method must be a string''))
    | Some _ \<Rightarrow> Inl (invalid_request JNull (default_message VALIDATION_ERROR)))"

text \<open>The answer to a notification is empty.\<close>

definition quiet_reply :: "bool \<Rightarrow> rpc_reply \<Rightarrow> rpc_reply" where
  "quiet_reply is_notification r = (if is_notification then RpcNoContent else r)"

text \<open>The pipeline of the endpoint: a hook that raises is answered, and the hooks that ran are left in any case.\<close>

definition dispatch_pipeline ::
  "middleware list \<Rightarrow> http_request \<Rightarrow> json \<Rightarrow> bool \<Rightarrow> ('s, 'q, rpc_reply) hact \<Rightarrow> ('s, 'q, rpc_reply) hact" where
  "dispatch_pipeline mws req req_id is_notification handler = with_envelope plain_envelope
     (finallyE
       (tryE (before_all req mws)
          (\<lambda>e. if is_Exception e then thenE (set_error e) (ret (quiet_reply is_notification (map_exception req_id e))) else raise e)
          (\<lambda>_. bindE handler (\<lambda>r. ret (quiet_reply is_notification r))))
       (after_all None))"

text \<open>From the look-up of the method on.\<close>

definition dispatch_method ::
  "('s, 'q) app \<Rightarrow> http_request \<Rightarrow> json \<Rightarrow> bool \<Rightarrow> string \<Rightarrow> mdict \<Rightarrow> ('s, 'q, rpc_reply) hact" where
  "dispatch_method app req req_id is_notification methd params = (case map_of JSONRPC_DISPATCH methd of
      None \<Rightarrow> ret (quiet_reply is_notification (error_response req_id (json_rpc_code METHOD_NOT_FOUND)
        (''Method not found: '' @ methd) (reason METHOD_NOT_FOUND) [(''method'', methd)]))
    | Some handler \<Rightarrow>
        if is_notification \<and> methd \<in> set STREAMING_METHODS then ret RpcNoContent
        else if methd \<notin> set MIDDLEWARE_SELF_HANDLED \<and> methd \<notin> set PUBLIC_METHODS \<and> ap_middlewares app \<noteq> []
        then dispatch_pipeline (ap_middlewares app) req req_id is_notification (handler app req req_id params)
        else bindE (handler app req req_id params) (\<lambda>r. ret (quiet_reply is_notification r)))"

definition jsonrpc_endpoint :: "('s, 'q) app \<Rightarrow> http_request \<Rightarrow> json option \<Rightarrow> ('s, 'q, rpc_reply) hact" where
  "jsonrpc_endpoint app req raw = (case parse_body raw of
      Inl r \<Rightarrow> ret r
    | Inr (req_id, is_notification, body) \<Rightarrow>
        (case json_default (param body ''params'') (JObj []) of
          JObj params \<Rightarrow> dispatch_method app req req_id is_notification (json_str (param body ''method'')) params
        | _ \<Rightarrow> ret (quiet_reply is_notification (error_response req_id (-32602) ''Invalid params: must be an object''
            ''INVALID_PARAMS'' []))))"

end
