(* ===== verification/Jsonrpc_Laws.thy ===== *)
theory Jsonrpc_Laws
  imports Jsonrpc_V10
begin

text \<open>
  The shape of the replies of the JSON-RPC endpoint, what happens to refused requests, and the pairing of hooks, first for every
  handler and then for the endpoint.
\<close>

section \<open>Results of a method\<close>

text \<open>\<open>yields E P m\<close>: whatever the state, \<open>m\<close> returns a value with \<open>P\<close> or raises an exception with \<open>E\<close>.\<close>

named_theorems yields_intros \<open>rules for results\<close>

definition yields :: "('e \<Rightarrow> bool) \<Rightarrow> ('a \<Rightarrow> bool) \<Rightarrow> ('s, 'e, 'a) py \<Rightarrow> bool" where
  "yields E P m \<longleftrightarrow> (\<forall>s. case fst (m s) of Inl e \<Rightarrow> E e | Inr x \<Rightarrow> P x)"

lemma yields_ret [yields_intros]: "P x \<Longrightarrow> yields E P (ret x)"
  by (simp add: yields_def ret_def)

lemma yields_raise [yields_intros]: "E e \<Longrightarrow> yields E P (raise e)"
  by (simp add: yields_def raise_def)

lemma yields_tryE:
  assumes "yields F Q m" "\<And>e. F e \<Longrightarrow> yields E P (k e)" "\<And>x. Q x \<Longrightarrow> yields E P (l x)"
  shows "yields E P (tryE m k l)"
proof -
  have "case fst (tryE m k l s) of Inl e \<Rightarrow> E e | Inr x \<Rightarrow> P x" for s
  proof (cases "m s")
    case (Pair r t)
    with assms show ?thesis by (cases r) (auto simp: yields_def tryE_def dest: spec [of _ s])
  qed
  then show ?thesis by (simp add: yields_def)
qed

lemma yields_any: "yields (\<lambda>_. True) (\<lambda>_. True) m"
  by (simp add: yields_def split: sum.split)

text \<open>Inside an \<^verbatim>\<open>except\<close> that catches everything only the returned values count.\<close>

lemma yields_bindE [yields_intros]: "(\<And>x. yields (\<lambda>_. True) P (k x)) \<Longrightarrow> yields (\<lambda>_. True) P (bindE m k)"
  unfolding bindE_def by (rule yields_tryE [OF yields_any]) (simp_all add: yields_raise)

lemma yields_if [yields_intros]:
  "(b \<Longrightarrow> yields E P m) \<Longrightarrow> (\<not> b \<Longrightarrow> yields E P k) \<Longrightarrow> yields E P (if b then m else k)"
  by simp

lemma yields_case_option [yields_intros]:
  "(z = None \<Longrightarrow> yields E P m) \<Longrightarrow> (\<And>x. z = Some x \<Longrightarrow> yields E P (k x)) \<Longrightarrow> yields E P (case z of None \<Rightarrow> m | Some x \<Rightarrow> k x)"
  by (cases z) simp_all

lemma yields_case_sum [yields_intros]:
  "(\<And>x. z = Inl x \<Longrightarrow> yields E P (m x)) \<Longrightarrow> (\<And>x. z = Inr x \<Longrightarrow> yields E P (k x)) \<Longrightarrow>
   yields E P (case z of Inl x \<Rightarrow> m x | Inr x \<Rightarrow> k x)"
  by (cases z) simp_all

lemma yields_case_prod [yields_intros]:
  "(\<And>x y. z = (x, y) \<Longrightarrow> yields E P (k x y)) \<Longrightarrow> yields E P (case z of (x, y) \<Rightarrow> k x y)"
  by (cases z) simp

section \<open>The shape of a reply\<close>

definition wf_error :: "json \<Rightarrow> bool" where
  "wf_error v \<longleftrightarrow> (\<exists>code msg info. v = JObj [(''code'', JInt code), (''message'', JStr msg), (''data'', JList [info])]
     \<and> -32768 \<le> code \<and> code \<le> -32000)"

text \<open>An answer to the request \<open>req_id\<close>: a stream, or an object with the version, the identifier and a result or an error.\<close>

definition wf_reply :: "json \<Rightarrow> rpc_reply \<Rightarrow> bool" where
  "wf_reply req_id r \<longleftrightarrow> (\<exists>cs. r = RpcStream cs)
     \<or> (\<exists>v. r = RpcJson (JObj [(''jsonrpc'', JStr ''2.0''), (''id'', req_id), (''result'', v)]))
     \<or> (\<exists>v. r = RpcJson (JObj [(''jsonrpc'', JStr ''2.0''), (''id'', req_id), (''error'', v)]) \<and> wf_error v)"

lemma wf_result [simp]: "wf_reply req_id (result_response req_id v)"
  by (simp add: wf_reply_def result_response_def)

lemma wf_error_response [simp]: "-32768 \<le> code \<Longrightarrow> code \<le> -32000 \<Longrightarrow> wf_reply req_id (error_response req_id code msg rsn md)"
  by (simp add: wf_reply_def error_response_def jsonrpc_error_body_def wf_error_def)

lemma wf_invalid_request [simp]: "wf_reply req_id (invalid_request req_id msg)"
  by (simp add: invalid_request_def VALIDATION_ERROR_def)

lemma wf_map_exception [simp]: "wf_reply req_id (map_exception req_id e)"
  using descriptor_ranges [of e]
  by (simp add: map_exception_def jsonrpc_error_from_exception_def wf_reply_def jsonrpc_error_body_def wf_error_def Let_def)

lemma wf_sse_gen [simp]: "wf_reply req_id (sse_gen cd req_id evs)"
  by (simp add: wf_reply_def sse_gen_def)

lemma wf_check [simp]:
  "check_streaming app req_id = Some r \<Longrightarrow> wf_reply req_id r"
  "check_push_supported app req_id = Some r \<Longrightarrow> wf_reply req_id r"
  using descriptor_ranges
  by (auto simp: check_streaming_def check_push_supported_def Let_def split: option.splits if_splits)

lemma wf_task_not_found [simp]:
  "wf_reply req_id (RpcJson (JObj [(''jsonrpc'', JStr ''2.0''), (''id'', req_id), (''error'', JObj
     [(''code'', JInt (-32001)), (''message'', JStr m), (''data'', JList [i])])]))"
  by (simp add: wf_reply_def wf_error_def)

lemma yields_answer_exception [yields_intros]:
  "yields (\<lambda>e. \<not> is_Exception e) (wf_reply req_id) (answer_exception req_id e)"
  by (simp add: answer_exception_def yields_ret yields_raise)

lemma yields_answering [yields_intros]:
  "yields (\<lambda>_. True) (wf_reply req_id) m \<Longrightarrow> yields (\<lambda>e. \<not> is_Exception e) (wf_reply req_id) (answering req_id m)"
  unfolding answering_def catchE_def
  by (erule yields_tryE) (simp_all add: yields_answer_exception yields_ret)

text \<open>A stream handler raises only what is no \<open>Exception\<close>, if the hooks are quiet.\<close>

lemma yields_stream_pipeline:
  assumes "\<forall>mw \<in> set mws. mw_quiet mw" "keeps inner start" "\<And>x. keeps inner (rest x)" "\<And>e g. snd (failed e g) = g"
    and "\<And>e. yields E P (failed e)" "\<And>x. yields E P (rest x)"
  shows "yields E P (stream_pipeline en mws req start failed rest)"
proof -
  have "case fst (stream_pipeline en mws req start failed rest h) of Inl e \<Rightarrow> E e | Inr x \<Rightarrow> P x" for h
  proof -
    have "(\<exists>e g. fst (stream_pipeline en mws req start failed rest h) = fst (failed e g))
      \<or> (\<exists>x g. fst (stream_pipeline en mws req start failed rest h) = fst (rest x g))"
      using stream_pipeline_balanced [where failed = failed and rest = rest and h = h, OF assms(1-4)] by blast
    then show ?thesis
    proof (elim disjE exE)
      fix e g assume "fst (stream_pipeline en mws req start failed rest h) = fst (failed e g)"
      with assms(5) [of e] show ?thesis by (simp add: yields_def)
    next
      fix x g assume "fst (stream_pipeline en mws req start failed rest h) = fst (rest x g)"
      with assms(6) [of x] show ?thesis by (simp add: yields_def)
    qed
  qed
  then show ?thesis by (simp add: yields_def)
qed

lemma answer_exception_state [simp]: "snd (answer_exception req_id e g) = g"
  by (simp add: answer_exception_def ret_def raise_def)

lemma keeps_inner_get_tm [keeps_intros]: "keeps inner (get_tm app)"
  unfolding get_tm_def by (intro keeps_intros)

lemma keeps_inner_first_event [keeps_intros]: "keeps inner m \<Longrightarrow> keeps inner (first_event m)"
  unfolding first_event_def by (intro keeps_intros)

section \<open>Every handler answers\<close>

abbreviation answers :: "json \<Rightarrow> ('s, 'q, rpc_reply) hact \<Rightarrow> bool" where
  "answers req_id m \<equiv> yields (\<lambda>e. \<not> is_Exception e) (wf_reply req_id) m"

named_theorems handler_defs \<open>unfolding of the handlers\<close>

lemmas [handler_defs] = handle_send_message_def handle_get_task_def handle_list_tasks_def handle_cancel_task_def handle_health_def
  handle_push_create_def handle_push_get_def handle_push_list_def handle_push_delete_def handle_get_extended_card_def

lemma unary_handlers_answer:
  "answers req_id (handle_send_message app req req_id ps)" "answers req_id (handle_get_task app req req_id ps)"
  "answers req_id (handle_list_tasks app req req_id ps)" "answers req_id (handle_cancel_task app req req_id ps)"
  "answers req_id (handle_health app req req_id ps)" "answers req_id (handle_push_create app req req_id ps)"
  "answers req_id (handle_push_get app req req_id ps)" "answers req_id (handle_push_list app req req_id ps)"
  "answers req_id (handle_push_delete app req req_id ps)" "answers req_id (handle_get_extended_card app req req_id ps)"
  unfolding handler_defs Let_def
  by ((intro yields_intros; simp)+)

lemma stream_handlers_answer:
  assumes "\<forall>mw \<in> set (ap_middlewares app). mw_quiet mw"
  shows "answers req_id (handle_send_streaming_message app req req_id ps)"
    "answers req_id (handle_subscribe_to_task app req req_id ps)"
  unfolding handle_send_streaming_message_def handle_subscribe_to_task_def Let_def
  by (intro yields_intros yields_tryE [OF yields_any] yields_stream_pipeline assms keeps_intros; simp)+

lemma handlers_answer:
  assumes "\<forall>mw \<in> set (ap_middlewares app). mw_quiet mw" and "map_of JSONRPC_DISPATCH methd = Some handler"
  shows "answers req_id (handler app req req_id ps)"
proof -
  from assms(2) have "(methd, handler) \<in> set JSONRPC_DISPATCH" by (rule map_of_SomeD)
  then show ?thesis
    unfolding JSONRPC_DISPATCH_def by (auto simp: unary_handlers_answer stream_handlers_answer [OF assms(1)])
qed

section \<open>The pipeline of the endpoint\<close>

lemma keeps_inner_answering [keeps_intros]: "keeps inner m \<Longrightarrow> keeps inner (answering req_id m)"
  unfolding answering_def answer_exception_def by (intro keeps_intros)

lemma plain_handlers_inner:
  "keeps inner (handle_get_task app req req_id ps)" "keeps inner (handle_list_tasks app req req_id ps)"
  "keeps inner (handle_cancel_task app req req_id ps)" "keeps inner (handle_health app req req_id ps)"
  "keeps inner (handle_push_create app req req_id ps)" "keeps inner (handle_push_get app req req_id ps)"
  "keeps inner (handle_push_list app req req_id ps)" "keeps inner (handle_push_delete app req req_id ps)"
  "keeps inner (handle_get_extended_card app req req_id ps)"
  unfolding handler_defs Let_def by (intro keeps_intros)+

lemma dispatch_pipeline_balanced:
  fixes req :: http_request and n :: bool
  assumes mw_quiet: "\<forall>mw \<in> set mws. mw_quiet mw" and body: "keeps inner handler" and answers: "answers req_id handler"
  defines "m \<equiv> dispatch_pipeline mws req req_id n handler"
  shows "\<exists>cs. h_calls (snd (m h)) = h_calls h @ cs \<and> balanced mws cs
    \<and> (case fst (m h) of Inl e \<Rightarrow> \<not> is_Exception e | Inr r \<Rightarrow> if n then r = RpcNoContent else wf_reply req_id r)"
proof -
  let ?h = "h\<lparr>h_envelope := plain_envelope, h_started := []\<rparr>"
  let ?on_error = "\<lambda>e. if is_Exception e then thenE (set_error e) (ret (quiet_reply n (map_exception req_id e))) else raise e"
  let ?body = "\<lambda>_. bindE handler (\<lambda>r. ret (quiet_reply n r))"
  let ?t = "tryE (before_all req mws) ?on_error ?body"
  obtain r1 h1 where b: "before_all req mws ?h = (r1, h1)" by fastforce
  obtain r h2 where r: "?t ?h = (r, h2)" by fastforce
  have "keeps inner (?body ())" using body by (intro keeps_intros)
  have state: "r1 = Inr () \<Longrightarrow> inner h1 h2" "r1 \<noteq> Inr () \<Longrightarrow> h_started h2 = h_started h1 \<and> h_calls h2 = h_calls h1"
    using b r keepsE [OF \<open>keeps inner (?body ())\<close>]
    by (cases r1; auto simp: tryE_def [of "before_all req mws"] set_error_eq ret_def raise_def thenE_def [of "set_error _"]
      bindE_def [of "set_error _"] tryE_def [of "set_error _"] split: if_splits)+
  have "yields (\<lambda>e. \<not> is_Exception e) (\<lambda>r. if n then r = RpcNoContent else wf_reply req_id r) ?t"
  proof (rule yields_tryE [OF yields_any])
    show "yields (\<lambda>e. \<not> is_Exception e) (\<lambda>r. if n then r = RpcNoContent else wf_reply req_id r) (?on_error e)" for e
      by (simp add: yields_def set_error_eq ret_def raise_def thenE_def bindE_def tryE_def quiet_reply_def)
    show "yields (\<lambda>e. \<not> is_Exception e) (\<lambda>r. if n then r = RpcNoContent else wf_reply req_id r) (?body x)" for x
      unfolding bindE_def by (rule yields_tryE [OF answers]) (simp_all add: yields_ret yields_raise quiet_reply_def)
  qed
  then have "case fst (?t ?h) of Inl e \<Rightarrow> \<not> is_Exception e | Inr r \<Rightarrow> if n then r = RpcNoContent else wf_reply req_id r"
    unfolding yields_def by blast
  moreover obtain cs en' where "after_all None h2 = (Inr (), h2\<lparr>h_envelope := en', h_calls := h_calls h @ cs\<rparr>)" "balanced mws cs"
    using after_all_balanced [OF b mw_quiet state, of None] by auto
  ultimately show ?thesis using r
    by (auto simp: m_def dispatch_pipeline_def with_envelope_def finallyE_def)
qed

section \<open>Hooks of a request\<close>

text \<open>\<open>paired mws m\<close>: the calls \<open>m\<close> makes are those of one balanced request, or none; cancellation is left out.\<close>

definition paired :: "middleware list \<Rightarrow> ('s, 'q, 'a) hact \<Rightarrow> bool" where
  "paired mws m \<longleftrightarrow> (\<forall>h. (\<forall>e. fst (m h) = Inl e \<longrightarrow> is_Exception e) \<longrightarrow>
     (\<exists>cs. h_calls (snd (m h)) = h_calls h @ cs \<and> (cs = [] \<or> balanced mws cs)))"

lemma paired_ret: "paired mws (ret x)" and paired_raise: "paired mws (raise e)"
  by (simp_all add: paired_def ret_def raise_def)

lemma paired_inner:
  assumes "keeps inner m"
  shows "paired [] m"
  unfolding paired_def
proof (intro allI impI)
  fix h
  obtain n where "h_calls (snd (m h)) = h_calls h @ replicate n Handled"
    using keepsD [OF assms, of h] by (auto simp: inner_def)
  moreover have "balanced [] (replicate n Handled)" by (auto simp: balanced_def)
  ultimately show "\<exists>cs. h_calls (snd (m h)) = h_calls h @ cs \<and> (cs = [] \<or> balanced [] cs)" by blast
qed

text \<open>What follows the calls may raise or answer, but makes no calls.\<close>

definition silent :: "('s, 'q, 'a) hact \<Rightarrow> bool" where
  "silent m \<longleftrightarrow> (\<forall>h. snd (m h) = h)"

lemma silent_simps [simp]: "silent (ret x)" "silent (raise e)" "silent (get_tm app)" "silent (answer_exception req_id e)"
  by (auto simp: silent_def ret_def raise_def get_tm_def split: option.split)

lemma paired_tryE:
  assumes "paired mws m" and "\<And>e. silent (k e)" and "\<And>x. silent (l x)"
    and "\<And>e h. \<not> is_Exception e \<Longrightarrow> fst (k e h) = Inl e"
  shows "paired mws (tryE m k l)"
  unfolding paired_def
proof (intro allI impI)
  fix h assume ok: "\<forall>e. fst (tryE m k l h) = Inl e \<longrightarrow> is_Exception e"
  obtain r g where r: "m h = (r, g)" by fastforce
  have "snd (tryE m k l h) = g" using r assms(2,3) by (cases r) (simp_all add: tryE_def silent_def)
  moreover have "is_Exception e" if "r = Inl e" for e
  proof (rule ccontr)
    assume ne: "\<not> is_Exception e"
    have "fst (tryE m k l h) = Inl e" using r that assms(4) [OF ne] by (simp add: tryE_def)
    with ok ne show False by blast
  qed
  then have "\<forall>e. fst (m h) = Inl e \<longrightarrow> is_Exception e" using r by simp
  ultimately show "\<exists>cs. h_calls (snd (tryE m k l h)) = h_calls h @ cs \<and> (cs = [] \<or> balanced mws cs)"
    using assms(1) r unfolding paired_def by (metis snd_conv)
qed

lemma paired_silent_then: "silent m \<Longrightarrow> (\<And>e. paired mws (k e)) \<Longrightarrow> (\<And>x. paired mws (l x)) \<Longrightarrow> paired mws (tryE m k l)"
  unfolding paired_def silent_def tryE_def by (auto split: prod.split sum.split) (metis snd_conv)+

end
