(* ===== verification/Jsonrpc_Properties.thy ===== *)
theory Jsonrpc_Properties
  imports Jsonrpc_Laws Manager_Properties
begin

text \<open>
  The JSON-RPC endpoint as a whole: every request gets exactly the answer the protocol asks for, hooks run in pairs around it, and a
  request without credentials changes nothing.
\<close>

section \<open>A sample application\<close>

definition sample_verify :: "string \<Rightarrow> exn + json option" where
  "sample_verify token = Inr (if token = ''secret'' then Some (JObj []) else None)"

definition guard :: middleware where
  "guard = BearerTokenMiddleware 1 sample_verify ''a2a'' None"

definition sample_codec :: codec where
  "sample_codec = \<lparr>cd_task = (\<lambda>t. JObj [(''id'', JStr (t_id t))]), cd_message = (\<lambda>m. JObj [(''messageId'', JStr (m_message_id m))]),
     cd_status_event = (\<lambda>e. JObj [(''taskId'', JStr (se_task_id e))]), cd_artifact_event = (\<lambda>e. JObj [(''taskId'', JStr (ae_task_id e))]),
     cd_list_result = (\<lambda>r. JObj [(''totalSize'', JInt (lr_total_size r))]), cd_push_config = (\<lambda>c. JObj [(''url'', JStr (tp_url c))])\<rparr>"

definition sample_app :: "(mem_store, bus_item list) app" where
  "sample_app = \<lparr>ap_task_manager = Some sample_tm, ap_env = sample_env, ap_capabilities = None, ap_middlewares = [guard],
     ap_codec = sample_codec, ap_parse_send = (\<lambda>_. None), ap_parse_state = (\<lambda>_. None), ap_parse_query = (\<lambda>_. None),
     ap_parse_config = (\<lambda>_. Inl 1), ap_dns = (\<lambda>_. None), ap_policy = None, ap_extended_card = None, ap_replies = [], ap_items = []\<rparr>"

definition sample_http :: "(mem_store, bus_item list) http" where
  "sample_http = \<lparr>h_world = sample_world [], h_envelope = empty_envelope, h_started = [], h_calls = []\<rparr>"

definition anonymous :: http_request where
  "anonymous = \<lparr>hr_path = ''/'', hr_header = (\<lambda>_. None)\<rparr>"

definition cancel_body :: json where
  "cancel_body = JObj [(''jsonrpc'', JStr ''2.0''), (''id'', JInt 1), (''method'', JStr ''CancelTask''),
     (''params'', JObj [(''id'', JStr ''t1'')])]"

lemma sample_quiet: "\<forall>mw \<in> set (ap_middlewares sample_app). mw_quiet mw"
  by (simp add: sample_app_def guard_def BearerTokenMiddleware_def A2AMiddleware_def mw_quiet_def ret_def)

lemma sample_reply:
  "fst (jsonrpc_endpoint sample_app anonymous (Some cancel_body) sample_http)
     = Inr (map_exception (JInt 1) (AuthenticationRequiredError ''Bearer'' ''a2a''))"
  by (simp add: jsonrpc_endpoint_def dispatch_method_def dispatch_pipeline_def parse_body_def cancel_body_def param_def json_default_def
    JSONRPC_DISPATCH_def STREAMING_METHODS_def MIDDLEWARE_SELF_HANDLED_def PUBLIC_METHODS_def sample_app_def guard_def
    BearerTokenMiddleware_def A2AMiddleware_def bearer_before_def anonymous_def exclude_or_default_def default_exclude_paths_def
    sample_http_def with_envelope_def on_envelope_def log_call_def set_error_def after_all_def py_defs quiet_reply_def
    partition_str_def lower_def or_else_def truthy_def Let_def)

section \<open>Answers\<close>

definition expected_reply :: "json option \<Rightarrow> rpc_reply \<Rightarrow> bool" where
  "expected_reply raw r = (case raw of
      Some (JObj b) \<Rightarrow> (case map_of b ''id'' of None \<Rightarrow> r = RpcNoContent | Some i \<Rightarrow> wf_reply i r)
    | _ \<Rightarrow> wf_reply JNull r)"

lemma parse_body_reply: "parse_body raw = Inl r \<Longrightarrow> expected_reply raw r"
  by (auto simp: parse_body_def expected_reply_def param_def PARSE_ERROR_def Let_def split: option.splits json.splits if_splits)

lemma parse_body_ok:
  assumes "parse_body raw = Inr (req_id, n, b)"
  shows "raw = Some (JObj b) \<and> n = (map_of b ''id'' = None) \<and> req_id = param b ''id''"
  using assms by (auto simp: parse_body_def Let_def split: option.splits json.splits if_splits)

lemma expected_quiet_reply:
  "parse_body raw = Inr (req_id, n, b) \<Longrightarrow> wf_reply req_id r \<Longrightarrow> expected_reply raw (quiet_reply n r)"
  using parse_body_ok [of raw req_id n b] by (auto simp: expected_reply_def quiet_reply_def param_def split: option.splits)

lemma expected_cases:
  "parse_body raw = Inr (req_id, n, b) \<Longrightarrow> (if n then r = RpcNoContent else wf_reply req_id r) \<Longrightarrow> expected_reply raw r"
  using parse_body_ok [of raw req_id n b] by (auto simp: expected_reply_def param_def split: option.splits if_splits)

text \<open>The methods that run under the endpoint's own pipeline make no hook calls themselves.\<close>

lemma plain_methods_inner:
  assumes "map_of JSONRPC_DISPATCH methd = Some handler" and "methd \<notin> set MIDDLEWARE_SELF_HANDLED"
  shows "keeps inner (handler app req req_id ps)"
proof -
  from assms(1) have "(methd, handler) \<in> set JSONRPC_DISPATCH" by (rule map_of_SomeD)
  then show ?thesis using assms(2)
    unfolding JSONRPC_DISPATCH_def MIDDLEWARE_SELF_HANDLED_def list.set insert_iff prod.inject empty_iff
    by (elim disjE conjE FalseE) (simp_all only: plain_handlers_inner list.set insert_iff empty_iff simp_thms)
qed

lemma yields_dispatch_pipeline:
  assumes "\<forall>mw \<in> set mws. mw_quiet mw" "keeps inner handler" "answers req_id handler"
  shows "yields (\<lambda>e. \<not> is_Exception e) (\<lambda>r. if n then r = RpcNoContent else wf_reply req_id r)
    (dispatch_pipeline mws req req_id n handler)"
  using dispatch_pipeline_balanced [OF assms] unfolding yields_def by blast

lemma yields_weaken: "yields E P m \<Longrightarrow> (\<And>x. P x \<Longrightarrow> Q x) \<Longrightarrow> yields E Q m"
  by (force simp: yields_def split: sum.splits)

lemma dispatch_answers:
  fixes app :: "('s, 'q) app"
  assumes quiet: "\<forall>mw \<in> set (ap_middlewares app). mw_quiet mw"
  shows "yields (\<lambda>e. \<not> is_Exception e) (\<lambda>r. if n then r = RpcNoContent else wf_reply req_id r)
    (dispatch_method app req req_id n methd ps)"
proof (cases "map_of JSONRPC_DISPATCH methd :: ('s, 'q) handler option")
  case (Some handler)
  let ?P = "\<lambda>r. if n then r = RpcNoContent else wf_reply req_id r"
  have "yields (\<lambda>e. \<not> is_Exception e) ?P (bindE (handler app req req_id ps) (\<lambda>r. ret (quiet_reply n r)))"
    unfolding bindE_def using handlers_answer [OF quiet Some, of req_id req ps]
    by (rule yields_tryE) (simp_all add: yields_raise yields_ret quiet_reply_def)
  moreover have "yields (\<lambda>e. \<not> is_Exception e) ?P (dispatch_pipeline (ap_middlewares app) req req_id n (handler app req req_id ps))"
    if "methd \<notin> set MIDDLEWARE_SELF_HANDLED"
    by (rule yields_dispatch_pipeline [OF quiet plain_methods_inner [OF Some that] handlers_answer [OF quiet Some]])
  ultimately show ?thesis
    unfolding dispatch_method_def Some option.case by (intro yields_if) (simp_all add: yields_ret)
qed (simp add: dispatch_method_def yields_ret quiet_reply_def METHOD_NOT_FOUND_def)

lemma endpoint_answers:
  assumes "\<forall>mw \<in> set (ap_middlewares app). mw_quiet mw"
  shows "yields (\<lambda>e. \<not> is_Exception e) (expected_reply raw) (jsonrpc_endpoint app req raw)"
proof (cases "parse_body raw")
  case (Inl r)
  then show ?thesis by (simp add: jsonrpc_endpoint_def yields_ret parse_body_reply)
next
  case (Inr x)
  then obtain req_id n b where p: "parse_body raw = Inr (req_id, n, b)" by (metis prod_cases3)
  have "yields (\<lambda>e. \<not> is_Exception e) (expected_reply raw) (dispatch_method app req req_id n methd ps)" for methd ps
    using dispatch_answers [OF assms] by (rule yields_weaken) (rule expected_cases [OF p])
  then show ?thesis
    unfolding jsonrpc_endpoint_def p sum.case prod.case
    by (cases "json_default (param b ''params'') (JObj [])") (simp_all add: yields_ret expected_quiet_reply [OF p])
qed



section \<open>Pairs of hooks\<close>

lemma fst_raise [simp]: "fst (raise e h) = Inl e"
  by (simp add: raise_def)

lemma paired_bind_ret: "paired mws m \<Longrightarrow> paired mws (bindE m (\<lambda>r. ret (g r)))"
  unfolding bindE_def by (rule paired_tryE) simp_all

lemma paired_if: "(b \<Longrightarrow> paired mws m) \<Longrightarrow> (\<not> b \<Longrightarrow> paired mws k) \<Longrightarrow> paired mws (if b then m else k)"
  by simp

lemma paired_case_option:
  "(z = None \<Longrightarrow> paired mws m) \<Longrightarrow> (\<And>x. z = Some x \<Longrightarrow> paired mws (k x)) \<Longrightarrow> paired mws (case z of None \<Rightarrow> m | Some x \<Rightarrow> k x)"
  by (cases z) simp_all

lemma paired_send_handler:
  assumes "\<forall>mw \<in> set (ap_middlewares app). mw_quiet mw"
  shows "paired (ap_middlewares app) (handle_send_message app req req_id ps)"
proof -
  have send: "paired (ap_middlewares app) (send_pipeline en (ap_middlewares app) req f)" for en f
    unfolding paired_def using send_pipeline_balanced [OF assms] by blast
  have inner: "paired (ap_middlewares app) (bindE (send_pipeline en (ap_middlewares app) req f) (\<lambda>r. ret (g r)))" for en f g
    using send by (rule paired_bind_ret)
  have "paired (ap_middlewares app) (bindE (get_tm app) (\<lambda>tm. bindE (send_pipeline en (ap_middlewares app) req (f tm)) (\<lambda>r. ret (g r))))"
    for en f g
    unfolding bindE_def [of "get_tm app"] by (rule paired_silent_then) (simp_all add: inner paired_raise)
  then have "paired (ap_middlewares app) (answering req_id
      (bindE (get_tm app) (\<lambda>tm. bindE (send_pipeline en (ap_middlewares app) req (f tm)) (\<lambda>r. ret (g r)))))" for en f g
    unfolding answering_def catchE_def
    by (rule paired_tryE) (simp_all, simp add: answer_exception_def)
  then show ?thesis unfolding handle_send_message_def by (auto simp: paired_ret split: option.split)
qed

lemma paired_stream_pipeline:
  assumes "\<forall>mw \<in> set mws. mw_quiet mw" "keeps inner start" "\<And>x. keeps inner (rest x)" "\<And>e g. snd (failed e g) = g"
  shows "paired mws (stream_pipeline en mws req start failed rest)"
  unfolding paired_def using stream_pipeline_balanced [where failed = failed and rest = rest, OF assms] by blast

lemma paired_stream_handlers:
  assumes "\<forall>mw \<in> set (ap_middlewares app). mw_quiet mw"
  shows "paired (ap_middlewares app) (handle_send_streaming_message app req req_id ps)"
    "paired (ap_middlewares app) (handle_subscribe_to_task app req req_id ps)"
proof -
  have tm: "paired (ap_middlewares app) (tryE (get_tm app) (answer_exception req_id) l)"
    if "\<And>tm. paired (ap_middlewares app) (l tm)" for l
  proof (rule paired_silent_then)
    show "paired (ap_middlewares app) (answer_exception req_id e)" for e
      by (simp add: answer_exception_def paired_ret paired_raise)
  qed (simp_all add: that)
  have pipe: "paired (ap_middlewares app)
      (stream_pipeline en (ap_middlewares app) req start (answer_exception req_id) (\<lambda>evs. ret (g evs)))"
    if "keeps inner start" for en start g
    using assms that by (intro paired_stream_pipeline keeps_intros) simp_all
  show "paired (ap_middlewares app) (handle_send_streaming_message app req req_id ps)"
    "paired (ap_middlewares app) (handle_subscribe_to_task app req req_id ps)"
    unfolding handle_send_streaming_message_def handle_subscribe_to_task_def Let_def
    by (intro paired_case_option paired_if paired_ret tm pipe keeps_intros)+
qed

lemma self_handled_paired:
  assumes "\<forall>mw \<in> set (ap_middlewares app). mw_quiet mw" and "map_of JSONRPC_DISPATCH methd = Some handler"
    and "methd \<in> set MIDDLEWARE_SELF_HANDLED \<or> methd \<in> set PUBLIC_METHODS \<or> ap_middlewares app = []"
  shows "paired (ap_middlewares app) (handler app req req_id ps)"
proof -
  have "paired mws (handle_health app req req_id ps)" for mws by (simp add: handle_health_def paired_ret)
  moreover have "handler = handle_send_message \<or> handler = handle_send_streaming_message \<or> handler = handle_subscribe_to_task
    \<or> handler = handle_health \<or> ap_middlewares app = [] \<and> methd \<notin> set MIDDLEWARE_SELF_HANDLED"
    using assms(2,3) map_of_SomeD [OF assms(2)]
    unfolding JSONRPC_DISPATCH_def MIDDLEWARE_SELF_HANDLED_def PUBLIC_METHODS_def list.set insert_iff prod.inject empty_iff
    by (elim disjE conjE FalseE) simp_all
  ultimately show ?thesis
    using paired_send_handler [OF assms(1)] paired_stream_handlers [OF assms(1)]
      paired_inner [OF plain_methods_inner [OF assms(2)]] by (elim disjE conjE) simp_all
qed

lemma paired_dispatch_pipeline:
  assumes "\<forall>mw \<in> set mws. mw_quiet mw" "keeps inner handler" "answers req_id handler"
  shows "paired mws (dispatch_pipeline mws req req_id n handler)"
  unfolding paired_def using dispatch_pipeline_balanced [OF assms] by blast

lemma dispatch_paired:
  fixes app :: "('s, 'q) app"
  assumes quiet: "\<forall>mw \<in> set (ap_middlewares app). mw_quiet mw"
  shows "paired (ap_middlewares app) (dispatch_method app req req_id n methd ps)"
proof (cases "map_of JSONRPC_DISPATCH methd :: ('s, 'q) handler option")
  case (Some handler)
  let ?self = "methd \<in> set MIDDLEWARE_SELF_HANDLED \<or> methd \<in> set PUBLIC_METHODS \<or> ap_middlewares app = []"
  have "paired (ap_middlewares app) (bindE (handler app req req_id ps) (\<lambda>r. ret (quiet_reply n r)))" if ?self
    by (rule paired_bind_ret) (rule self_handled_paired [OF quiet Some that])
  moreover have "paired (ap_middlewares app) (dispatch_pipeline (ap_middlewares app) req req_id n (handler app req req_id ps))"
    if "\<not> ?self"
    using paired_dispatch_pipeline [OF quiet plain_methods_inner [OF Some] handlers_answer [OF quiet Some]] that by simp
  ultimately show ?thesis
    unfolding dispatch_method_def Some option.case by (intro paired_if paired_ret) blast+
qed (simp add: dispatch_method_def paired_ret)

lemma endpoint_paired:
  assumes "\<forall>mw \<in> set (ap_middlewares app). mw_quiet mw"
  shows "paired (ap_middlewares app) (jsonrpc_endpoint app req raw)"
  using dispatch_paired [OF assms]
  by (auto simp: jsonrpc_endpoint_def paired_ret split: sum.split prod.split json.split)



section \<open>Requests without credentials\<close>

text \<open>A reply that gives nothing away: an error, or nothing.\<close>

definition denied :: "rpc_reply \<Rightarrow> bool" where
  "denied r \<longleftrightarrow> r = RpcNoContent \<or> (\<exists>i v. r = RpcJson (JObj [(''jsonrpc'', JStr ''2.0''), (''id'', i), (''error'', v)]))"

lemma denied_simps [simp]:
  "denied RpcNoContent" "denied (error_response i c m rsn md)" "denied (invalid_request i m)" "denied (map_exception i e)"
  "denied r \<Longrightarrow> denied (quiet_reply n r)"
  by (simp_all add: denied_def error_response_def invalid_request_def map_exception_def jsonrpc_error_from_exception_def
    jsonrpc_error_body_def quiet_reply_def Let_def)

lemma denied_check:
  "check_streaming app i = Some r \<Longrightarrow> denied r" "check_push_supported app i = Some r \<Longrightarrow> denied r"
  by (auto simp: check_streaming_def check_push_supported_def Let_def split: option.splits if_splits)

lemma parse_body_denied: "parse_body raw = Inl r \<Longrightarrow> denied r"
  by (auto simp: parse_body_def Let_def split: option.splits json.splits if_splits)

abbreviation denies :: "('s, 'q, rpc_reply) hact \<Rightarrow> bool" where
  "denies m \<equiv> keeps same_world m \<and> yields (\<lambda>_. True) denied m"

lemma denies_ret: "denied r \<Longrightarrow> denies (ret r)"
  by (simp add: keeps_intros yields_ret)

lemma yields_with_envelope: "yields E P m \<Longrightarrow> yields E P (with_envelope en m)"
  by (auto simp: yields_def with_envelope_def split: prod.split) (metis fst_conv)

lemma yields_finallyE: "yields (\<lambda>_. True) P m \<Longrightarrow> yields (\<lambda>_. True) P (finallyE m f)"
  by (auto simp: yields_def finallyE_def split: prod.split sum.split) (metis fst_conv sum.simps(6))+

text \<open>Behind a hook that refuses the request nothing is run.\<close>

lemma yields_refused:
  assumes "mw \<in> set mws" "refuses mw req"
  shows "yields (\<lambda>_. True) (\<lambda>_. False) (thenE (before_all req mws) m)"
proof -
  have "case fst (thenE (before_all req mws) m h) of Inl e \<Rightarrow> True | Inr x \<Rightarrow> False" for h
    using then_refused [OF assms, of m h] by auto
  then show ?thesis by (simp add: yields_def)
qed

lemma yields_before_refused:
  assumes "mw \<in> set mws" "refuses mw req"
  shows "yields (\<lambda>_. True) (\<lambda>_. False) (before_all req mws)"
  unfolding yields_def
proof
  fix h :: "('a, 'b) http"
  show "case fst (before_all req mws h) of Inl e \<Rightarrow> True | Inr x \<Rightarrow> False"
    using before_all_refused [OF assms, of h] by auto
qed

lemma send_pipeline_refused:
  assumes "mw \<in> set mws" "refuses mw req"
  shows "keeps same_world (send_pipeline en mws req f)" "yields (\<lambda>_. True) (\<lambda>_. False) (send_pipeline en mws req f)"
proof -
  show "keeps same_world (send_pipeline en mws req f)"
    unfolding send_pipeline_def by (intro keeps_with_envelope keeps_intros keeps_refused [OF assms])
  show "yields (\<lambda>_. True) (\<lambda>_. False) (send_pipeline en mws req f)"
    unfolding send_pipeline_def
    by (intro yields_with_envelope yields_tryE [OF yields_refused [OF assms]])
      (simp_all add: yields_raise thenE_def bindE_def yields_tryE [OF yields_any])
qed

lemma stream_pipeline_refused:
  assumes "mw \<in> set mws" "refuses mw req" "\<And>e. denies (failed e)"
  shows "denies (stream_pipeline en mws req start failed rest)"
proof
  let ?c = "catchE (thenE (before_all req mws) start) (\<lambda>e. thenE (set_error e) (thenE (after_all None) (raise e)))"
  have "keeps same_world ?c" by (intro keeps_intros keeps_refused [OF assms(1,2)])
  have no: "yields (\<lambda>_. True) (\<lambda>_. False) ?c"
    unfolding catchE_def
    by (intro yields_tryE [OF yields_refused [OF assms(1,2)]]) (simp_all add: yields_raise thenE_def bindE_def yields_tryE [OF yields_any])
  have run: "tryE ?c failed l h = failed e h'" if "?c h = (Inl e, h')" for l h e h'
    using that by (simp add: tryE_def [of ?c])
  have "same_world h (snd (tryE ?c failed l h))" for l h
  proof -
    obtain r h' where r: "?c h = (r, h')" by fastforce
    moreover from this no have "\<exists>e. r = Inl e" by (cases r) (auto simp: yields_def dest: spec [of _ h])
    ultimately obtain e where e: "?c h = (Inl e, h')" by blast
    have "keeps same_world (failed e)" using assms(3) by simp
    from same_world.R_trans [OF keepsE [OF \<open>keeps same_world ?c\<close> e] keepsD [OF this]]
    show ?thesis by (simp add: run [OF e])
  qed
  then show "keeps same_world (stream_pipeline en mws req start failed rest)"
    unfolding stream_pipeline_def by (intro keeps_with_envelope keepsI)
  show "yields (\<lambda>_. True) denied (stream_pipeline en mws req start failed rest)"
    unfolding stream_pipeline_def using assms(3)
    by (intro yields_with_envelope yields_tryE [OF no]) simp_all
qed

lemma dispatch_pipeline_refused:
  assumes "mw \<in> set mws" "refuses mw req"
  shows "denies (dispatch_pipeline mws req req_id n handler)"
proof
  let ?on_error = "\<lambda>e. if is_Exception e then thenE (set_error e) (ret (quiet_reply n (map_exception req_id e))) else raise e"
  let ?t = "tryE (before_all req mws) ?on_error (\<lambda>_. bindE handler (\<lambda>r. ret (quiet_reply n r)))"
  have "same_world h (snd (?t h))" for h
  proof -
    obtain e h' where e: "before_all req mws h = (Inl e, h')" using before_all_refused [OF assms, of h] by (metis prod.collapse)
    have "keeps same_world (?on_error e)" by (intro keeps_intros)
    from same_world.R_trans [OF keepsE [OF keeps_same_world_before e] keepsD [OF this]] e
    show ?thesis by (simp add: tryE_def [of "before_all req mws"])
  qed
  then show "keeps same_world (dispatch_pipeline mws req req_id n handler)"
    unfolding dispatch_pipeline_def by (intro keeps_with_envelope same_world.keeps_finallyE keeps_same_world_after keepsI)
  have "yields (\<lambda>_. True) denied ?t"
    by (intro yields_tryE [OF yields_before_refused [OF assms]])
      (auto simp: yields_def set_error_eq ret_def raise_def thenE_def bindE_def tryE_def)
  then show "yields (\<lambda>_. True) denied (dispatch_pipeline mws req req_id n handler)"
    unfolding dispatch_pipeline_def by (intro yields_with_envelope yields_finallyE)
qed

lemma denies_answer_exception: "denies (answer_exception req_id e)"
  by (simp add: answer_exception_def denies_ret keeps_intros yields_raise)

lemma keeps_same_world_get_tm [keeps_intros]: "keeps same_world (get_tm app)"
  unfolding get_tm_def by (intro keeps_intros)

lemma self_handled_refused:
  assumes "mw \<in> set (ap_middlewares app)" "refuses mw req"
  shows "denies (handle_send_message app req req_id ps)" "denies (handle_send_streaming_message app req req_id ps)"
    "denies (handle_subscribe_to_task app req req_id ps)"
proof -
  note refused = send_pipeline_refused [OF assms]
  have "denies (answering req_id (bindE (get_tm app) (\<lambda>tm. bindE (send_pipeline en (ap_middlewares app) req (f tm)) g)))" for en f g
  proof
    have "keeps same_world (bindE (send_pipeline en (ap_middlewares app) req (f tm)) g)" for tm
    proof (rule keepsI)
      fix h
      obtain r h' where r: "send_pipeline en (ap_middlewares app) req (f tm) h = (r, h')" by fastforce
      moreover obtain e where "r = Inl e" using refused(2) [of en "f tm"] r by (cases r) (auto simp: yields_def dest: spec [of _ h])
      ultimately show "same_world h (snd (bindE (send_pipeline en (ap_middlewares app) req (f tm)) g h))"
        using keepsE [OF refused(1) r] by (simp add: bindE_def tryE_def raise_def)
    qed
    then have "keeps same_world (bindE (get_tm app) (\<lambda>tm. bindE (send_pipeline en (ap_middlewares app) req (f tm)) g))"
      by (rule same_world.keeps_bindE [OF keeps_same_world_get_tm])
    then show "keeps same_world (answering req_id (bindE (get_tm app) (\<lambda>tm. bindE (send_pipeline en (ap_middlewares app) req (f tm)) g)))"
      unfolding answering_def by (rule same_world.keeps_catchE) (simp add: denies_answer_exception)
    show "yields (\<lambda>_. True) denied (answering req_id (bindE (get_tm app) (\<lambda>tm. bindE (send_pipeline en (ap_middlewares app) req (f tm)) g)))"
      unfolding answering_def catchE_def
    proof (rule yields_tryE)
      show "yields (\<lambda>_. True) (\<lambda>_. False) (bindE (get_tm app) (\<lambda>tm. bindE (send_pipeline en (ap_middlewares app) req (f tm)) g))"
        unfolding bindE_def by (intro yields_tryE [OF yields_any] yields_tryE [OF refused(2)]) (simp_all add: yields_raise)
    qed (simp_all add: denies_answer_exception)
  qed
  then show "denies (handle_send_message app req req_id ps)"
    unfolding handle_send_message_def by (simp add: denies_ret split: option.split)
  have pipe: "denies (stream_pipeline en (ap_middlewares app) req start (answer_exception req_id) rest)" for en rest
    and start :: "('a, 'b, 'x) hact"
    by (rule stream_pipeline_refused [OF assms denies_answer_exception])
  have tm: "denies (tryE (get_tm app) (answer_exception req_id) l)" if "\<And>tm. denies (l tm)" for l
    using that by (intro conjI keeps_intros yields_tryE [OF yields_any]) (simp_all add: denies_answer_exception)
  show "denies (handle_subscribe_to_task app req req_id ps)"
    unfolding handle_subscribe_to_task_def Let_def
    by (cases "check_streaming app req_id") (simp_all add: denies_ret denied_check pipe)
  show "denies (handle_send_streaming_message app req req_id ps)"
    unfolding handle_send_streaming_message_def
    by (cases "check_streaming app req_id") (simp_all add: denies_ret denied_check pipe tm split: option.split)
qed

lemma denies_quiet_reply:
  assumes "denies m"
  shows "denies (bindE m (\<lambda>r. ret (quiet_reply n r)))"
proof
  show "keeps same_world (bindE m (\<lambda>r. ret (quiet_reply n r)))" using assms by (intro keeps_intros) simp
  have "yields (\<lambda>_. True) denied m" using assms by simp
  then show "yields (\<lambda>_. True) denied (bindE m (\<lambda>r. ret (quiet_reply n r)))"
    unfolding bindE_def by (rule yields_tryE) (simp_all add: yields_raise yields_ret)
qed

text \<open>The liveness method is the only one that is not protected, and it does not read the world either.\<close>

lemma dispatch_refused:
  fixes app :: "('s, 'q) app"
  assumes mw: "mw \<in> set (ap_middlewares app)" "refuses mw req"
  shows "keeps same_world (dispatch_method app req req_id n methd ps)
    \<and> (methd \<noteq> ''health'' \<longrightarrow> yields (\<lambda>_. True) denied (dispatch_method app req req_id n methd ps))"
proof (cases "map_of JSONRPC_DISPATCH methd :: ('s, 'q) handler option")
  case (Some handler)
  have "denies (handler app req req_id ps)" if "methd \<in> set MIDDLEWARE_SELF_HANDLED"
    using map_of_SomeD [OF Some] that self_handled_refused [OF mw, of req_id ps]
    unfolding JSONRPC_DISPATCH_def MIDDLEWARE_SELF_HANDLED_def list.set insert_iff prod.inject empty_iff
    by (elim disjE conjE FalseE) simp_all
  note self = denies_quiet_reply [OF this, of n]
  have health: "keeps same_world (bindE (handler app req req_id ps) (\<lambda>r. ret (quiet_reply n r)))" if "methd = ''health''"
    using Some that by (simp add: JSONRPC_DISPATCH_def handle_health_def keeps_intros)
  have "ap_middlewares app \<noteq> []" using mw(1) by auto
  then show ?thesis
    using self health dispatch_pipeline_refused [OF mw, of req_id n "handler app req req_id ps"] denies_ret [OF denied_simps(1)]
    unfolding dispatch_method_def Some option.case PUBLIC_METHODS_def by auto
qed (simp add: dispatch_method_def denies_ret)

lemma endpoint_refused:
  assumes mw: "mw \<in> set (ap_middlewares app)" "refuses mw req"
  shows "keeps same_world (jsonrpc_endpoint app req raw)
    \<and> ((\<forall>b. raw = Some (JObj b) \<longrightarrow> param b ''method'' \<noteq> JStr ''health'') \<longrightarrow> yields (\<lambda>_. True) denied (jsonrpc_endpoint app req raw))"
proof (cases "parse_body raw")
  case (Inl r)
  then show ?thesis by (simp add: jsonrpc_endpoint_def denies_ret parse_body_denied)
next
  case (Inr x)
  then obtain req_id n b where p: "parse_body raw = Inr (req_id, n, b)" by (metis prod_cases3)
  have "raw = Some (JObj b)" "json_str (param b ''method'') = ''health'' \<Longrightarrow> param b ''method'' = JStr ''health''"
    using p parse_body_ok [OF p] by (auto simp: parse_body_def Let_def split: json.splits if_splits)
  then show ?thesis
    unfolding jsonrpc_endpoint_def p sum.case prod.case
    using dispatch_refused [OF mw, of req_id n "json_str (param b ''method'')"]
    by (cases "json_default (param b ''params'') (JObj [])"; simp only: json.case) (auto simp: denies_ret)
qed

text \<open>Property C29: a request without valid credentials has no effect. If a bearer-token middleware guards the server and the request
  carries no token that its verifier accepts, then whatever the method and the other middleware, the endpoint leaves storage, queues,
  subscriptions and every other part of the state as they are, and it answers, if at all, with an error or with nothing; only the
  liveness method answers with a result.\<close>

theorem unauthenticated_no_effect:
  assumes "BearerTokenMiddleware i verify realm exclude \<in> set (ap_middlewares app)"
    and "hr_path req \<notin> set (exclude_or_default exclude)"
    and "\<nexists>scheme token claims. hr_header req ''Authorization'' = Some (scheme @ CHR '' '' # token)
      \<and> lower scheme = ''bearer'' \<and> verify token = Inr (Some claims)"
  shows "h_world (snd (jsonrpc_endpoint app req raw h)) = h_world h
    \<and> ((\<forall>b. raw = Some (JObj b) \<longrightarrow> param b ''method'' \<noteq> JStr ''health'')
      \<longrightarrow> (\<forall>r. fst (jsonrpc_endpoint app req raw h) = Inr r \<longrightarrow> denied r))"
proof -
  have refused: "refuses (BearerTokenMiddleware i verify realm exclude) req" using assms(2,3) by (rule bearer_refuses)
  from endpoint_refused [OF assms(1) refused, of raw] keepsD [of same_world "jsonrpc_endpoint app req raw" h]
  show ?thesis by (auto simp: same_world_def yields_def dest!: spec [of _ h])
qed

theorem unauthenticated_no_effect_witness:
  "h_world (snd (jsonrpc_endpoint sample_app anonymous (Some cancel_body) sample_http)) = sample_world []
    \<and> denied (map_exception (JInt 1) (AuthenticationRequiredError ''Bearer'' ''a2a''))"
proof -
  have app: "BearerTokenMiddleware 1 sample_verify ''a2a'' None \<in> set (ap_middlewares sample_app)"
    by (simp add: sample_app_def guard_def)
  have path: "hr_path anonymous \<notin> set (exclude_or_default None)"
    by (simp add: anonymous_def exclude_or_default_def default_exclude_paths_def)
  have none: "\<nexists>scheme token claims. hr_header anonymous ''Authorization'' = Some (scheme @ CHR '' '' # token)
      \<and> lower scheme = ''bearer'' \<and> sample_verify token = Inr (Some claims)"
    by (simp add: anonymous_def)
  from unauthenticated_no_effect [OF app path none, where raw = "Some cancel_body" and h = sample_http] show ?thesis
    by (simp add: sample_reply) (simp add: sample_http_def cancel_body_def param_def)
qed

end
