(* ===== verification/Storage_Sql.thy ===== *)
theory Storage_Sql
  imports Storage_Memory
begin

text \<open>
  \<^verbatim>\<open>storage/_sql_base.py\<close> with \<^verbatim>\<open>storage/sqlite.py\<close> and \<^verbatim>\<open>storage/postgres.py\<close>. The database is the two tables of the
  source, a table is the list of its rows, and a statement has the meaning SQL gives it. A column of JSON text holds the value the
  text stands for; columns that are written and never read (\<^verbatim>\<open>created_at\<close> is kept, \<^verbatim>\<open>updated_at\<close> is not) do not matter.

  Each statement is atomic, a transaction of several statements is not isolated against other writers: \<open>intf i\<close> is what others
  commit before the statement number \<open>i\<close> of an update. The two dialects differ in what a column admits (SQLite ignores the declared
  length of a string, PostgreSQL refuses a longer one) and in a negative
  limit or offset (no limit and no offset on SQLite, an error on PostgreSQL).
\<close>

section \<open>Tables\<close>

datatype dialect = SQLite | PostgreSQL

record row =
  r_id :: string
  r_context_id :: string
  r_status_state :: task_state
  r_status_timestamp :: string
  r_status_message :: "message option"
  r_history :: "message list"
  r_artifacts :: "artifact list"
  r_metadata :: "mdict option"
  r_version :: int
  r_idempotency_key :: "string option"
  r_created_at :: string

record db =
  db_tasks :: "row list"
  db_contexts :: "(string, json) pydict"

definition empty_db :: db where
  "empty_db = \<lparr>db_tasks = [], db_contexts = []\<rparr>"

definition fits :: "dialect \<Rightarrow> nat \<Rightarrow> string \<Rightarrow> bool" where
  "fits dl n s \<longleftrightarrow> dl = SQLite \<or> length s \<le> n"

definition select_task :: "string \<Rightarrow> db \<Rightarrow> row option" where
  "select_task tid d = find (\<lambda>r. r_id r = tid) (db_tasks d)"

section \<open>Reading\<close>

definition row_to_task :: "row \<Rightarrow> int option \<Rightarrow> bool \<Rightarrow> task" where
  "row_to_task r hl ia =
     (let history = (case hl of None \<Rightarrow> r_history r
            | Some n \<Rightarrow> if n > 0 then slice_from (- n) (r_history r) else [])
      in \<lparr>t_id = r_id r, t_context_id = r_context_id r,
          t_status = \<lparr>ts_state = r_status_state r, ts_timestamp = Some (r_status_timestamp r), ts_message = r_status_message r\<rparr>,
          t_history = Some history, t_artifacts = (if ia then r_artifacts r else []), t_metadata = r_metadata r\<rparr>)"

definition SQLStorage_load_task :: "string \<Rightarrow> int option \<Rightarrow> bool \<Rightarrow> (db, exn, task option) py" where
  "SQLStorage_load_task tid hl ia d = (Inr (map_option (\<lambda>r. row_to_task r hl ia) (select_task tid d)), d)"

definition SQLStorage_get_version :: "string \<Rightarrow> (db, exn, int option) py" where
  "SQLStorage_get_version tid d = (Inr (map_option r_version (select_task tid d)), d)"

section \<open>Creating\<close>

definition initial_row :: "string \<Rightarrow> string \<Rightarrow> string \<Rightarrow> message \<Rightarrow> mdict \<Rightarrow> string option \<Rightarrow> row" where
  "initial_row now uid ctx history_msg meta key =
     \<lparr>r_id = uid, r_context_id = ctx, r_status_state = task_state_submitted, r_status_timestamp = now, r_status_message = None,
      r_history = [history_msg], r_artifacts = [], r_metadata = Some meta, r_version = 1, r_idempotency_key = key,
      r_created_at = now\<rparr>"

definition stamps :: "string \<Rightarrow> mdict" where
  "stamps now = [(''stateTransitions'', JList [build_transition_record (state_value task_state_submitted) now None]),
     (META_CREATED_AT_KEY, JStr now), (META_LAST_MODIFIED_KEY, JStr now)]"

text \<open>A plain \<^verbatim>\<open>INSERT\<close>; the primary key must be new, and the strings must fit.\<close>

definition insert_task :: "dialect \<Rightarrow> row \<Rightarrow> (db, exn, unit) py" where
  "insert_task dl r d =
     (if \<not> fits dl 36 (r_context_id r) then (Inl (DataError ''context_id''), d)
      else if select_task (r_id r) d \<noteq> None then (Inl (BackendError ''IntegrityError''), d)
      else (Inr (), d\<lparr>db_tasks := db_tasks d @ [r]\<rparr>))"

definition same_key :: "string \<Rightarrow> string \<Rightarrow> row \<Rightarrow> bool" where
  "same_key ctx key r \<longleftrightarrow> r_context_id r = ctx \<and> r_idempotency_key r = Some key"

text \<open>\<^verbatim>\<open>INSERT OR IGNORE\<close> skips a row that violates any unique index, \<^verbatim>\<open>ON CONFLICT (context_id, idempotency_key) DO NOTHING\<close>
  only the named one.\<close>

definition insert_or_ignore :: "dialect \<Rightarrow> row \<Rightarrow> (db, exn, unit) py" where
  "insert_or_ignore dl r d =
     (if \<not> fits dl 36 (r_context_id r) \<or> \<not> fits dl 255 (the (r_idempotency_key r)) then (Inl (DataError ''value too long''), d)
      else if find (same_key (r_context_id r) (the (r_idempotency_key r))) (db_tasks d) \<noteq> None then (Inr (), d)
      else if select_task (r_id r) d \<noteq> None then (if dl = SQLite then Inr () else Inl (BackendError ''IntegrityError''), d)
      else (Inr (), d\<lparr>db_tasks := db_tasks d @ [r]\<rparr>))"

definition insert_idempotent ::
  "dialect \<Rightarrow> string \<Rightarrow> string \<Rightarrow> string \<Rightarrow> message \<Rightarrow> string \<Rightarrow> (db, exn, task option) py" where
  "insert_idempotent dl now uid ctx history_msg key =
     bindE (insert_or_ignore dl (initial_row now uid ctx history_msg ((''_idempotency_key'', JStr key) # stamps now) (Some key)))
       (\<lambda>_ d. case find (same_key ctx key) (db_tasks d) of
            None \<Rightarrow> (Inr None, d)
          | Some r \<Rightarrow> (Inr (if r_id r = uid then None else Some (row_to_task r None True)), d))"

text \<open>\<open>between\<close>: what others commit between the transaction and the task's being loaded.\<close>

definition SQLStorage_create_task ::
  "dialect \<Rightarrow> (db \<Rightarrow> db) \<Rightarrow> string \<Rightarrow> string \<Rightarrow> string \<Rightarrow> message \<Rightarrow> string option \<Rightarrow> (db, exn, task) py" where
  "SQLStorage_create_task dl between now uid ctx msg key =
     (let history_msg = msg\<lparr>m_task_id := Some uid, m_context_id := Some ctx\<rparr> in
      bindE (if truthy key then insert_idempotent dl now uid ctx history_msg (the key)
             else thenE (insert_task dl (initial_row now uid ctx history_msg (stamps now) None)) (ret None))
        (\<lambda>existing. case existing of
            Some t \<Rightarrow> ret t
          | None \<Rightarrow> thenE (modify between) (bindE (SQLStorage_load_task uid None True) (\<lambda>loaded. case loaded of
              None \<Rightarrow> raise (TaskNotFoundError (''Task '' @ uid @ '' vanished immediately after create''))
            | Some t \<Rightarrow> ret (t\<lparr>t_metadata := Some (AList.update ''_a2akit_just_created'' (JBool True) (metadata_dict t))\<rparr>)))))"

section \<open>Updating\<close>

definition SQLStorage_apply_artifact :: "artifact list \<Rightarrow> artifact \<Rightarrow> bool \<Rightarrow> artifact list" where
  "SQLStorage_apply_artifact existing a app =
     (case index_of (\<lambda>b. a_artifact_id b = a_artifact_id a) existing of
        Some i \<Rightarrow> if app then existing[i := (existing ! i)\<lparr>a_parts := a_parts (existing ! i) @ a_parts a\<rparr>] else existing[i := a]
      | None \<Rightarrow> existing @ [a])"

text \<open>The dictionary \<^verbatim>\<open>values\<close>: the columns a write sets; \<open>None\<close> is a column that is not set.\<close>

record row_values =
  v_version :: int
  v_history :: "message list option"
  v_artifacts :: "artifact list option"
  v_metadata :: "mdict option"
  v_status_state :: "task_state option"
  v_status_timestamp :: "string option"
  v_status_message :: "message option option"

definition values_metadata :: "update \<Rightarrow> row \<Rightarrow> mdict option" where
  "values_metadata u r = (if opt_list (u_task_metadata u) = [] then None
     else Some (dmerge (opt_list (r_metadata r)) (opt_list (u_task_metadata u))))"

definition update_values :: "string \<Rightarrow> update \<Rightarrow> row \<Rightarrow> exn + row_values" where
  "update_values now u r =
     (let vals0 = \<lparr>v_version = r_version r + 1,
            v_history = (if opt_list (u_messages u) = [] then None else Some (r_history r @ opt_list (u_messages u))),
            v_artifacts = (if opt_list (u_artifacts u) = [] then None
              else Some (fold (\<lambda>aw as. SQLStorage_apply_artifact as (aw_artifact aw) (aw_append aw)) (opt_list (u_artifacts u))
                (r_artifacts r))),
            v_metadata = values_metadata u r, v_status_state = None, v_status_timestamp = None, v_status_message = None\<rparr>;
          existing_meta = (case v_metadata vals0 of Some md \<Rightarrow> md | None \<Rightarrow> opt_list (r_metadata r))
      in case u_state u of
           Some s \<Rightarrow> (case append_transition (build_transition_record (state_value s) now (u_status_message u)) existing_meta of
               Inl e \<Rightarrow> Inl e
             | Inr md \<Rightarrow> Inr (vals0\<lparr>v_status_state := Some s, v_status_timestamp := Some now,
                 v_status_message := Some (u_status_message u), v_metadata := Some (AList.update META_LAST_MODIFIED_KEY (JStr now) md)\<rparr>))
         | None \<Rightarrow> (case u_status_message u of
               None \<Rightarrow> Inr vals0
             | Some m \<Rightarrow> Inr (vals0\<lparr>v_status_message := Some (Some m), v_status_timestamp := Some now,
                 v_metadata := Some (AList.update META_LAST_MODIFIED_KEY (JStr now) existing_meta)\<rparr>)))"

definition set_values :: "row_values \<Rightarrow> row \<Rightarrow> row" where
  "set_values vals r = r\<lparr>r_version := v_version vals,
     r_history := (case v_history vals of None \<Rightarrow> r_history r | Some h \<Rightarrow> h),
     r_artifacts := (case v_artifacts vals of None \<Rightarrow> r_artifacts r | Some as \<Rightarrow> as),
     r_metadata := (case v_metadata vals of None \<Rightarrow> r_metadata r | Some md \<Rightarrow> Some md),
     r_status_state := (case v_status_state vals of None \<Rightarrow> r_status_state r | Some s \<Rightarrow> s),
     r_status_timestamp := (case v_status_timestamp vals of None \<Rightarrow> r_status_timestamp r | Some ts \<Rightarrow> ts),
     r_status_message := (case v_status_message vals of None \<Rightarrow> r_status_message r | Some m \<Rightarrow> m)\<rparr>"

text \<open>\<^verbatim>\<open>UPDATE ... WHERE id = tid AND version = v\<close>: the number of rows, or the error of a value that does not fit.\<close>

definition update_stmt :: "dialect \<Rightarrow> string \<Rightarrow> int \<Rightarrow> row_values \<Rightarrow> (db, exn, nat) py" where
  "update_stmt dl tid v vals d =
     (let hit = (\<lambda>r. r_id r = tid \<and> r_version r = v); n = length (filter hit (db_tasks d)) in
      if n > 0 \<and> v_status_state vals \<noteq> None \<and> \<not> fits dl 20 (state_value (the (v_status_state vals)))
      then (Inl (DataError ''value too long for type character varying(20)''), d)
      else (Inr n, d\<lparr>db_tasks := map (\<lambda>r. if hit r then set_values vals r else r) (db_tasks d)\<rparr>))"

text \<open>The retry loop: attempt \<open>k\<close>, with \<open>n\<close> attempts left. Statement \<open>2 k\<close> is its \<^verbatim>\<open>SELECT\<close>, \<open>2 k + 1\<close> its \<^verbatim>\<open>UPDATE\<close>.\<close>

fun update_loop ::
  "dialect \<Rightarrow> (nat \<Rightarrow> string) \<Rightarrow> (nat \<Rightarrow> db \<Rightarrow> db) \<Rightarrow> string \<Rightarrow> update \<Rightarrow> nat \<Rightarrow> nat \<Rightarrow> (db, exn, int) py" where
  "update_loop dl now intf tid u k 0 d = (Inl (RuntimeError ''update_task retry loop exited without result''), d)"
| "update_loop dl now intf tid u k (Suc n) d =
     (let d1 = intf (2 * k) d in
      case select_task tid d1 of
        None \<Rightarrow> (Inl (TaskNotFoundError (''Task '' @ tid @ '' not found'')), d1)
      | Some r \<Rightarrow>
          if u_expected_version u \<noteq> None \<and> r_version r \<noteq> the (u_expected_version u)
          then (Inl (ConcurrencyError (version_mismatch_text tid (the (u_expected_version u)) (r_version r)) (Some (r_version r))), d1)
          else if u_state u \<noteq> None \<and> r_status_state r \<in> TERMINAL_STATES
          then (Inl (TaskTerminalStateError (terminal_transition_text tid (r_status_state r) (the (u_state u)))), d1)
          else case update_values (now k) u r of
              Inl e \<Rightarrow> (Inl e, d1)
            | Inr vals \<Rightarrow>
                (case update_stmt dl tid (r_version r) vals (intf (2 * k + 1) d1) of
                   (Inl e, d2) \<Rightarrow> (Inl e, d2)
                 | (Inr rowcount, d2) \<Rightarrow>
                     if rowcount > 0 then (Inr (r_version r + 1), d2)
                     else if u_expected_version u \<noteq> None \<or> n = 0
                     then (Inl (ConcurrencyError (''Concurrent modification of task '' @ tid) None), d2)
                     else update_loop dl now intf tid u (Suc k) n d2))"

definition SQLStorage_update_task ::
  "dialect \<Rightarrow> (nat \<Rightarrow> string) \<Rightarrow> (nat \<Rightarrow> db \<Rightarrow> db) \<Rightarrow> string \<Rightarrow> update \<Rightarrow> (db, exn, int) py" where
  "SQLStorage_update_task dl now intf tid u =
     update_loop dl now intf tid u 0 (if u_expected_version u \<noteq> None then 1 else 8)"

section \<open>Listing, deleting, contexts\<close>

definition row_matches :: "list_query \<Rightarrow> row \<Rightarrow> bool" where
  "row_matches q r \<longleftrightarrow>
     (truthy (q_context_id q) \<longrightarrow> r_context_id r = the (q_context_id q)) \<and>
     (q_status q \<noteq> None \<longrightarrow> r_status_state r = the (q_status q)) \<and>
     (truthy (q_status_timestamp_after q) \<longrightarrow> the (q_status_timestamp_after q) < r_status_timestamp r) \<and>
     (truthy (q_tenant q) \<longrightarrow> map_of (opt_list (r_metadata r)) META_TENANT_KEY = Some (JStr (the (q_tenant q))))"

definition SQLStorage_list_tasks :: "dialect \<Rightarrow> list_query \<Rightarrow> (db, exn, list_result) py" where
  "SQLStorage_list_tasks dl q d =
     (let matching = filter (row_matches q) (db_tasks d);
          total_size = int (length matching);
          offset = page_offset (q_page_token q);
          ordered = sorted_reverse (\<lambda>r. (r_status_timestamp r, r_id r)) matching;
          rows = (if q_page_size q < 0 then id else take (nat (q_page_size q))) (drop (nat offset) ordered);
          next_offset = offset + q_page_size q
      in if dl = PostgreSQL \<and> (offset < 0 \<or> q_page_size q < 0) then (Inl (DataError ''must not be negative''), d)
         else (Inr \<lparr>lr_tasks = map (\<lambda>r. row_to_task r (q_history_length q) (q_include_artifacts q)) rows,
           lr_next_page_token = (if next_offset < total_size then int_str next_offset else ''''),
           lr_page_size = q_page_size q, lr_total_size = total_size\<rparr>, d))"

definition SQLStorage_delete_task :: "string \<Rightarrow> db \<times> push_store option \<Rightarrow> bool \<times> db \<times> push_store option" where
  "SQLStorage_delete_task tid = (\<lambda>(d, ps).
     let existed = select_task tid d \<noteq> None
     in (existed, d\<lparr>db_tasks := filter (\<lambda>r. r_id r \<noteq> tid) (db_tasks d)\<rparr>,
         if existed then cascade_push_delete_for_task tid ps else ps))"

definition SQLStorage_delete_context :: "string \<Rightarrow> db \<times> push_store option \<Rightarrow> nat \<times> db \<times> push_store option" where
  "SQLStorage_delete_context ctx = (\<lambda>(d, ps).
     let affected = map r_id (filter (\<lambda>r. r_context_id r = ctx) (db_tasks d))
     in (length affected,
         d\<lparr>db_tasks := filter (\<lambda>r. r_context_id r \<noteq> ctx) (db_tasks d), db_contexts := AList.delete ctx (db_contexts d)\<rparr>,
         cascade_push_delete_for_tasks affected ps))"

definition SQLStorage_load_context :: "string \<Rightarrow> (db, exn, json option) py" where
  "SQLStorage_load_context ctx d = (Inr (map_of (db_contexts d) ctx), d)"

text \<open>\<^verbatim>\<open>UPDATE\<close>, else \<^verbatim>\<open>INSERT\<close>, else \<^verbatim>\<open>UPDATE\<close> again: \<open>between\<close> is what others commit before the \<^verbatim>\<open>INSERT\<close>, which fails when the
  row is there by then.\<close>

definition update_context_stmt :: "string \<Rightarrow> json \<Rightarrow> db \<Rightarrow> db" where
  "update_context_stmt ctx v d =
     (if map_of (db_contexts d) ctx = None then d else d\<lparr>db_contexts := AList.update ctx v (db_contexts d)\<rparr>)"

definition SQLStorage_update_context :: "dialect \<Rightarrow> (db \<Rightarrow> db) \<Rightarrow> string \<Rightarrow> json \<Rightarrow> (db, exn, unit) py" where
  "SQLStorage_update_context dl between ctx v d =
     (if map_of (db_contexts d) ctx \<noteq> None then (Inr (), update_context_stmt ctx v d) else
      let d1 = between d in
      if \<not> fits dl 36 ctx then (Inl (DataError ''context_id''), d1)
      else if map_of (db_contexts d1) ctx = None then (Inr (), d1\<lparr>db_contexts := AList.update ctx v (db_contexts d1)\<rparr>)
      else (Inr (), update_context_stmt ctx v d1))"

definition SQLStorage_ops :: "dialect \<Rightarrow> db storage_ops" where
  "SQLStorage_ops dl = \<lparr>
     so_load_task = SQLStorage_load_task,
     so_create_task = SQLStorage_create_task dl id,
     so_update_task = (\<lambda>now. SQLStorage_update_task dl (\<lambda>_. now) (\<lambda>_. id)),
     so_get_version = SQLStorage_get_version,
     so_list_tasks = SQLStorage_list_tasks dl,
     so_load_context = SQLStorage_load_context,
     so_update_context = SQLStorage_update_context dl id\<rparr>"

lemma SQLStorage_ops_simps [simp]:
  "so_load_task (SQLStorage_ops dl) = SQLStorage_load_task"
  "so_create_task (SQLStorage_ops dl) = SQLStorage_create_task dl id"
  "so_update_task (SQLStorage_ops dl) now = SQLStorage_update_task dl (\<lambda>_. now) (\<lambda>_. id)"
  "so_get_version (SQLStorage_ops dl) = SQLStorage_get_version"
  "so_list_tasks (SQLStorage_ops dl) = SQLStorage_list_tasks dl"
  "so_load_context (SQLStorage_ops dl) = SQLStorage_load_context"
  "so_update_context (SQLStorage_ops dl) = SQLStorage_update_context dl id"
  by (simp_all add: SQLStorage_ops_def)

end
