(* ===== verification/Sql_Refinement.thy ===== *)
theory Sql_Refinement
  imports Storage_Sql
begin

text \<open>
  The SQL backends against the storage contract. On SQLite every operation meets it. An update that races with other writers is
  the contract's atomic update at one moment between the call and the return, or it raises and has written nothing. On PostgreSQL
  two task states cannot be stored.
\<close>

section \<open>Abstraction\<close>

abbreviation row_task :: "row \<Rightarrow> task" where
  "row_task r \<equiv> row_to_task r None True"

definition sql_view :: "db \<Rightarrow> string \<Rightarrow> (task \<times> int) option" where
  "sql_view d tid = map_option (\<lambda>r. (row_task r, r_version r)) (select_task tid d)"

definition sql_idem :: "db \<Rightarrow> string \<Rightarrow> string \<Rightarrow> string option" where
  "sql_idem d ctx key = map_option r_id (find (same_key ctx key) (db_tasks d))"

definition row_ok :: "row \<Rightarrow> bool" where
  "row_ok r \<longleftrightarrow> opt_list (r_metadata r) \<noteq> [] \<and> task_meta_ok (row_task r)"

definition sql_inv :: "db \<Rightarrow> bool" where
  "sql_inv d \<longleftrightarrow> distinct (map r_id (db_tasks d)) \<and> (\<forall>r \<in> set (db_tasks d). row_ok r)"

lemma row_task_simps [simp]:
  "t_id (row_to_task r hl ia) = r_id r" "t_context_id (row_to_task r hl ia) = r_context_id r"
  "t_state (row_to_task r hl ia) = r_status_state r" "t_metadata (row_to_task r hl ia) = r_metadata r"
  by (simp_all add: row_to_task_def Let_def)

lemma select_task_in: "select_task tid d = Some r \<Longrightarrow> r \<in> set (db_tasks d) \<and> r_id r = tid"
  by (auto simp: select_task_def find_Some_iff)

lemma select_task_eq:
  assumes "distinct (map r_id (db_tasks d))"
  shows "select_task tid d = Some r \<longleftrightarrow> r \<in> set (db_tasks d) \<and> r_id r = tid"
proof
  assume r: "r \<in> set (db_tasks d) \<and> r_id r = tid"
  then obtain r' where r': "select_task tid d = Some r'"
    unfolding select_task_def by (metis (mono_tags, lifting) find_None_iff option.exhaust)
  from select_task_in [OF this] r assms have "r' = r" by (auto simp: distinct_map inj_on_def)
  with r' show "select_task tid d = Some r" by simp
qed (rule select_task_in)

lemma sql_inv_row: "sql_inv d \<Longrightarrow> select_task tid d = Some r \<Longrightarrow> row_ok r \<and> r_id r = tid"
  using select_task_in [of tid d r] by (simp add: sql_inv_def)

section \<open>What an update writes\<close>

lemma apply_artifacts_upsert:
  "fold (\<lambda>aw as. SQLStorage_apply_artifact as (aw_artifact aw) (aw_append aw)) ws as = upsert_all ws as"
  unfolding upsert_all_def SQLStorage_apply_artifact_def by (simp only: index_update_upsert)

text \<open>The columns of a write are the reference update, on a row whose metadata is not empty.\<close>

lemma update_values_spec:
  assumes "opt_list (r_metadata r) \<noteq> []"
  shows "apply_update now u (row_task r) = map_sum id (\<lambda>vals. row_task (set_values vals r)) (update_values now u r)"
proof -
  obtain md where md: "r_metadata r = Some md" "md \<noteq> []" using assms by (cases "r_metadata r") auto
  then have ne: "dmerge md (opt_list (u_task_metadata u)) \<noteq> []" using dmerge_not_Nil by blast
  have m0: "(case values_metadata u r of Some m \<Rightarrow> m | None \<Rightarrow> opt_list (r_metadata r)) = dmerge md (opt_list (u_task_metadata u))"
    by (simp add: values_metadata_def md dmerge_def)
  show ?thesis
    using md ne m0 append_transition_not_Nil
    by (cases "u_state u"; cases "u_status_message u")
      (auto simp: apply_update_def update_values_def new_metadata_def new_status_def set_values_def row_to_task_def
        apply_artifacts_upsert values_metadata_def Let_def split: sum.splits)
qed

lemma update_values_version: "update_values now u r = Inr vals \<Longrightarrow> v_version vals = r_version r + 1"
  by (auto simp: update_values_def Let_def split: option.splits sum.splits)

lemma set_values_simps [simp]:
  "r_id (set_values vals r) = r_id r" "r_context_id (set_values vals r) = r_context_id r"
  "r_idempotency_key (set_values vals r) = r_idempotency_key r" "r_version (set_values vals r) = v_version vals"
  by (simp_all add: set_values_def)

section \<open>The statement\<close>

lemma find_map_key:
  assumes "\<And>r. r_id (g r) = r_id r"
  shows "find (\<lambda>r. r_id r = tid) (map g rs) = map_option g (find (\<lambda>r. r_id r = tid) rs)"
  by (induction rs) (simp_all add: assms)

lemma filter_unique:
  "distinct xs \<Longrightarrow> x \<in> set xs \<Longrightarrow> P x \<Longrightarrow> (\<And>y. y \<in> set xs \<Longrightarrow> P y \<Longrightarrow> y = x) \<Longrightarrow> filter P xs = [x]"
proof (induction xs)
  case (Cons a xs)
  show ?case
  proof (cases "a = x")
    case True
    have "\<not> P y" if "y \<in> set xs" for y
      using Cons.prems(1) Cons.prems(4) [of y] that True by auto
    then have "filter P xs = []" by (simp add: filter_empty_conv)
    with True Cons.prems(3) show ?thesis by simp
  next
    case False
    with Cons.prems(4) [of a] have "\<not> P a" by auto
    moreover have "filter P xs = [x]"
      by (rule Cons.IH) (use Cons.prems(1-3) False Cons.prems(4) in \<open>simp_all\<close>)
    ultimately show ?thesis by simp
  qed
qed simp

text \<open>The row the guard of the statement admits is replaced; without one nothing changes.\<close>

lemma update_stmt_hit:
  assumes d: "sql_inv d" "select_task tid d = Some r" and ok: "row_ok (set_values vals r)"
    and fits: "v_status_state vals = None \<or> fits dl 20 (state_value (the (v_status_state vals)))"
  shows "\<exists>d'. update_stmt dl tid (r_version r) vals d = (Inr 1, d') \<and> sql_inv d'
    \<and> sql_view d' = (sql_view d)(tid \<mapsto> (row_task (set_values vals r), v_version vals)) \<and> sql_idem d' = sql_idem d
    \<and> db_contexts d' = db_contexts d"
proof -
  define hit :: "row \<Rightarrow> bool" where "hit = (\<lambda>r'. r_id r' = tid \<and> r_version r' = r_version r)"
  define g where "g = (\<lambda>r'. if hit r' then set_values vals r' else r')"
  define d' where "d' = d\<lparr>db_tasks := map g (db_tasks d)\<rparr>"
  have r: "r \<in> set (db_tasks d)" "r_id r = tid" using select_task_in [OF d(2)] by auto
  have dist: "distinct (map r_id (db_tasks d))" using d(1) by (simp add: sql_inv_def)
  have only: "r' = r" if "r' \<in> set (db_tasks d)" "hit r'" for r'
    using that r dist by (auto simp: hit_def distinct_map inj_on_def)
  have "filter hit (db_tasks d) = [r]"
  proof (rule filter_unique)
    show "distinct (db_tasks d)" using dist by (simp add: distinct_map)
    show "hit r" using r by (simp add: hit_def)
  qed (use r in \<open>simp_all add: only\<close>)
  then have stmt: "update_stmt dl tid (r_version r) vals d = (Inr 1, d')"
    using fits by (auto simp: update_stmt_def hit_def [symmetric] g_def d'_def Let_def)
  have g: "r_id (g r') = r_id r'" "same_key c k (g r') = same_key c k r'" for r' c k
    by (simp_all add: g_def same_key_def)
  have "r_id \<circ> g = r_id" by (simp add: fun_eq_iff g)
  then have ids: "distinct (map (r_id \<circ> g) (db_tasks d))" using dist by simp
  have rows: "row_ok (g r')" if "r' \<in> set (db_tasks d)" for r'
    using d(1) only [OF that] ok that by (auto simp: sql_inv_def g_def)
  have "sql_inv d'"
    using dist ids unfolding sql_inv_def d'_def by (simp add: rows)
  moreover have "sql_view d' tid' = ((sql_view d)(tid \<mapsto> (row_task (set_values vals r), v_version vals))) tid'" for tid'
  proof (cases "tid' = tid")
    case True
    with d(2) r show ?thesis by (simp add: sql_view_def select_task_def d'_def find_map_key g g_def hit_def)
  next
    case False
    have "g r' = r'" if "find (\<lambda>r. r_id r = tid') (db_tasks d) = Some r'" for r'
      using that False by (auto simp: g_def hit_def find_Some_iff)
    with False show ?thesis
      by (cases "find (\<lambda>r. r_id r = tid') (db_tasks d)") (simp_all add: sql_view_def select_task_def d'_def find_map_key g)
  qed
  moreover have "find (same_key c k) (map g rs) = map_option g (find (same_key c k) rs)" for c k rs
    by (induction rs) (simp_all add: g)
  then have "sql_idem d' = sql_idem d"
    by (simp add: sql_idem_def fun_eq_iff d'_def option.map_comp comp_def g)
  ultimately show ?thesis using stmt by (auto simp: d'_def)
qed

lemma update_stmt_miss:
  assumes "\<forall>r \<in> set (db_tasks d). \<not> (r_id r = tid \<and> r_version r = v)"
  shows "update_stmt dl tid v vals d = (Inr 0, d)"
proof -
  have "filter (\<lambda>r. r_id r = tid \<and> r_version r = v) (db_tasks d) = []" using assms by (auto simp: filter_empty_conv)
  moreover have "map (\<lambda>r. if r_id r = tid \<and> r_version r = v then set_values vals r else r) (db_tasks d) = db_tasks d"
    using assms by (intro map_idI) auto
  ultimately show ?thesis by (simp add: update_stmt_def Let_def)
qed

section \<open>One attempt\<close>

text \<open>What the guards let through: the columns of the write are the reference update of the row that was read.\<close>

lemma update_values_ok:
  assumes "row_ok r" and "valid_update u"
  obtains vals where "update_values now u r = Inr vals" "apply_update now u (row_task r) = Inr (row_task (set_values vals r))"
    "row_ok (set_values vals r)" "v_version vals = r_version r + 1" "v_status_state vals = u_state u"
proof -
  have meta: "opt_list (r_metadata r) \<noteq> []" "task_meta_ok (row_task r)" using assms(1) by (simp_all add: row_ok_def)
  obtain t' where t': "apply_update now u (row_task r) = Inr t'" "task_meta_ok t'"
    using valid_update_applies [OF assms(2) meta(2)] by blast
  then obtain vals where vals: "update_values now u r = Inr vals" "t' = row_task (set_values vals r)"
    using update_values_spec [OF meta(1), of now u] by (cases "update_values now u r") auto
  have "opt_list (r_metadata (set_values vals r)) \<noteq> []"
    using vals(1) meta(1) dmerge_not_Nil [OF meta(1), of "opt_list (u_task_metadata u)"]
    by (auto simp: update_values_def set_values_def values_metadata_def Let_def split: option.splits sum.splits if_splits)
  moreover have "v_status_state vals = u_state u"
    using vals(1) by (auto simp: update_values_def Let_def split: option.splits sum.splits)
  ultimately show thesis
    using that [OF vals(1)] t' vals update_values_version [OF vals(1)] by (simp add: row_ok_def)
qed

definition guards_pass :: "update \<Rightarrow> row \<Rightarrow> bool" where
  "guards_pass u r \<longleftrightarrow> u_expected_version u \<in> {None, Some (r_version r)} \<and> (u_state u = None \<or> r_status_state r \<notin> TERMINAL_STATES)"

text \<open>The exceptions of an update and what they say about the database at the moment \<open>d0\<close>.\<close>

fun refusal :: "dialect \<Rightarrow> update \<Rightarrow> string \<Rightarrow> exn \<Rightarrow> db \<Rightarrow> bool" where
  "refusal dl u tid (TaskNotFoundError _) d0 = (sql_view d0 tid = None)"
| "refusal dl u tid (ConcurrencyError _ (Some v)) d0 =
     (\<exists>t. sql_view d0 tid = Some (t, v) \<and> u_expected_version u \<notin> {None, Some v})"
| "refusal dl u tid (ConcurrencyError _ None) d0 = False"
| "refusal dl u tid (TaskTerminalStateError _) d0 =
     (\<exists>t v. sql_view d0 tid = Some (t, v) \<and> u_state u \<noteq> None \<and> t_state t \<in> TERMINAL_STATES)"
| "refusal dl u tid (DataError _) d0 = (dl = PostgreSQL \<and> u_state u \<in> {Some task_state_input_required, Some task_state_auth_required})"
| "refusal dl u tid _ d0 = False"

text \<open>\<open>atomic_update dl now u tid d0 r d'\<close>: from \<open>d0\<close>, one indivisible update has result \<open>r\<close> and leaves \<open>d'\<close>.\<close>

definition atomic_update :: "dialect \<Rightarrow> string \<Rightarrow> update \<Rightarrow> string \<Rightarrow> db \<Rightarrow> exn + int \<Rightarrow> db \<Rightarrow> bool" where
  "atomic_update dl now u tid d0 r d' = (case r of
      Inl e \<Rightarrow> d' = d0 \<and> refusal dl u tid e d0
    | Inr v \<Rightarrow> \<exists>t t'. sql_view d0 tid = Some (t, v - 1) \<and> u_expected_version u \<in> {None, Some (v - 1)}
        \<and> (u_state u = None \<or> t_state t \<notin> TERMINAL_STATES) \<and> apply_update now u t = Inr t'
        \<and> sql_inv d' \<and> sql_view d' = (sql_view d0)(tid \<mapsto> (t', v)) \<and> sql_idem d' = sql_idem d0 \<and> db_contexts d' = db_contexts d0)"

lemma long_states: "fits dl 20 (state_value s) \<longleftrightarrow> dl = SQLite \<or> s \<notin> {task_state_input_required, task_state_auth_required}"
  by (cases s) (simp_all add: fits_def)

lemma not_SQLite: "dl \<noteq> SQLite \<longleftrightarrow> dl = PostgreSQL"
  by (cases dl) simp_all

lemma update_stmt_atomic:
  assumes d: "sql_inv d" "select_task tid d = Some r" and u: "guards_pass u r" "valid_update u" "update_values now u r = Inr vals"
  shows "case update_stmt dl tid (r_version r) vals d of
      (Inl e, d') \<Rightarrow> atomic_update dl now u tid d (Inl e) d'
    | (Inr n, d') \<Rightarrow> n > 0 \<and> atomic_update dl now u tid d (Inr (r_version r + 1)) d'"
proof -
  have row: "row_ok r" using sql_inv_row [OF d] by simp
  obtain vals' where "update_values now u r = Inr vals'" and v: "apply_update now u (row_task r) = Inr (row_task (set_values vals' r))"
    "row_ok (set_values vals' r)" "v_version vals' = r_version r + 1" "v_status_state vals' = u_state u"
    using update_values_ok [OF row u(2), of now] .
  with u(3) have vals: "vals' = vals" by simp
  note v = v [unfolded vals]
  show ?thesis
  proof (cases "u_state u = None \<or> fits dl 20 (state_value (the (u_state u)))")
    case True
    with update_stmt_hit [OF d v(2), of dl] v(4) obtain d' where "update_stmt dl tid (r_version r) vals d = (Inr 1, d')" "sql_inv d'"
      "sql_view d' = (sql_view d)(tid \<mapsto> (row_task (set_values vals r), v_version vals))" "sql_idem d' = sql_idem d"
      "db_contexts d' = db_contexts d"
      by auto
    with u(1) d(2) v(1,3) show ?thesis by (simp add: atomic_update_def guards_pass_def sql_view_def)
  next
    case False
    have "filter (\<lambda>r'. r_id r' = tid \<and> r_version r' = r_version r) (db_tasks d) \<noteq> []"
      using select_task_in [OF d(2)] by (auto simp: filter_empty_conv)
    with False v(4) show ?thesis
      by (auto simp: update_stmt_def atomic_update_def Let_def long_states not_SQLite)
  qed
qed

section \<open>Racing writers\<close>

text \<open>What is known of the others: they keep the invariant, and whoever changes a row changes its version. Every update of this
  backend does, and identifiers are not used twice.\<close>

definition respectful :: "(nat \<Rightarrow> db \<Rightarrow> db) \<Rightarrow> bool" where
  "respectful intf \<longleftrightarrow> (\<forall>i d. sql_inv d \<longrightarrow> sql_inv (intf i d)
     \<and> (\<forall>tid r r'. select_task tid d = Some r \<longrightarrow> select_task tid (intf i d) = Some r' \<longrightarrow> r_version r' = r_version r \<longrightarrow> r' = r))"

lemma respectful_id: "respectful (\<lambda>_. id)"
  by (simp add: respectful_def)

text \<open>Another writer got in between two moments: the version seen first is not there any more.\<close>

definition overtaken :: "string \<Rightarrow> db \<Rightarrow> db \<Rightarrow> bool" where
  "overtaken tid d1 d2 \<longleftrightarrow> (\<exists>t v. sql_view d1 tid = Some (t, v) \<and> (\<forall>t'. sql_view d2 tid \<noteq> Some (t', v)))"

lemma overtaken_irrefl [simp]: "\<not> overtaken tid d d"
  by (simp add: overtaken_def)

definition attempts :: "update \<Rightarrow> nat" where
  "attempts u = (if u_expected_version u \<noteq> None then 1 else 8)"

text \<open>One attempt decides at its \<^verbatim>\<open>SELECT\<close> or at its \<^verbatim>\<open>UPDATE\<close>, or it was overtaken and has changed nothing: then it is the last one or
  the loop goes on.\<close>

lemma update_attempt:
  assumes intf: "respectful intf" and u: "valid_update u" and d: "sql_inv d"
    and run: "update_loop dl now intf tid u k (Suc n) d = (r, d')"
  defines "d1 \<equiv> intf (2 * k) d"
  defines "d2 \<equiv> intf (2 * k + 1) d1"
  shows "atomic_update dl (now k) u tid d1 r d' \<or> atomic_update dl (now k) u tid d2 r d'
    \<or> overtaken tid d1 d2 \<and> (if u_expected_version u \<noteq> None \<or> n = 0
        then r = Inl (ConcurrencyError (''Concurrent modification of task '' @ tid) None) \<and> d' = d2
        else sql_inv d2 \<and> update_loop dl now intf tid u (Suc k) n d2 = (r, d'))"
proof -
  have inv1: "sql_inv d1" and inv2: "sql_inv d2" using intf d by (simp_all add: respectful_def d1_def d2_def)
  note run = run [unfolded update_loop.simps(2) Let_def d1_def [symmetric] d2_def [symmetric]]
  consider (missing) "select_task tid d1 = None" | (refused) row where "select_task tid d1 = Some row" "\<not> guards_pass u row"
    | (pass) row where "select_task tid d1 = Some row" "guards_pass u row"
    by (cases "select_task tid d1") auto
  then show ?thesis
  proof cases
    case missing
    with run have "atomic_update dl (now k) u tid d1 r d'" by (auto simp: atomic_update_def sql_view_def)
    then show ?thesis ..
  next
    case (refused row)
    with run have "atomic_update dl (now k) u tid d1 r d'"
      by (auto simp: guards_pass_def atomic_update_def sql_view_def split: if_splits)
    then show ?thesis ..
  next
    case (pass row)
    obtain vals where vals: "update_values (now k) u row = Inr vals"
      using update_values_ok [OF _ u] sql_inv_row [OF inv1 pass(1)] by metis
    have "\<not> (u_expected_version u \<noteq> None \<and> r_version row \<noteq> the (u_expected_version u))"
      "\<not> (u_state u \<noteq> None \<and> r_status_state row \<in> TERMINAL_STATES)"
      using pass(2) by (auto simp: guards_pass_def)
    note run = run [unfolded pass(1) option.case if_not_P [OF this(1)] if_not_P [OF this(2)] vals sum.case]
    show ?thesis
    proof (cases "\<exists>row'. select_task tid d2 = Some row' \<and> r_version row' = r_version row")
      case True
      with intf inv1 pass(1) have "select_task tid d2 = Some row" by (auto simp: respectful_def d2_def)
      from update_stmt_atomic [OF inv2 this pass(2) u vals, of dl] run show ?thesis
        by (auto split: prod.splits sum.splits if_splits)
    next
      case False
      have "distinct (map r_id (db_tasks d2))" using inv2 by (simp add: sql_inv_def)
      with False have "\<forall>r \<in> set (db_tasks d2). \<not> (r_id r = tid \<and> r_version r = r_version row)"
        using select_task_eq by blast
      then have "update_stmt dl tid (r_version row) vals d2 = (Inr 0, d2)" by (rule update_stmt_miss)
      moreover have "overtaken tid d1 d2" using False pass(1) unfolding overtaken_def sql_view_def by (cases "select_task tid d2") auto
      ultimately show ?thesis using run inv2 by (auto split: if_splits)
    qed
  qed
qed

definition lost_every_race :: "(nat \<Rightarrow> db \<Rightarrow> db) \<Rightarrow> string \<Rightarrow> nat \<Rightarrow> nat \<Rightarrow> db \<Rightarrow> exn + int \<Rightarrow> db \<Rightarrow> bool" where
  "lost_every_race intf tid k n d r d' \<longleftrightarrow> r = Inl (ConcurrencyError (''Concurrent modification of task '' @ tid) None)
     \<and> d' = fold intf [2 * k..<2 * (k + n)] d
     \<and> (\<forall>i. k \<le> i \<and> i < k + n \<longrightarrow> overtaken tid (fold intf [2 * k..<2 * i + 1] d) (fold intf [2 * k..<2 * i + 2] d))"

lemma fold_attempt:
  assumes "2 * Suc k \<le> m"
  shows "fold intf [2 * Suc k..<m] (intf (2 * k + 1) (intf (2 * k) d)) = fold intf [2 * k..<m] d"
proof -
  have "[2 * k..<m] = [2 * k, 2 * k + 1] @ [2 * Suc k..<m]" using assms by (simp add: upt_conv_Cons)
  then show ?thesis by simp
qed

lemma update_loop_atomic:
  assumes "respectful intf" "valid_update u"
  shows "sql_inv d \<Longrightarrow> 0 < n \<Longrightarrow> (u_expected_version u \<noteq> None \<longrightarrow> n = 1) \<Longrightarrow> update_loop dl now intf tid u k n d = (r, d') \<Longrightarrow>
    (\<exists>m j. 2 * k < m \<and> m \<le> 2 * (k + n) \<and> atomic_update dl (now j) u tid (fold intf [2 * k..<m] d) r d')
    \<or> lost_every_race intf tid k n d r d'"
proof (induction n arbitrary: k d)
  case (Suc n)
  define d2 where "d2 = intf (2 * k + 1) (intf (2 * k) d)"
  have f: "fold intf [2 * k..<2 * k + 1] d = intf (2 * k) d" "fold intf [2 * k..<2 * k + 2] d = d2" by (simp_all add: d2_def)
  consider "atomic_update dl (now k) u tid (intf (2 * k) d) r d'" | "atomic_update dl (now k) u tid d2 r d'"
    | "n = 0" "overtaken tid (intf (2 * k) d) d2" "r = Inl (ConcurrencyError (''Concurrent modification of task '' @ tid) None)" "d' = d2"
    | "0 < n" "u_expected_version u = None" "overtaken tid (intf (2 * k) d) d2" "sql_inv d2" "update_loop dl now intf tid u (Suc k) n d2 = (r, d')"
    using update_attempt [OF assms Suc.prems(1,4)] Suc.prems(3) unfolding d2_def by (auto split: if_splits)
  then show ?case
  proof cases
    case 1
    then show ?thesis by (intro disjI1 exI [of _ "2 * k + 1"] exI [of _ k]) simp
  next
    case 2
    then show ?thesis by (intro disjI1 exI [of _ "2 * k + 2"] exI [of _ k]) (simp add: d2_def)
  next
    case 3
    have "lost_every_race intf tid k (Suc n) d r d'"
      unfolding lost_every_race_def
    proof (intro conjI allI impI)
      fix i assume "k \<le> i \<and> i < k + Suc n"
      with 3(1) have "i = k" by simp
      with 3(2) f show "overtaken tid (fold intf [2 * k..<2 * i + 1] d) (fold intf [2 * k..<2 * i + 2] d)" by simp
    qed (use 3 f in simp_all)
    then show ?thesis ..
  next
    case 4
    from Suc.IH [OF 4(4,1) _ 4(5)] 4(2) consider
        m j where "2 * Suc k < m" "m \<le> 2 * (Suc k + n)" "atomic_update dl (now j) u tid (fold intf [2 * Suc k..<m] d2) r d'"
      | "lost_every_race intf tid (Suc k) n d2 r d'" by auto
    then show ?thesis
    proof cases
      case m: 1
      then have "fold intf [2 * Suc k..<m] d2 = fold intf [2 * k..<m] d" unfolding d2_def by (intro fold_attempt) simp
      with m show ?thesis by (intro disjI1 exI [of _ m] exI [of _ j]) simp
    next
      case l: 2
      have "lost_every_race intf tid k (Suc n) d r d'"
        unfolding lost_every_race_def
      proof (intro conjI allI impI)
        show "r = Inl (ConcurrencyError (''Concurrent modification of task '' @ tid) None)"
          using l unfolding lost_every_race_def by blast
        have "d' = fold intf [2 * Suc k..<2 * (Suc k + n)] d2" using l unfolding lost_every_race_def by blast
        then show "d' = fold intf [2 * k..<2 * (k + Suc n)] d"
          using fold_attempt [of k "2 * (Suc k + n)" intf d] by (simp add: d2_def)
        fix i assume i: "k \<le> i \<and> i < k + Suc n"
        show "overtaken tid (fold intf [2 * k..<2 * i + 1] d) (fold intf [2 * k..<2 * i + 2] d)"
        proof (cases "i = k")
          case True
          with 4(3) f show ?thesis by simp
        next
          case False
          with i have "Suc k \<le> i" "i < Suc k + n" by simp_all
          with l have "overtaken tid (fold intf [2 * Suc k..<2 * i + 1] d2) (fold intf [2 * Suc k..<2 * i + 2] d2)"
            unfolding lost_every_race_def by blast
          with \<open>Suc k \<le> i\<close> fold_attempt [of k "2 * i + 1" intf d] fold_attempt [of k "2 * i + 2" intf d]
          show ?thesis by (simp add: d2_def)
        qed
      qed
      then show ?thesis ..
    qed
  qed
qed simp

section \<open>The contract\<close>

text \<open>Without racing writers an update is atomic.\<close>

lemma update_alone:
  assumes "sql_inv d" "valid_update u" "SQLStorage_update_task dl (\<lambda>_. now) (\<lambda>_. id) tid u d = (r, d')"
  shows "atomic_update dl now u tid d r d'"
proof -
  have id: "fold (\<lambda>_. id) xs d = d" for xs :: "nat list" by (induction xs) simp_all
  have n: "0 < attempts u" "u_expected_version u \<noteq> None \<longrightarrow> attempts u = 1" by (simp_all add: attempts_def)
  have "\<not> lost_every_race (\<lambda>_. id) tid 0 (attempts u) d r d'"
    using n(1) unfolding lost_every_race_def id by auto
  then show ?thesis
    using update_loop_atomic [OF respectful_id assms(2,1) n assms(3) [unfolded SQLStorage_update_task_def, folded attempts_def]]
    unfolding id by blast
qed

text \<open>The outcomes that do not depend on the write being valid.\<close>

lemma update_alone_refused:
  "select_task tid d = None \<Longrightarrow>
     SQLStorage_update_task dl now (\<lambda>_. id) tid u d = (Inl (TaskNotFoundError (''Task '' @ tid @ '' not found'')), d)"
  "select_task tid d = Some r \<Longrightarrow> u_expected_version u = Some e \<Longrightarrow> e \<noteq> r_version r \<Longrightarrow>
     SQLStorage_update_task dl now (\<lambda>_. id) tid u d =
       (Inl (ConcurrencyError (version_mismatch_text tid e (r_version r)) (Some (r_version r))), d)"
  "select_task tid d = Some r \<Longrightarrow> u_expected_version u \<in> {None, Some (r_version r)} \<Longrightarrow> u_state u \<noteq> None \<Longrightarrow>
     r_status_state r \<in> TERMINAL_STATES \<Longrightarrow>
     SQLStorage_update_task dl now (\<lambda>_. id) tid u d =
       (Inl (TaskTerminalStateError (terminal_transition_text tid (r_status_state r) (the (u_state u)))), d)"
  by (auto simp: SQLStorage_update_task_def eval_nat_numeral)

text \<open>An update the guards admit comes to its statement in the first attempt.\<close>

lemma update_alone_admitted:
  assumes d: "sql_inv d" "select_task tid d = Some r" and u: "guards_pass u r" "valid_update u"
  obtains vals where "update_values now u r = Inr vals" "v_status_state vals = u_state u"
    "case update_stmt dl tid (r_version r) vals d of
       (Inl e, d') \<Rightarrow> SQLStorage_update_task dl (\<lambda>_. now) (\<lambda>_. id) tid u d = (Inl e, d')
     | (Inr n, d') \<Rightarrow> SQLStorage_update_task dl (\<lambda>_. now) (\<lambda>_. id) tid u d = (Inr (r_version r + 1), d')"
proof -
  obtain vals where vals: "update_values now u r = Inr vals" "v_status_state vals = u_state u"
    using update_values_ok [OF _ u(2)] sql_inv_row [OF d] by metis
  have g: "\<not> (u_expected_version u \<noteq> None \<and> r_version r \<noteq> the (u_expected_version u))"
    "\<not> (u_state u \<noteq> None \<and> r_status_state r \<in> TERMINAL_STATES)"
    using u(1) by (auto simp: guards_pass_def)
  obtain n where n: "(if u_expected_version u \<noteq> None then 1 else 8 :: nat) = Suc n" by fastforce
  have run: "update_loop dl (\<lambda>_. now) (\<lambda>_. id) tid u 0 (Suc n) d = (case update_stmt dl tid (r_version r) vals d of
      (Inl e, d2) \<Rightarrow> (Inl e, d2)
    | (Inr rowcount, d2) \<Rightarrow> if rowcount > 0 then (Inr (r_version r + 1), d2)
        else if u_expected_version u \<noteq> None \<or> n = 0
        then (Inl (ConcurrencyError (''Concurrent modification of task '' @ tid) None), d2)
        else update_loop dl (\<lambda>_. now) (\<lambda>_. id) tid u (Suc 0) n d2)"
    by (simp only: update_loop.simps(2) Let_def id_apply d(2) option.case if_not_P [OF g(1)] if_not_P [OF g(2)] vals(1) sum.case)
  have "case update_stmt dl tid (r_version r) vals d of
       (Inl e, d') \<Rightarrow> SQLStorage_update_task dl (\<lambda>_. now) (\<lambda>_. id) tid u d = (Inl e, d')
     | (Inr n, d') \<Rightarrow> SQLStorage_update_task dl (\<lambda>_. now) (\<lambda>_. id) tid u d = (Inr (r_version r + 1), d')"
  proof (cases "update_stmt dl tid (r_version r) vals d")
    case (Pair x d')
    with update_stmt_atomic [OF d u vals(1), of dl] show ?thesis
      unfolding SQLStorage_update_task_def n run Pair by (cases x) simp_all
  qed
  with that [OF vals] show thesis .
qed

lemma update_alone_written:
  assumes d: "sql_inv d" "select_task tid d = Some r" and u: "guards_pass u r" "valid_update u"
  shows "\<exists>d'. SQLStorage_update_task SQLite (\<lambda>_. now) (\<lambda>_. id) tid u d = (Inr (r_version r + 1), d')
    \<and> atomic_update SQLite now u tid d (Inr (r_version r + 1)) d'"
proof -
  obtain vals where vals: "update_values now u r = Inr vals"
    "case update_stmt SQLite tid (r_version r) vals d of
       (Inl e, d') \<Rightarrow> SQLStorage_update_task SQLite (\<lambda>_. now) (\<lambda>_. id) tid u d = (Inl e, d')
     | (Inr n, d') \<Rightarrow> SQLStorage_update_task SQLite (\<lambda>_. now) (\<lambda>_. id) tid u d = (Inr (r_version r + 1), d')"
    using update_alone_admitted [OF assms] .
  obtain n d' where "update_stmt SQLite tid (r_version r) vals d = (Inr n, d')"
    by (simp add: update_stmt_def fits_def Let_def)
  with vals(2) update_stmt_atomic [OF d u vals(1), of SQLite] show ?thesis by auto
qed

text \<open>PostgreSQL refuses the two states whose names are longer than the column.\<close>

lemma update_alone_too_long:
  assumes d: "sql_inv d" "select_task tid d = Some r" and u: "guards_pass u r" "valid_update u"
    and long: "u_state u \<in> {Some task_state_input_required, Some task_state_auth_required}"
  shows "\<exists>msg. SQLStorage_update_task PostgreSQL (\<lambda>_. now) (\<lambda>_. id) tid u d = (Inl (DataError msg), d)"
proof -
  obtain vals where vals: "v_status_state vals = u_state u"
    "case update_stmt PostgreSQL tid (r_version r) vals d of
       (Inl e, d') \<Rightarrow> SQLStorage_update_task PostgreSQL (\<lambda>_. now) (\<lambda>_. id) tid u d = (Inl e, d')
     | (Inr n, d') \<Rightarrow> SQLStorage_update_task PostgreSQL (\<lambda>_. now) (\<lambda>_. id) tid u d = (Inr (r_version r + 1), d')"
    using update_alone_admitted [OF assms(1-4)] .
  have "filter (\<lambda>r'. r_id r' = tid \<and> r_version r' = r_version r) (db_tasks d) \<noteq> []"
    using select_task_in [OF d(2)] by (auto simp: filter_empty_conv)
  then have "\<exists>msg. update_stmt PostgreSQL tid (r_version r) vals d = (Inl (DataError msg), d)"
    using long by (auto simp: update_stmt_def vals(1) Let_def long_states)
  with vals(2) show ?thesis by auto
qed

text \<open>Creation.\<close>

lemma initial_row_task:
  "row_task (initial_row now uid ctx (msg\<lparr>m_task_id := Some uid, m_context_id := Some ctx\<rparr>)
     ((if truthy key then [(''_idempotency_key'', JStr (the key))] else []) @ stamps now) k) = initial_task now uid ctx msg key"
  by (simp add: initial_row_def row_to_task_def initial_task_def stamps_def)

lemma insert_row:
  assumes "sql_inv d" "select_task (r_id r) d = None" "row_ok r"
  defines "d' \<equiv> d\<lparr>db_tasks := db_tasks d @ [r]\<rparr>"
  shows "sql_inv d'" "sql_view d' = (sql_view d)(r_id r \<mapsto> (row_task r, r_version r))" "select_task (r_id r) d' = Some r"
    "find (same_key c k) (db_tasks d') = (case find (same_key c k) (db_tasks d) of None \<Rightarrow> if same_key c k r then Some r else None | x \<Rightarrow> x)"
proof -
  have fresh: "r_id r \<notin> r_id ` set (db_tasks d)" using assms(2) by (auto simp: select_task_def find_None_iff)
  then show "sql_inv d'" using assms(1,3) by (simp add: sql_inv_def d'_def)
  have sel: "select_task tid d' = (if tid = r_id r then Some r else select_task tid d)" for tid
  proof -
    have "find P (xs @ [r]) = (case find P xs of None \<Rightarrow> if P r then Some r else None | x \<Rightarrow> x)" for P xs by (induction xs) simp_all
    with assms(2) show ?thesis by (auto simp: select_task_def d'_def split: option.split)
  qed
  then show "select_task (r_id r) d' = Some r" by simp
  show "sql_view d' = (sql_view d)(r_id r \<mapsto> (row_task r, r_version r))" by (simp add: sql_view_def fun_eq_iff sel)
  have "find P (xs @ [r]) = (case find P xs of None \<Rightarrow> if P r then Some r else None | x \<Rightarrow> x)" for P xs by (induction xs) simp_all
  then show "find (same_key c k) (db_tasks d') = (case find (same_key c k) (db_tasks d) of None \<Rightarrow> if same_key c k r then Some r else None | x \<Rightarrow> x)"
    by (simp add: d'_def)
qed

lemma create_alone:
  assumes d: "sql_inv d" and key: "\<not> truthy key \<or> sql_idem d ctx (the key) = None" and uid: "sql_view d uid = None"
  shows "\<exists>d'. SQLStorage_create_task SQLite id now uid ctx msg key d = (Inr (mark_created (initial_task now uid ctx msg key)), d')
    \<and> sql_inv d' \<and> sql_view d' = (sql_view d)(uid \<mapsto> (initial_task now uid ctx msg key, 1))
    \<and> sql_idem d' = remember ctx key uid (sql_idem d)"
proof -
  let ?k = "if truthy key then Some (the key) else None"
  define r where "r = initial_row now uid ctx (msg\<lparr>m_task_id := Some uid, m_context_id := Some ctx\<rparr>)
    ((if truthy key then [(''_idempotency_key'', JStr (the key))] else []) @ stamps now) ?k"
  define d' where "d' = d\<lparr>db_tasks := db_tasks d @ [r]\<rparr>"
  have task: "row_task r = initial_task now uid ctx msg key" unfolding r_def by (rule initial_row_task)
  have r: "r_id r = uid" "r_version r = 1" "r_context_id r = ctx" "r_idempotency_key r = ?k" by (simp_all add: r_def initial_row_def)
  have free: "select_task (r_id r) d = None" using uid r by (simp add: sql_view_def)
  have "opt_list (r_metadata r) \<noteq> []" by (simp add: r_def initial_row_def stamps_def)
  then have "row_ok r" using initial_task_meta_ok [of now uid ctx msg key] by (simp add: row_ok_def task)
  note ins = insert_row [OF d free this, folded d'_def]
  have nokey: "truthy key \<Longrightarrow> find (same_key ctx (the key)) (db_tasks d) = None" using key by (auto simp: sql_idem_def)
  then have found: "truthy key \<Longrightarrow> find (same_key ctx (the key)) (db_tasks d') = Some r" using r by (simp add: ins(4) same_key_def)
  have "SQLStorage_create_task SQLite id now uid ctx msg key d = (Inr (mark_created (row_task r)), d')"
  proof (cases "truthy key")
    case True
    then have row: "initial_row now uid ctx (msg\<lparr>m_task_id := Some uid, m_context_id := Some ctx\<rparr>)
        ((''_idempotency_key'', JStr (the key)) # stamps now) (Some (the key)) = r"
      by (simp add: r_def)
    from True nokey found free ins(3) r show ?thesis
      by (simp add: SQLStorage_create_task_def insert_idempotent_def insert_or_ignore_def SQLStorage_load_task_def fits_def py_defs
        mark_created_def Let_def row d'_def [symmetric])
  next
    case False
    then have row: "initial_row now uid ctx (msg\<lparr>m_task_id := Some uid, m_context_id := Some ctx\<rparr>) (stamps now) None = r"
      by (simp add: r_def)
    from False free ins(3) r show ?thesis
      by (simp add: SQLStorage_create_task_def insert_task_def SQLStorage_load_task_def fits_def py_defs mark_created_def Let_def
        row d'_def [symmetric])
  qed
  moreover have "sql_idem d' c k = remember ctx key uid (sql_idem d) c k" for c k
    using nokey r by (auto simp: sql_idem_def ins(4) remember_def same_key_def split: option.split)
  ultimately show ?thesis using ins(1,2) r by (auto simp: task fun_eq_iff)
qed

lemma create_existing:
  assumes d: "sql_inv d" and key: "truthy key" "sql_idem d ctx (the key) = Some tid"
    and uid: "uid \<noteq> tid"
  shows "SQLStorage_create_task SQLite id now uid ctx msg key d = (Inr (fst (the (sql_view d tid))), d)"
proof -
  obtain r where r: "find (same_key ctx (the key)) (db_tasks d) = Some r" "r_id r = tid" using key(2) by (auto simp: sql_idem_def)
  then have "select_task tid d = Some r" using d by (auto simp: sql_inv_def select_task_eq find_Some_iff)
  with r key(1) uid show ?thesis
    by (simp add: SQLStorage_create_task_def insert_idempotent_def insert_or_ignore_def fits_def py_defs Let_def sql_view_def
      initial_row_def)
qed

lemma row_to_task_load_view: "valid_length hl \<Longrightarrow> row_to_task r hl ia = load_view hl ia (row_task r)"
proof (cases hl)
  case (Some n)
  assume "valid_length hl"
  with Some have "0 \<le> n" by (simp add: valid_length_def)
  then show ?thesis
    using Some slice_from_neg [of "nat n" "r_history r"]
    by (cases "n = 0") (simp_all add: row_to_task_def load_view_def trim_history_def Let_def)
qed (simp add: row_to_task_def load_view_def)

lemma sql_view_eq: "sql_view d tid = Some (t, v) \<longleftrightarrow> (\<exists>r. select_task tid d = Some r \<and> t = row_task r \<and> v = r_version r)"
  by (auto simp: sql_view_def)

text \<open>Without racing writers SQLite meets the contract.\<close>

interpretation sqlite: storage_core "SQLStorage_ops SQLite" sql_inv sql_view sql_idem
proof (unfold_locales, goal_cases)
  case (1 s hl tid ia)
  then show ?case
    by (simp add: SQLStorage_load_task_def sql_view_def option.map_comp comp_def row_to_task_load_view [OF 1(2), symmetric])
next
  case (2 s tid)
  then show ?case by (simp add: SQLStorage_get_version_def sql_view_def option.map_comp comp_def)
next
  case (3 s tid t v)
  then show ?case using sql_inv_row by (auto simp: sql_view_eq row_ok_def)
next
  case (11 s ctx k tid)
  then obtain r where "find (same_key ctx k) (db_tasks s) = Some r" "r_id r = tid" by (auto simp: sql_idem_def)
  with find_SomeD [OF this(1)] 11(1) show ?case by (auto simp: sql_view_eq sql_inv_def select_task_eq same_key_def)
next
  case (4 s tid now u)
  then show ?case by (simp add: sql_view_def update_alone_refused(1))
next
  case (5 s tid t v u e now)
  then show ?case by (auto simp: sql_view_eq update_alone_refused(2))
next
  case (6 s tid t v u now)
  then show ?case by (auto simp: sql_view_eq update_alone_refused(3))
next
  case (7 s tid t v u now t')
  then obtain r where r: "select_task tid s = Some r" "t = row_task r" "v = r_version r" by (auto simp: sql_view_eq)
  with 7(3,4) have "guards_pass u r" by (simp add: guards_pass_def)
  from update_alone_written [OF 7(1) r(1) this 7(5), of now] r(3) obtain s' where
    run: "SQLStorage_update_task SQLite (\<lambda>_. now) (\<lambda>_. id) tid u s = (Inr (v + 1), s')"
    "atomic_update SQLite now u tid s (Inr (v + 1)) s'" by blast
  from run(2) 7(2,6) have "sql_inv s' \<and> sql_view s' = (sql_view s)(tid \<mapsto> (t', v + 1)) \<and> sql_idem s' = sql_idem s"
    by (simp add: atomic_update_def)
  with run(1) show ?case by simp
next
  case (12 s key ctx tid uid now msg)
  then have "uid \<noteq> tid" by (auto simp: sql_idem_def sql_view_def select_task_def find_None_iff dest!: find_SomeD)
  with 12 create_existing show ?case by simp
next
  case (13 s key ctx uid now msg)
  then show ?case using create_alone by simp
next
  case (8 s tid t v)
  then show ?case using sql_inv_row by (auto simp: sql_view_eq)
next
  case (9 s ctx)
  then show ?case by (simp add: SQLStorage_load_context_def)
next
  case (10 s ctx j)
  then show ?case
    by (auto simp: fits_def SQLStorage_update_context_def SQLStorage_load_context_def update_context_stmt_def sql_inv_def sql_view_def
      sql_idem_def select_task_def Let_def fun_eq_iff)
qed

end
