(* ===== verification/Storage_Agreement.thy ===== *)
theory Storage_Agreement
  imports Sql_Refinement
begin

text \<open>
  Replacing one storage backend by another. A client of the storage interface is a sequence of calls; any two backends that meet
  \<open>storage_core\<close> answer every such sequence alike, except for the text of their exceptions. The instance is the in-memory
  backend against SQLite.
\<close>

section \<open>Calls and answers\<close>

datatype storage_call =
    Call_create string string string message "string option"
  | Call_update string string update
  | Call_load string "int option" bool
  | Call_version string

datatype storage_answer =
    Created task
  | Written int
  | Loaded "task option"
  | Version "int option"
  | Not_found
  | Conflict "int option"
  | Terminal
  | Other_error

fun error_answer :: "exn \<Rightarrow> storage_answer" where
  "error_answer (TaskNotFoundError _) = Not_found"
| "error_answer (ConcurrencyError _ v) = Conflict v"
| "error_answer (TaskTerminalStateError _) = Terminal"
| "error_answer _ = Other_error"

definition answer :: "('a \<Rightarrow> storage_answer) \<Rightarrow> (exn + 'a) \<times> 's \<Rightarrow> storage_answer \<times> 's" where
  "answer f = map_prod (case_sum error_answer f) id"

lemma answer_simps [simp]: "answer f (Inl e, s) = (error_answer e, s)" "answer f (Inr x, s) = (f x, s)"
  by (simp_all add: answer_def)

fun call :: "'s storage_ops \<Rightarrow> storage_call \<Rightarrow> 's \<Rightarrow> storage_answer \<times> 's" where
  "call so (Call_create now uid ctx msg key) s = answer Created (so_create_task so now uid ctx msg key s)"
| "call so (Call_update now tid u) s = answer Written (so_update_task so now tid u s)"
| "call so (Call_load tid hl ia) s = answer Loaded (so_load_task so tid hl ia s)"
| "call so (Call_version tid) s = answer Version (so_get_version so tid s)"

fun calls :: "'s storage_ops \<Rightarrow> storage_call list \<Rightarrow> 's \<Rightarrow> storage_answer list" where
  "calls so [] s = []"
| "calls so (c # cs) s = (let (a, s') = call so c s in a # calls so cs s')"

text \<open>The calls for which the contract fixes the answer: reserved metadata keys are left alone, lengths are not negative,
  identifiers are drawn once.\<close>

fun call_ok :: "storage_call \<Rightarrow> bool" where
  "call_ok (Call_update now tid u) = valid_update u"
| "call_ok (Call_load tid hl ia) = valid_length hl"
| "call_ok _ = True"

fun drawn :: "storage_call \<Rightarrow> string list" where
  "drawn (Call_create now uid ctx msg key) = [uid]"
| "drawn _ = []"

definition proper_calls :: "storage_call list \<Rightarrow> bool" where
  "proper_calls cs \<longleftrightarrow> list_all call_ok cs \<and> distinct (concat (map drawn cs))"

section \<open>Any two backends\<close>

locale two_storages =
  a: storage_core soa inva viewa idema + b: storage_core sob invb viewb idemb
  for soa :: "'a storage_ops" and inva viewa idema and sob :: "'b storage_ops" and invb viewb idemb
begin

definition related :: "'a \<Rightarrow> 'b \<Rightarrow> bool" where
  "related s t \<longleftrightarrow> inva s \<and> invb t \<and> viewa s = viewb t \<and> idema s = idemb t"

definition matched :: "storage_call \<Rightarrow> 'a \<Rightarrow> 'b \<Rightarrow> bool" where
  "matched c s t \<longleftrightarrow> fst (call soa c s) = fst (call sob c t) \<and> related (snd (call soa c s)) (snd (call sob c t))
     \<and> dom (viewa (snd (call soa c s))) \<subseteq> dom (viewa s) \<union> set (drawn c)"

lemma create_matched:
  assumes "related s t" and "viewa s uid = None"
  shows "matched (Call_create now uid ctx msg key) s t"
proof (cases "truthy key \<and> idema s ctx (the key) \<noteq> None")
  case True
  then obtain tid where tid: "idema s ctx (the key) = Some tid" by blast
  from assms True tid a.create_hit_fresh [of s key ctx tid uid now msg] b.create_hit_fresh [of t key ctx tid uid now msg]
  show ?thesis by (auto simp: related_def matched_def)
next
  case False
  then have new: "\<not> truthy key \<or> idema s ctx (the key) = None" by blast
  from assms have t: "invb t" "inva s" "\<not> truthy key \<or> idemb t ctx (the key) = None" "viewb t uid = None"
    using new by (auto simp: related_def)
  from a.create_new [OF t(2) new assms(2), of now msg] b.create_new [OF t(1,3,4), of now msg] assms(1)
  show ?thesis by (auto simp: related_def matched_def)
qed

lemma update_matched:
  assumes "related s t" and "valid_update u"
  shows "matched (Call_update now tid u) s t"
proof -
  have st: "inva s" "invb t" "viewb t = viewa s" "idemb t = idema s" using assms(1) by (auto simp: related_def)
  from st(1) assms(2) show ?thesis
  proof (cases rule: a.update_cases [of s u tid now])
    case (missing msg)
    with b.update_missing [of t tid now u] st show ?thesis by (auto simp: related_def matched_def)
  next
    case (stale x v msg)
    then obtain e where "u_expected_version u = Some e" "e \<noteq> v" by auto
    with stale b.update_stale [of t tid x v u e now] assms(2) st show ?thesis by (auto simp: related_def matched_def)
  next
    case (terminal x v msg)
    with b.update_terminal [of t tid x v u now] assms(2) st show ?thesis by (auto simp: related_def matched_def)
  next
    case (written x v x' s')
    with b.update_ok [of t tid x v u now x'] assms(2) st show ?thesis by (auto simp: related_def matched_def)
  qed
qed

lemma call_matched:
  assumes "related s t" and "call_ok c" and "\<forall>uid \<in> set (drawn c). viewa s uid = None"
  shows "matched c s t"
proof (cases c)
  case (Call_create now uid ctx msg key)
  with create_matched assms show ?thesis by simp
next
  case (Call_update now tid u)
  with update_matched assms show ?thesis by simp
next
  case (Call_load tid hl ia)
  with assms show ?thesis using a.load [of s hl tid ia] b.load [of t hl tid ia] by (simp add: matched_def related_def)
next
  case (Call_version tid)
  with assms show ?thesis using a.version [of s tid] b.version [of t tid] by (simp add: matched_def related_def)
qed

lemma calls_agree:
  "related s t \<Longrightarrow> proper_calls cs \<Longrightarrow> \<forall>uid \<in> set (concat (map drawn cs)). viewa s uid = None \<Longrightarrow>
    calls soa cs s = calls sob cs t"
proof (induction cs arbitrary: s t)
  case (Cons c cs)
  have c: "matched c s t" by (rule call_matched) (use Cons.prems in \<open>auto simp: proper_calls_def\<close>)
  have "viewa (snd (call soa c s)) uid = None" if "uid \<in> set (concat (map drawn cs))" for uid
  proof -
    have "uid \<notin> set (drawn c)" using that Cons.prems(2) by (auto simp: proper_calls_def)
    moreover have "uid \<notin> dom (viewa s)" using that Cons.prems(3) by (simp add: domIff)
    ultimately show ?thesis using c unfolding matched_def by blast
  qed
  with Cons.IH [of "snd (call soa c s)" "snd (call sob c t)"] c Cons.prems(2)
  show ?case by (simp add: matched_def proper_calls_def split_def Let_def)
qed simp

end

section \<open>SQLite in place of memory\<close>

interpretation mem_sqlite: two_storages InMemoryStorage_ops mem_inv mem_view mem_idem "SQLStorage_ops SQLite" sql_inv sql_view sql_idem ..

lemma empty_related: "mem_sqlite.related InMemoryStorage_init empty_db" "mem_view InMemoryStorage_init tid = None"
  using mem_inv_init
  by (simp_all add: mem_sqlite.related_def sql_inv_def empty_db_def mem_view_def sql_view_def mem_idem_def sql_idem_def
    InMemoryStorage_init_def select_task_def fun_eq_iff)

end
