(* ===== verification/Sql_Properties.thy ===== *)
theory Sql_Properties
  imports Storage_Agreement Storage_Properties
begin

text \<open>
  What the SQL backends promise: they can stand in for the in-memory backend, an update is atomic under racing writers, and
  what the length of a column forbids.
\<close>

text \<open>The two read a negative history length differently: SQLite as zero, memory as the number of messages to leave out at the
  front.\<close>

lemma negative_length:
  assumes "0 < n"
  shows "t_history (InMemoryStorage_present (Some (- int n)) ia t) = map_option (drop n) (t_history t)"
    and "t_history (row_to_task r (Some (- int n)) ia) = Some []"
  using assms by (auto simp: InMemoryStorage_present_def InMemoryStorage_trim_history_def row_to_task_def slice_from_def slice_bound_def Let_def
    min_def split: option.split if_splits)

fun at_least_zero :: "storage_call \<Rightarrow> storage_call" where
  "at_least_zero (Call_load tid hl ia) = Call_load tid (map_option (max 0) hl) ia"
| "at_least_zero c = c"

text \<open>What is asked of a caller: no reserved metadata key is written, and identifiers of new tasks are drawn once.\<close>

definition sound_calls :: "storage_call list \<Rightarrow> bool" where
  "sound_calls cs \<longleftrightarrow> (\<forall>now tid u. Call_update now tid u \<in> set cs \<longrightarrow> valid_update u) \<and> distinct (concat (map drawn cs))"

lemma at_least_zero_proper: "sound_calls cs \<Longrightarrow> proper_calls (map at_least_zero cs)"
proof -
  assume cs: "sound_calls cs"
  have "call_ok (at_least_zero c)" if "c \<in> set cs" for c
  proof (cases c)
    case (Call_update now tid u)
    with that cs show ?thesis unfolding sound_calls_def by simp
  qed (auto simp: valid_length_def split: option.split)
  moreover have drawn: "drawn (at_least_zero c) = drawn c" for c by (cases c) simp_all
  ultimately show "proper_calls (map at_least_zero cs)" using cs by (simp add: proper_calls_def sound_calls_def list_all_iff comp_def)
qed

lemma calls_at_least_zero: "calls (SQLStorage_ops SQLite) (map at_least_zero cs) d = calls (SQLStorage_ops SQLite) cs d"
proof (induction cs arbitrary: d)
  case (Cons c cs)
  have "row_to_task r (map_option (max 0) hl) ia = row_to_task r hl ia" for r hl ia
    by (cases hl) (simp_all add: row_to_task_def max_def)
  then have "call (SQLStorage_ops SQLite) (at_least_zero c) d = call (SQLStorage_ops SQLite) c d"
    by (cases c) (simp_all add: SQLStorage_load_task_def)
  with Cons show ?case by (simp only: list.map calls.simps)
qed simp


definition sample_calls :: "storage_call list" where
  "sample_calls = [Call_create ''2026'' ''t1'' ''c1'' sample_message (Some ''m1''), Call_update ''2027'' ''t1'' complete_it,
     Call_version ''t1'']"


section \<open>Racing writers\<close>


text \<open>The witness: a message is added to a task that is deleted after it was read.\<close>

definition sample_db :: db where
  "sample_db = \<lparr>db_tasks = [initial_row ''2026'' ''t1'' ''c1'' sample_message (stamps ''2026'') None], db_contexts = []\<rparr>"

definition deleting :: "nat \<Rightarrow> db \<Rightarrow> db" where
  "deleting i d = (if i = 1 then d\<lparr>db_tasks := filter (\<lambda>r. r_id r \<noteq> ''t1'') (db_tasks d)\<rparr> else d)"

definition add_message :: update where
  "add_message = no_update\<lparr>u_messages := Some [sample_message]\<rparr>"

lemma deleting_respectful: "respectful deleting"
proof -
  have sub: "select_task tid (deleting i d) = (if i = 1 \<and> tid = ''t1'' then None else select_task tid d)" for tid i d
  proof (cases "i = 1")
    case True
    have "find (\<lambda>r. r_id r = tid) (filter (\<lambda>r. r_id r \<noteq> ''t1'') rs) = (if tid = ''t1'' then None else find (\<lambda>r. r_id r = tid) rs)"
      for rs :: "row list" by (induction rs) auto
    with True show ?thesis by (simp add: deleting_def select_task_def)
  qed (simp add: deleting_def)
  have "sql_inv d \<Longrightarrow> sql_inv (deleting i d)" for i d
    by (auto simp: sql_inv_def deleting_def distinct_map_filter)
  then show ?thesis by (simp add: respectful_def sub)
qed

lemma sample_db_inv: "sql_inv sample_db"
  by (simp add: sql_inv_def sample_db_def row_ok_def initial_row_def stamps_def task_meta_ok_def transitions_ok_def
    row_to_task_def META_CREATED_AT_KEY_def META_LAST_MODIFIED_KEY_def)


section \<open>PostgreSQL\<close>

text \<open>Property C40: on PostgreSQL a task cannot wait for input or authentication. The state column is declared with twenty
  characters and the names of these two states are longer, so every such transition that the guards admit raises an error of the
  database and leaves the task as it was.\<close>

theorem postgres_cannot_wait:
  assumes "sql_inv d" and "sql_view d tid = Some (t, v)" and "u_expected_version u \<in> {None, Some v}"
    and "t_state t \<notin> TERMINAL_STATES" and "valid_update u"
    and "u_state u \<in> {Some task_state_input_required, Some task_state_auth_required}"
  shows "\<exists>msg. SQLStorage_update_task PostgreSQL (\<lambda>_. now) (\<lambda>_. id) tid u d = (Inl (DataError msg), d)"
proof -
  obtain r where r: "select_task tid d = Some r" "t = row_task r" "v = r_version r" using assms(2) by (auto simp: sql_view_eq)
  with assms(3,4) have "guards_pass u r" by (simp add: guards_pass_def)
  from update_alone_too_long [OF assms(1) r(1) this assms(5,6)] show ?thesis .
qed

theorem postgres_cannot_wait_witness:
  "\<exists>msg. SQLStorage_update_task PostgreSQL (\<lambda>_. ''2027'') (\<lambda>_. id) ''t1'' (no_update\<lparr>u_state := Some task_state_input_required\<rparr>) sample_db
    = (Inl (DataError msg), sample_db)"
proof (rule postgres_cannot_wait [OF sample_db_inv])
  show "sql_view sample_db ''t1'' = Some (row_task (hd (db_tasks sample_db)), 1)"
    by (simp add: sample_db_def sql_view_def select_task_def initial_row_def)
  show "t_state (row_task (hd (db_tasks sample_db))) \<notin> TERMINAL_STATES"
    by (simp add: sample_db_def initial_row_def TERMINAL_STATES_def)
qed (simp_all add: no_update_def)

end
