(* ===== verification/Storage_Redis.thy ===== *)
theory Storage_Redis
  imports Storage_Memory
begin

text \<open>
  \<^verbatim>\<open>storage/redis.py\<close>. The server's keys fall into four families with different prefixes, \<^verbatim>\<open>task:\<close>, \<^verbatim>\<open>ctx:\<close>, \<^verbatim>\<open>idem:\<close> and
  \<^verbatim>\<open>context:\<close>, so the store is four dictionaries, each keyed by what follows the prefix. A hash of the first family is a record of
  the fields the code writes; a field of JSON text holds the value the text stands for. A command, a Lua script and a
  \<^verbatim>\<open>MULTI\<close> block are atomic; \<open>intf i\<close> is what others do before the command number \<open>i\<close> of an update. The order in which the server
  enumerates a set of keys is not specified: \<open>enum\<close> chooses it.
\<close>

section \<open>Keys\<close>

record rhash =
  h_id :: string
  h_context_id :: string
  h_status_state :: task_state
  h_status_timestamp :: string
  h_status_message :: "message option"
  h_history :: "message list"
  h_artifacts :: "artifact list"
  h_metadata :: mdict
  h_version :: int
  h_created_at :: string

record redis_store =
  rs_tasks :: "(string, rhash) pydict"
  rs_ctx :: "(string, string list) pydict"
  rs_idem :: "(string, string) pydict"
  rs_context :: "(string, json) pydict"

definition empty_redis :: redis_store where
  "empty_redis = \<lparr>rs_tasks = [], rs_ctx = [], rs_idem = [], rs_context = []\<rparr>"

definition idem_key :: "string \<Rightarrow> string \<Rightarrow> string" where
  "idem_key ctx key = ctx @ '':'' @ key"

definition smembers :: "string \<Rightarrow> redis_store \<Rightarrow> string list" where
  "smembers ctx s = (case map_of (rs_ctx s) ctx of None \<Rightarrow> [] | Some ids \<Rightarrow> ids)"

definition sadd :: "string \<Rightarrow> string \<Rightarrow> redis_store \<Rightarrow> redis_store" where
  "sadd ctx tid s = s\<lparr>rs_ctx := AList.update ctx (List.insert tid (smembers ctx s)) (rs_ctx s)\<rparr>"

definition srem :: "string \<Rightarrow> string \<Rightarrow> redis_store \<Rightarrow> redis_store" where
  "srem ctx tid s = s\<lparr>rs_ctx := AList.update ctx (removeAll tid (smembers ctx s)) (rs_ctx s)\<rparr>"

section \<open>Reading\<close>

definition hash_to_task :: "rhash \<Rightarrow> int option \<Rightarrow> bool \<Rightarrow> task" where
  "hash_to_task h hl ia =
     (let history = (case hl of None \<Rightarrow> h_history h
            | Some n \<Rightarrow> if n > 0 then slice_from (- n) (h_history h) else [])
      in \<lparr>t_id = h_id h, t_context_id = h_context_id h,
          t_status = \<lparr>ts_state = h_status_state h, ts_timestamp = Some (h_status_timestamp h), ts_message = h_status_message h\<rparr>,
          t_history = Some history, t_artifacts = (if ia then h_artifacts h else []), t_metadata = Some (h_metadata h)\<rparr>)"

definition RedisStorage_load_task :: "string \<Rightarrow> int option \<Rightarrow> bool \<Rightarrow> (redis_store, exn, task option) py" where
  "RedisStorage_load_task tid hl ia s = (Inr (map_option (\<lambda>h. hash_to_task h hl ia) (map_of (rs_tasks s) tid)), s)"

definition RedisStorage_get_version :: "string \<Rightarrow> (redis_store, exn, int option) py" where
  "RedisStorage_get_version tid s = (Inr (map_option h_version (map_of (rs_tasks s) tid)), s)"

section \<open>Creating\<close>

definition initial_fields :: "string \<Rightarrow> string \<Rightarrow> string \<Rightarrow> message \<Rightarrow> string option \<Rightarrow> rhash" where
  "initial_fields now uid ctx msg key =
     \<lparr>h_id = uid, h_context_id = ctx, h_status_state = task_state_submitted, h_status_timestamp = now, h_status_message = None,
      h_history = [msg\<lparr>m_task_id := Some uid, m_context_id := Some ctx\<rparr>], h_artifacts = [],
      h_metadata = (if truthy key then [(''_idempotency_key'', JStr (the key))] else []) @
        [(''stateTransitions'', JList [build_transition_record (state_value task_state_submitted) now None]),
         (META_CREATED_AT_KEY, JStr now), (META_LAST_MODIFIED_KEY, JStr now)],
      h_version = 1, h_created_at = now\<rparr>"

text \<open>The script \<^verbatim>\<open>_CREATE_IDEMPOTENT_LUA\<close> returns the identifier of the task the key stands for; and the \<^verbatim>\<open>MULTI\<close> block of
  a creation without a key.\<close>

definition create_hash :: "string \<Rightarrow> string \<Rightarrow> rhash \<Rightarrow> redis_store \<Rightarrow> redis_store" where
  "create_hash uid ctx flds s = sadd ctx uid (s\<lparr>rs_tasks := AList.update uid flds (rs_tasks s)\<rparr>)"

definition create_script :: "string \<Rightarrow> string \<Rightarrow> string \<Rightarrow> rhash \<Rightarrow> redis_store \<Rightarrow> string \<times> redis_store" where
  "create_script idem uid ctx flds s = (case map_of (rs_idem s) idem of
      Some existing \<Rightarrow> (existing, s)
    | None \<Rightarrow> (uid, (create_hash uid ctx flds s)\<lparr>rs_idem := AList.update idem uid (rs_idem s)\<rparr>))"

text \<open>\<open>between\<close>: what others do before the task is loaded.\<close>

definition load_created :: "string \<Rightarrow> (redis_store, exn, task) py" where
  "load_created uid = bindE (RedisStorage_load_task uid None True) (\<lambda>loaded. case loaded of
      None \<Rightarrow> raise (TaskNotFoundError (''Task '' @ uid @ '' vanished immediately after create''))
    | Some t \<Rightarrow> ret (t\<lparr>t_metadata := Some (AList.update ''_a2akit_just_created'' (JBool True) (metadata_dict t))\<rparr>))"

definition RedisStorage_create_task ::
  "(redis_store \<Rightarrow> redis_store) \<Rightarrow> string \<Rightarrow> string \<Rightarrow> string \<Rightarrow> message \<Rightarrow> string option \<Rightarrow> (redis_store, exn, task) py" where
  "RedisStorage_create_task between now uid ctx msg key s =
     (let flds = initial_fields now uid ctx msg key in
      if truthy key then
        let (returned_id, s1) = create_script (idem_key ctx (the key)) uid ctx flds s in
        if returned_id \<noteq> uid then
          bindE (RedisStorage_load_task returned_id None True) (\<lambda>existing. case existing of
              None \<Rightarrow> raise (TaskNotFoundError (''Idempotent task '' @ returned_id @ '' vanished between create and load''))
            | Some t \<Rightarrow> ret t) (between s1)
        else load_created uid (between s1)
      else load_created uid (between (create_hash uid ctx flds s)))"

section \<open>Updating\<close>

definition RedisStorage_apply_artifact :: "artifact list \<Rightarrow> artifact \<Rightarrow> bool \<Rightarrow> artifact list" where
  "RedisStorage_apply_artifact existing a app =
     (case index_of (\<lambda>b. a_artifact_id b = a_artifact_id a) existing of
        Some i \<Rightarrow> if app then existing[i := (existing ! i)\<lparr>a_parts := a_parts (existing ! i) @ a_parts a\<rparr>] else existing[i := a]
      | None \<Rightarrow> existing @ [a])"

text \<open>The dictionary \<^verbatim>\<open>values\<close> of fields to set; \<open>None\<close> is a field that is not set.\<close>

record hash_values =
  hv_history :: "message list option"
  hv_artifacts :: "artifact list option"
  hv_metadata :: "mdict option"
  hv_status_state :: "task_state option"
  hv_status_timestamp :: "string option"
  hv_status_message :: "message option option"

definition merge_values :: "string \<Rightarrow> update \<Rightarrow> rhash \<Rightarrow> exn + hash_values" where
  "merge_values ts u h =
     (let vals0 = \<lparr>
            hv_history = (if opt_list (u_messages u) = [] then None else Some (h_history h @ opt_list (u_messages u))),
            hv_artifacts = (if opt_list (u_artifacts u) = [] then None
              else Some (fold (\<lambda>aw as. RedisStorage_apply_artifact as (aw_artifact aw) (aw_append aw)) (opt_list (u_artifacts u))
                (h_artifacts h))),
            hv_metadata = (if opt_list (u_task_metadata u) = [] then None else Some (dmerge (h_metadata h) (opt_list (u_task_metadata u)))),
            hv_status_state = None, hv_status_timestamp = None, hv_status_message = None\<rparr>;
          existing_meta = (case hv_metadata vals0 of Some md \<Rightarrow> md | None \<Rightarrow> h_metadata h)
      in case u_state u of
           Some s \<Rightarrow> (case append_transition (build_transition_record (state_value s) ts (u_status_message u)) existing_meta of
               Inl e \<Rightarrow> Inl e
             | Inr md \<Rightarrow> Inr (vals0\<lparr>hv_status_state := Some s, hv_status_timestamp := Some ts,
                 hv_status_message := Some (u_status_message u), hv_metadata := Some (AList.update META_LAST_MODIFIED_KEY (JStr ts) md)\<rparr>))
         | None \<Rightarrow> (case u_status_message u of
               None \<Rightarrow> Inr vals0
             | Some m \<Rightarrow> Inr (vals0\<lparr>hv_status_message := Some (Some m), hv_status_timestamp := Some ts,
                 hv_metadata := Some (AList.update META_LAST_MODIFIED_KEY (JStr ts) existing_meta)\<rparr>)))"

definition hset :: "hash_values \<Rightarrow> int \<Rightarrow> rhash \<Rightarrow> rhash" where
  "hset vals v h = h\<lparr>h_version := v,
     h_history := (case hv_history vals of None \<Rightarrow> h_history h | Some x \<Rightarrow> x),
     h_artifacts := (case hv_artifacts vals of None \<Rightarrow> h_artifacts h | Some x \<Rightarrow> x),
     h_metadata := (case hv_metadata vals of None \<Rightarrow> h_metadata h | Some x \<Rightarrow> x),
     h_status_state := (case hv_status_state vals of None \<Rightarrow> h_status_state h | Some x \<Rightarrow> x),
     h_status_timestamp := (case hv_status_timestamp vals of None \<Rightarrow> h_status_timestamp h | Some x \<Rightarrow> x),
     h_status_message := (case hv_status_message vals of None \<Rightarrow> h_status_message h | Some x \<Rightarrow> x)\<rparr>"

text \<open>The script \<^verbatim>\<open>_UPDATE_TASK_LUA\<close> with its error replies.\<close>

datatype script_error = TASK_NOT_FOUND | VERSION_MISMATCH int | TERMINAL_STATE task_state task_state

definition update_script :: "string \<Rightarrow> int \<Rightarrow> task_state option \<Rightarrow> hash_values \<Rightarrow> redis_store \<Rightarrow> (script_error + int) \<times> redis_store" where
  "update_script tid expected_version new_state vals s = (case map_of (rs_tasks s) tid of
      None \<Rightarrow> (Inl TASK_NOT_FOUND, s)
    | Some h \<Rightarrow>
        if h_version h \<noteq> expected_version then (Inl (VERSION_MISMATCH (h_version h)), s)
        else if new_state \<noteq> None \<and> h_status_state h \<in> TERMINAL_STATES then (Inl (TERMINAL_STATE (h_status_state h) (the new_state)), s)
        else (Inr (h_version h + 1), s\<lparr>rs_tasks := AList.update tid (hset vals (h_version h + 1) h) (rs_tasks s)\<rparr>))"

text \<open>The retry loop: attempt \<open>k\<close>, with \<open>n\<close> attempts left. Command \<open>2 k\<close> is its \<^verbatim>\<open>HGETALL\<close>, \<open>2 k + 1\<close> its script.\<close>

fun redis_update_loop ::
  "(nat \<Rightarrow> string) \<Rightarrow> (nat \<Rightarrow> redis_store \<Rightarrow> redis_store) \<Rightarrow> string \<Rightarrow> update \<Rightarrow> nat \<Rightarrow> nat \<Rightarrow> (redis_store, exn, int) py" where
  "redis_update_loop now intf tid u k 0 s = (Inl (RuntimeError ''update_task retry loop exited without result''), s)"
| "redis_update_loop now intf tid u k (Suc n) s =
     (let s1 = intf (2 * k) s in
      case map_of (rs_tasks s1) tid of
        None \<Rightarrow> (Inl (TaskNotFoundError (''Task '' @ tid @ '' not found'')), s1)
      | Some h \<Rightarrow>
          (let occ_version = (case u_expected_version u of Some e \<Rightarrow> e | None \<Rightarrow> h_version h) in
           case merge_values (now k) u h of
             Inl e \<Rightarrow> (Inl e, s1)
           | Inr vals \<Rightarrow>
               (case update_script tid occ_version (u_state u) vals (intf (2 * k + 1) s1) of
                  (Inr new_version, s2) \<Rightarrow> (Inr new_version, s2)
                | (Inl TASK_NOT_FOUND, s2) \<Rightarrow> (Inl (TaskNotFoundError (''Task '' @ tid @ '' not found'')), s2)
                | (Inl (VERSION_MISMATCH current), s2) \<Rightarrow>
                    if u_expected_version u \<noteq> None
                    then (Inl (ConcurrencyError (version_mismatch_text tid (the (u_expected_version u)) current) (Some current)), s2)
                    else if n = 0
                    then (Inl (ConcurrencyError (''Failed to update task '' @ tid @ '' after 8 attempts due to persistent contention'')
                      (Some current)), s2)
                    else redis_update_loop now intf tid u (Suc k) n s2
                | (Inl (TERMINAL_STATE cur new), s2) \<Rightarrow> (Inl (TaskTerminalStateError (terminal_transition_text tid cur new)), s2))))"

definition RedisStorage_update_task ::
  "(nat \<Rightarrow> string) \<Rightarrow> (nat \<Rightarrow> redis_store \<Rightarrow> redis_store) \<Rightarrow> string \<Rightarrow> update \<Rightarrow> (redis_store, exn, int) py" where
  "RedisStorage_update_task now intf tid u =
     redis_update_loop now intf tid u 0 (if u_expected_version u \<noteq> None then 1 else 8)"

section \<open>Listing, deleting, contexts\<close>

definition candidates :: "(string list \<Rightarrow> string list) \<Rightarrow> list_query \<Rightarrow> redis_store \<Rightarrow> string list" where
  "candidates enum q s = enum (if truthy (q_context_id q) then smembers (the (q_context_id q)) s else map fst (rs_tasks s))"

definition hash_matches :: "list_query \<Rightarrow> rhash \<Rightarrow> bool" where
  "hash_matches q h \<longleftrightarrow>
     (q_status q \<noteq> None \<longrightarrow> h_status_state h = the (q_status q)) \<and>
     (truthy (q_status_timestamp_after q) \<longrightarrow> \<not> h_status_timestamp h \<le> the (q_status_timestamp_after q)) \<and>
     (truthy (q_tenant q) \<longrightarrow> map_of (h_metadata h) META_TENANT_KEY = Some (JStr (the (q_tenant q))))"

definition RedisStorage_list_tasks :: "(string list \<Rightarrow> string list) \<Rightarrow> list_query \<Rightarrow> (redis_store, exn, list_result) py" where
  "RedisStorage_list_tasks enum q s =
     (let hashes = List.map_filter (\<lambda>tid. map_of (rs_tasks s) tid) (candidates enum q s);
          filtered = map (\<lambda>h. hash_to_task h (q_history_length q) (q_include_artifacts q)) (filter (hash_matches q) hashes);
          ordered = sorted_reverse (\<lambda>t. or_else (ts_timestamp (t_status t)) '''') filtered;
          total_size = int (length ordered);
          offset = page_offset (q_page_token q);
          next_offset = offset + q_page_size q
      in (Inr \<lparr>lr_tasks = slice offset (offset + q_page_size q) ordered,
            lr_next_page_token = (if next_offset < total_size then int_str next_offset else ''''),
            lr_page_size = q_page_size q, lr_total_size = total_size\<rparr>, s))"

text \<open>\<open>between\<close>: what others do between the \<^verbatim>\<open>HMGET\<close> and the \<^verbatim>\<open>MULTI\<close> block of a deletion.\<close>

definition stored_key :: "rhash \<Rightarrow> string option" where
  "stored_key h = (case map_of (h_metadata h) ''_idempotency_key'' of
      Some (JStr k) \<Rightarrow> if k = '''' then None else Some (idem_key (h_context_id h) k)
    | _ \<Rightarrow> None)"

definition delete_block :: "string \<Rightarrow> rhash \<Rightarrow> redis_store \<Rightarrow> bool \<times> redis_store" where
  "delete_block tid h s =
     (let s1 = srem (h_context_id h) tid s; s2 = s1\<lparr>rs_tasks := AList.delete tid (rs_tasks s1)\<rparr>
      in (map_of (rs_tasks s) tid \<noteq> None,
          case stored_key h of None \<Rightarrow> s2 | Some k \<Rightarrow> s2\<lparr>rs_idem := AList.delete k (rs_idem s2)\<rparr>))"

definition RedisStorage_delete_task ::
  "(redis_store \<Rightarrow> redis_store) \<Rightarrow> string \<Rightarrow> redis_store \<times> push_store option \<Rightarrow> bool \<times> redis_store \<times> push_store option" where
  "RedisStorage_delete_task between tid = (\<lambda>(s, ps). case map_of (rs_tasks s) tid of
      None \<Rightarrow> (False, s, ps)
    | Some h \<Rightarrow> (let (existed, s1) = delete_block tid h (between s)
        in (existed, s1, if existed then cascade_push_delete_for_task tid ps else ps)))"

fun delete_all :: "string list \<Rightarrow> redis_store \<times> push_store option \<Rightarrow> nat \<times> redis_store \<times> push_store option" where
  "delete_all [] sp = (0, sp)"
| "delete_all (tid # tids) sp =
     (let (b, sp1) = RedisStorage_delete_task id tid sp; (n, sp2) = delete_all tids sp1 in ((if b then 1 else 0) + n, sp2))"

definition RedisStorage_delete_context ::
  "(string list \<Rightarrow> string list) \<Rightarrow> string \<Rightarrow> redis_store \<times> push_store option \<Rightarrow> nat \<times> redis_store \<times> push_store option" where
  "RedisStorage_delete_context enum ctx sp =
     (let (deleted, s, ps) = delete_all (enum (smembers ctx (fst sp))) sp
      in (deleted, s\<lparr>rs_ctx := AList.delete ctx (rs_ctx s), rs_context := AList.delete ctx (rs_context s)\<rparr>, ps))"

definition RedisStorage_load_context :: "string \<Rightarrow> (redis_store, exn, json option) py" where
  "RedisStorage_load_context ctx s = (Inr (map_of (rs_context s) ctx), s)"

definition RedisStorage_update_context :: "string \<Rightarrow> json \<Rightarrow> (redis_store, exn, unit) py" where
  "RedisStorage_update_context ctx v s = (Inr (), s\<lparr>rs_context := AList.update ctx v (rs_context s)\<rparr>)"

definition RedisStorage_ops :: "(string list \<Rightarrow> string list) \<Rightarrow> redis_store storage_ops" where
  "RedisStorage_ops enum = \<lparr>
     so_load_task = RedisStorage_load_task,
     so_create_task = RedisStorage_create_task id,
     so_update_task = (\<lambda>now. RedisStorage_update_task (\<lambda>_. now) (\<lambda>_. id)),
     so_get_version = RedisStorage_get_version,
     so_list_tasks = RedisStorage_list_tasks enum,
     so_load_context = RedisStorage_load_context,
     so_update_context = RedisStorage_update_context\<rparr>"

lemma RedisStorage_ops_simps [simp]:
  "so_load_task (RedisStorage_ops enum) = RedisStorage_load_task"
  "so_create_task (RedisStorage_ops enum) = RedisStorage_create_task id"
  "so_update_task (RedisStorage_ops enum) now = RedisStorage_update_task (\<lambda>_. now) (\<lambda>_. id)"
  "so_get_version (RedisStorage_ops enum) = RedisStorage_get_version"
  "so_list_tasks (RedisStorage_ops enum) = RedisStorage_list_tasks enum"
  "so_load_context (RedisStorage_ops enum) = RedisStorage_load_context"
  "so_update_context (RedisStorage_ops enum) = RedisStorage_update_context"
  by (simp_all add: RedisStorage_ops_def)

end
