(* ===== verification/Redis_Refinement.thy ===== *)
theory Redis_Refinement
  imports Sql_Refinement Storage_Redis
begin

text \<open>
  The Redis backend against the storage contract. Reads and updates meet it, and an update that races with other clients is atomic.
  Creation does not: the key of an idempotency entry does not determine the context. What SQL and Redis share, the columns or
  fields of a write, is carried over from the SQL backend along \<open>hash_row\<close>.
\<close>

section \<open>Abstraction\<close>

abbreviation hash_task :: "rhash \<Rightarrow> task" where
  "hash_task h \<equiv> hash_to_task h None True"

definition redis_view :: "redis_store \<Rightarrow> string \<Rightarrow> (task \<times> int) option" where
  "redis_view s tid = map_option (\<lambda>h. (hash_task h, h_version h)) (map_of (rs_tasks s) tid)"

definition redis_idem :: "redis_store \<Rightarrow> string \<Rightarrow> string \<Rightarrow> string option" where
  "redis_idem s ctx key = map_of (rs_idem s) (idem_key ctx key)"

definition hash_row :: "rhash \<Rightarrow> row" where
  "hash_row h = \<lparr>r_id = h_id h, r_context_id = h_context_id h, r_status_state = h_status_state h,
     r_status_timestamp = h_status_timestamp h, r_status_message = h_status_message h, r_history = h_history h,
     r_artifacts = h_artifacts h, r_metadata = Some (h_metadata h), r_version = h_version h, r_idempotency_key = None,
     r_created_at = h_created_at h\<rparr>"

definition redis_inv :: "redis_store \<Rightarrow> bool" where
  "redis_inv s \<longleftrightarrow> (\<forall>tid h. map_of (rs_tasks s) tid = Some h \<longrightarrow> h_id h = tid \<and> row_ok (hash_row h))"

lemma hash_row_task: "row_to_task (hash_row h) hl ia = hash_to_task h hl ia"
  by (simp add: hash_row_def row_to_task_def hash_to_task_def split: option.split)

lemma hash_row_simps [simp]: "r_id (hash_row h) = h_id h" "r_version (hash_row h) = h_version h"
  "r_status_state (hash_row h) = h_status_state h" "r_context_id (hash_row h) = h_context_id h"
  by (simp_all add: hash_row_def)

lemma hash_task_simps [simp]: "t_state (hash_task h) = h_status_state h" "t_id (hash_to_task h hl ia) = h_id h"
  "t_context_id (hash_to_task h hl ia) = h_context_id h"
  by (simp_all add: hash_to_task_def Let_def)

section \<open>What an update writes\<close>

definition as_row_values :: "int \<Rightarrow> hash_values \<Rightarrow> row_values" where
  "as_row_values v vals = \<lparr>v_version = v, v_history = hv_history vals, v_artifacts = hv_artifacts vals, v_metadata = hv_metadata vals,
     v_status_state = hv_status_state vals, v_status_timestamp = hv_status_timestamp vals, v_status_message = hv_status_message vals\<rparr>"

lemma apply_artifact_same: "RedisStorage_apply_artifact = SQLStorage_apply_artifact"
  by (simp add: fun_eq_iff RedisStorage_apply_artifact_def SQLStorage_apply_artifact_def)

lemma merge_values_row: "update_values now u (hash_row h) = map_sum id (as_row_values (h_version h + 1)) (merge_values now u h)"
  by (simp add: update_values_def merge_values_def hash_row_def values_metadata_def as_row_values_def apply_artifact_same Let_def
    split: option.split sum.split)

lemma hset_row: "hash_row (hset vals v h) = set_values (as_row_values v vals) (hash_row h)"
  by (simp add: hash_row_def hset_def set_values_def as_row_values_def split: option.split)

lemma merge_values_ok:
  assumes "row_ok (hash_row h)" and "valid_update u"
  obtains vals where "merge_values now u h = Inr vals"
    "apply_update now u (hash_task h) = Inr (hash_task (hset vals (h_version h + 1) h))"
    "row_ok (hash_row (hset vals (h_version h + 1) h))"
proof -
  obtain vals where vals: "update_values now u (hash_row h) = Inr vals"
    "apply_update now u (row_task (hash_row h)) = Inr (row_task (set_values vals (hash_row h)))"
    "row_ok (set_values vals (hash_row h))"
    using update_values_ok [OF assms] .
  from vals(1) obtain hv where "merge_values now u h = Inr hv" "vals = as_row_values (h_version h + 1) hv"
    by (cases "merge_values now u h") (simp_all add: merge_values_row)
  with that vals(2,3) show thesis by (simp add: hset_row [symmetric] hash_row_task)
qed

lemma hset_simps [simp]: "h_id (hset vals v h) = h_id h" "h_version (hset vals v h) = v"
  by (simp_all add: hset_def)

section \<open>One indivisible update\<close>

fun redis_refusal :: "update \<Rightarrow> exn \<Rightarrow> (task \<times> int) option \<Rightarrow> bool" where
  "redis_refusal u (TaskNotFoundError _) x = (x = None)"
| "redis_refusal u (ConcurrencyError _ (Some v)) x = (\<exists>t. x = Some (t, v) \<and> u_expected_version u \<noteq> Some v)"
| "redis_refusal u (TaskTerminalStateError _) x = (\<exists>t v. x = Some (t, v) \<and> u_state u \<noteq> None \<and> t_state t \<in> TERMINAL_STATES)"
| "redis_refusal u _ x = False"

definition atomic_redis :: "string \<Rightarrow> update \<Rightarrow> string \<Rightarrow> redis_store \<Rightarrow> exn + int \<Rightarrow> redis_store \<Rightarrow> bool" where
  "atomic_redis now u tid s0 r s' = (case r of
      Inl e \<Rightarrow> s' = s0 \<and> redis_refusal u e (redis_view s0 tid)
    | Inr v \<Rightarrow> \<exists>t t'. redis_view s0 tid = Some (t, v - 1) \<and> u_expected_version u \<in> {None, Some (v - 1)}
        \<and> (u_state u = None \<or> t_state t \<notin> TERMINAL_STATES) \<and> apply_update now u t = Inr t'
        \<and> redis_inv s' \<and> redis_view s' = (redis_view s0)(tid \<mapsto> (t', v))
        \<and> rs_ctx s' = rs_ctx s0 \<and> rs_idem s' = rs_idem s0 \<and> rs_context s' = rs_context s0)"

text \<open>The script, run with the fields merged into the very hash it finds.\<close>

lemma update_script_written:
  assumes s: "redis_inv s" "map_of (rs_tasks s) tid = Some h" and u: "valid_update u" "merge_values now u h = Inr vals"
    and guards: "u_expected_version u \<in> {None, Some (h_version h)}" "u_state u = None \<or> h_status_state h \<notin> TERMINAL_STATES"
  shows "\<exists>s'. update_script tid (h_version h) (u_state u) vals s = (Inr (h_version h + 1), s')
    \<and> atomic_redis now u tid s (Inr (h_version h + 1)) s'"
proof -
  define h' where "h' = hset vals (h_version h + 1) h"
  have h: "h_id h = tid" "row_ok (hash_row h)" using s by (simp_all add: redis_inv_def)
  obtain vals' where "merge_values now u h = Inr vals'" and v: "apply_update now u (hash_task h) = Inr (hash_task (hset vals' (h_version h + 1) h))"
    "row_ok (hash_row (hset vals' (h_version h + 1) h))" using merge_values_ok [OF h(2) u(1)] .
  with u(2) have "vals' = vals" by simp
  with v have v: "apply_update now u (hash_task h) = Inr (hash_task h')" "row_ok (hash_row h')" by (simp_all add: h'_def)
  let ?s' = "s\<lparr>rs_tasks := AList.update tid h' (rs_tasks s)\<rparr>"
  have "update_script tid (h_version h) (u_state u) vals s = (Inr (h_version h + 1), ?s')"
    using s(2) guards(2) by (auto simp: update_script_def h'_def)
  moreover have "redis_inv ?s'" using s(1) h(1) v(2) by (auto simp: redis_inv_def update_conv' h'_def)
  moreover have "redis_view ?s' = (redis_view s)(tid \<mapsto> (hash_task h', h_version h + 1))"
    by (simp add: redis_view_def fun_eq_iff update_conv' h'_def)
  ultimately show ?thesis
    using s(2) guards v(1) by (simp add: atomic_redis_def redis_view_def)
qed

section \<open>Racing clients\<close>

text \<open>What is known of the others: they keep the invariant, and a hash that stays changes only together with a higher version.\<close>

definition monotone_clients :: "(nat \<Rightarrow> redis_store \<Rightarrow> redis_store) \<Rightarrow> bool" where
  "monotone_clients intf \<longleftrightarrow> (\<forall>i s. redis_inv s \<longrightarrow> redis_inv (intf i s)
     \<and> (\<forall>tid h h'. map_of (rs_tasks s) tid = Some h \<longrightarrow> map_of (rs_tasks (intf i s)) tid = Some h' \<longrightarrow>
          h' = h \<or> h_version h < h_version h'))"

text \<open>The version a caller expects is one the task has had: it was read before.\<close>

definition expectation_seen :: "update \<Rightarrow> string \<Rightarrow> redis_store \<Rightarrow> bool" where
  "expectation_seen u tid s \<longleftrightarrow> (case u_expected_version u of None \<Rightarrow> True
     | Some e \<Rightarrow> (case map_of (rs_tasks s) tid of None \<Rightarrow> False | Some h \<Rightarrow> e \<le> h_version h))"

lemma redis_attempt:
  assumes intf: "monotone_clients intf" and u: "valid_update u" and s: "redis_inv s" "expectation_seen u tid s"
    and run: "redis_update_loop now intf tid u k (Suc n) s = (r, s')"
  defines "s1 \<equiv> intf (2 * k) s"
  defines "s2 \<equiv> intf (2 * k + 1) s1"
  shows "atomic_redis (now k) u tid s1 r s' \<or> atomic_redis (now k) u tid s2 r s'
    \<or> 0 < n \<and> u_expected_version u = None \<and> redis_inv s2 \<and> redis_update_loop now intf tid u (Suc k) n s2 = (r, s')"
proof -
  have inv1: "redis_inv s1" and inv2: "redis_inv s2" using intf s(1) by (simp_all add: monotone_clients_def s1_def s2_def)
  note run = run [unfolded redis_update_loop.simps(2) Let_def s1_def [symmetric] s2_def [symmetric]]
  show ?thesis
  proof (cases "map_of (rs_tasks s1) tid")
    case None
    with run have "atomic_redis (now k) u tid s1 r s'" by (auto simp: atomic_redis_def redis_view_def)
    then show ?thesis ..
  next
    case (Some h)
    obtain vals where vals: "merge_values (now k) u h = Inr vals"
      using merge_values_ok [OF _ u] inv1 Some unfolding redis_inv_def by metis
    define occ where "occ = (case u_expected_version u of Some e \<Rightarrow> e | None \<Rightarrow> h_version h)"
    note run = run [unfolded Some option.case vals sum.case occ_def [symmetric]]
    consider (missing) "map_of (rs_tasks s2) tid = None"
      | (moved) h2 where "map_of (rs_tasks s2) tid = Some h2" "h_version h2 \<noteq> occ"
      | (terminal) h2 where "map_of (rs_tasks s2) tid = Some h2" "h_version h2 = occ" "u_state u \<noteq> None" "h_status_state h2 \<in> TERMINAL_STATES"
      | (pass) h2 where "map_of (rs_tasks s2) tid = Some h2" "h_version h2 = occ" "u_state u = None \<or> h_status_state h2 \<notin> TERMINAL_STATES"
      by (cases "map_of (rs_tasks s2) tid") blast+
    then show ?thesis
    proof cases
      case missing
      with run have "atomic_redis (now k) u tid s2 r s'" by (auto simp: update_script_def atomic_redis_def redis_view_def)
      then show ?thesis by blast
    next
      case (moved h2)
      then have script: "update_script tid occ (u_state u) vals s2 = (Inl (VERSION_MISMATCH (h_version h2)), s2)"
        by (simp add: update_script_def)
      note run = run [unfolded script prod.case sum.case script_error.case]
      have view: "redis_view s2 tid = Some (hash_task h2, h_version h2)" using moved(1) by (simp add: redis_view_def)
      show ?thesis
      proof (cases "u_expected_version u = None \<and> 0 < n")
        case True
        with run inv2 show ?thesis by simp
      next
        case False
        with run moved(2) view have "atomic_redis (now k) u tid s2 r s'"
          by (cases "u_expected_version u") (auto simp: atomic_redis_def occ_def)
        then show ?thesis by blast
      qed
    next
      case (terminal h2)
      with run have "atomic_redis (now k) u tid s2 r s'" by (auto simp: update_script_def atomic_redis_def redis_view_def)
      then show ?thesis by blast
    next
      case (pass h2)
      have step: "h2 = h \<or> h_version h < h_version h2"
        using intf inv1 Some pass(1) unfolding monotone_clients_def s2_def by blast
      have "occ \<le> h_version h"
      proof (cases "u_expected_version u")
        case (Some e)
        with s(2) obtain h0 where "map_of (rs_tasks s) tid = Some h0" "e \<le> h_version h0"
          by (auto simp: expectation_seen_def split: option.splits)
        moreover have "h = h0 \<or> h_version h0 < h_version h"
          using intf s(1) calculation(1) \<open>map_of (rs_tasks s1) tid = Some h\<close> unfolding monotone_clients_def s1_def by blast
        ultimately show ?thesis using Some by (auto simp: occ_def)
      qed (simp add: occ_def)
      with step pass(2) have h2: "h2 = h" "occ = h_version h" by auto
      then have "u_expected_version u \<in> {None, Some (h_version h)}" by (auto simp: occ_def split: option.splits)
      from update_script_written [OF inv2 pass(1) [unfolded h2(1)] u vals this pass(3) [unfolded h2(1)]] run h2(2)
      show ?thesis by auto
    qed
  qed
qed

lemma redis_loop_atomic:
  assumes "monotone_clients intf" "valid_update u"
  shows "redis_inv s \<Longrightarrow> expectation_seen u tid s \<Longrightarrow> 0 < n \<Longrightarrow> redis_update_loop now intf tid u k n s = (r, s') \<Longrightarrow>
    \<exists>m j. 2 * k < m \<and> m \<le> 2 * (k + n) \<and> atomic_redis (now j) u tid (fold intf [2 * k..<m] s) r s'"
proof (induction n arbitrary: k s)
  case (Suc n)
  define s2 where "s2 = intf (2 * k + 1) (intf (2 * k) s)"
  consider "atomic_redis (now k) u tid (intf (2 * k) s) r s'" | "atomic_redis (now k) u tid s2 r s'"
    | "0 < n" "u_expected_version u = None" "redis_inv s2" "redis_update_loop now intf tid u (Suc k) n s2 = (r, s')"
    using redis_attempt [OF assms Suc.prems(1,2,4)] by (auto simp: s2_def)
  then show ?case
  proof cases
    case 1
    then show ?thesis by (intro exI [of _ "2 * k + 1"] exI [of _ k]) simp
  next
    case 2
    then show ?thesis by (intro exI [of _ "2 * k + 2"] exI [of _ k]) (simp add: s2_def)
  next
    case 3
    then have "expectation_seen u tid s2" by (simp add: expectation_seen_def)
    from Suc.IH [OF 3(3) this 3(1,4)] obtain m j where m: "2 * Suc k < m" "m \<le> 2 * (Suc k + n)"
      "atomic_redis (now j) u tid (fold intf [2 * Suc k..<m] s2) r s'" by auto
    have "[2 * k..<m] = [2 * k, 2 * k + 1] @ [2 * Suc k..<m]" using m(1) by (simp add: upt_conv_Cons)
    then have "fold intf [2 * Suc k..<m] s2 = fold intf [2 * k..<m] s" by (simp add: s2_def)
    with m show ?thesis by (intro exI [of _ m] exI [of _ j]) simp
  qed
qed simp

section \<open>The contract\<close>

lemma redis_view_eq: "redis_view s tid = Some (t, v) \<longleftrightarrow> (\<exists>h. map_of (rs_tasks s) tid = Some h \<and> t = hash_task h \<and> v = h_version h)"
  by (auto simp: redis_view_def)

text \<open>Without other clients an update is decided in its first attempt.\<close>

lemma redis_alone:
  fixes now :: string
  assumes s: "redis_inv s" "map_of (rs_tasks s) tid = Some h" and u: "valid_update u"
  defines "run \<equiv> RedisStorage_update_task (\<lambda>_. now) (\<lambda>_. id) tid u s"
  shows "u_expected_version u \<notin> {None, Some (h_version h)} \<Longrightarrow> \<exists>msg. run = (Inl (ConcurrencyError msg (Some (h_version h))), s)"
    and "u_expected_version u \<in> {None, Some (h_version h)} \<Longrightarrow> u_state u \<noteq> None \<Longrightarrow> h_status_state h \<in> TERMINAL_STATES \<Longrightarrow>
      \<exists>msg. run = (Inl (TaskTerminalStateError msg), s)"
    and "u_expected_version u \<in> {None, Some (h_version h)} \<Longrightarrow> u_state u = None \<or> h_status_state h \<notin> TERMINAL_STATES \<Longrightarrow>
      \<exists>s'. run = (Inr (h_version h + 1), s') \<and> atomic_redis now u tid s (Inr (h_version h + 1)) s'"
proof -
  obtain vals where vals: "merge_values now u h = Inr vals"
    using merge_values_ok [OF _ u] s unfolding redis_inv_def by metis
  obtain n where n: "(if u_expected_version u \<noteq> None then 1 else 8 :: nat) = Suc n" by fastforce
  have run: "run = redis_update_loop (\<lambda>_. now) (\<lambda>_. id) tid u 0 (Suc n) s"
    by (simp only: RedisStorage_update_task_def n run_def)
  show "u_expected_version u \<notin> {None, Some (h_version h)} \<Longrightarrow> \<exists>msg. run = (Inl (ConcurrencyError msg (Some (h_version h))), s)"
    using s(2) vals by (auto simp: run update_script_def)
  show "u_expected_version u \<in> {None, Some (h_version h)} \<Longrightarrow> u_state u \<noteq> None \<Longrightarrow> h_status_state h \<in> TERMINAL_STATES \<Longrightarrow>
      \<exists>msg. run = (Inl (TaskTerminalStateError msg), s)"
    using s(2) vals by (auto simp: run update_script_def)
  assume g: "u_expected_version u \<in> {None, Some (h_version h)}" "u_state u = None \<or> h_status_state h \<notin> TERMINAL_STATES"
  then have occ: "(case u_expected_version u of Some e \<Rightarrow> e | None \<Rightarrow> h_version h) = h_version h" by auto
  from update_script_written [OF s u vals g] show "\<exists>s'. run = (Inr (h_version h + 1), s') \<and> atomic_redis now u tid s (Inr (h_version h + 1)) s'"
    using s(2) vals by (auto simp: run occ)
qed

interpretation redis: storage_writes "RedisStorage_ops enum" redis_inv redis_view redis_idem for enum
proof (unfold_locales, goal_cases)
  case (1 s hl tid ia)
  then show ?case
    using row_to_task_load_view [OF 1(2)]
    by (simp add: RedisStorage_load_task_def redis_view_def option.map_comp comp_def hash_row_task [symmetric])
next
  case (2 s tid)
  then show ?case by (simp add: RedisStorage_get_version_def redis_view_def option.map_comp comp_def)
next
  case (3 s tid t v)
  then show ?case by (auto simp: redis_view_eq redis_inv_def row_ok_def hash_row_task)
next
  case (4 s tid now u)
  then have "map_of (rs_tasks s) tid = None" by (simp add: redis_view_def)
  then show ?case by (auto simp: RedisStorage_update_task_def eval_nat_numeral)
next
  case (5 s tid t v u e now)
  then obtain h where h: "map_of (rs_tasks s) tid = Some h" "v = h_version h" by (auto simp: redis_view_eq)
  with 5(3,4) redis_alone(1) [OF 5(1) h(1) 5(5), where now = now] show ?case by simp
next
  case (6 s tid t v u now)
  then obtain h where h: "map_of (rs_tasks s) tid = Some h" "v = h_version h" "t = hash_task h" by (auto simp: redis_view_eq)
  with 6(3-5) redis_alone(2) [OF 6(1) h(1) 6(6), where now = now] show ?case by simp
next
  case (7 s tid t v u now t')
  then obtain h where h: "map_of (rs_tasks s) tid = Some h" "v = h_version h" "t = hash_task h" by (auto simp: redis_view_eq)
  with 7(3,4) redis_alone(3) [OF 7(1) h(1) 7(5), where now = now] obtain s' where
    "RedisStorage_update_task (\<lambda>_. now) (\<lambda>_. id) tid u s = (Inr (v + 1), s')" "atomic_redis now u tid s (Inr (v + 1)) s'" by auto
  with 7(2,6) show ?case by (simp add: atomic_redis_def redis_idem_def [abs_def])
next
  case (8 s tid t v)
  then show ?case by (auto simp: redis_view_eq redis_inv_def)
next
  case (9 s ctx)
  then show ?case by (simp add: RedisStorage_load_context_def)
next
  case (10 s ctx j)
  then show ?case
    by (simp add: RedisStorage_update_context_def RedisStorage_load_context_def redis_inv_def redis_view_def [abs_def]
      redis_idem_def [abs_def])
qed

end
