(* ===== verification/Redis_Properties.thy ===== *)
theory Redis_Properties
  imports Redis_Refinement Storage_Properties
begin

text \<open>
  What the Redis backend promises: an update is atomic under racing clients; creation is idempotent, but by a key that joins the
  context and the caller's key, so that different contexts may meet.
\<close>

section \<open>Racing clients\<close>


text \<open>The witness: a client deletes the task after an update has read it.\<close>

definition sample_redis :: redis_store where
  "sample_redis = snd (create_script (idem_key ''c1'' ''m1'') ''t1'' ''c1'' (initial_fields ''2026'' ''t1'' ''c1'' sample_message (Some ''m1''))
     empty_redis)"

definition deleting_client :: "nat \<Rightarrow> redis_store \<Rightarrow> redis_store" where
  "deleting_client i s = (if i = 1 then fst (snd (RedisStorage_delete_task id ''t1'' (s, None))) else s)"

lemma delete_tasks: "rs_tasks (fst (snd (RedisStorage_delete_task id tid (s, ps)))) = AList.delete tid (rs_tasks s)"
  by (simp add: RedisStorage_delete_task_def delete_block_def srem_def Let_def AList.delete_eq filter_id_conv map_of_eq_None_iff
    image_iff split_def split: option.split)

lemma deleting_monotone: "monotone_clients deleting_client"
proof -
  have "map_of (rs_tasks (deleting_client i s)) tid = (if i = 1 \<and> tid = ''t1'' then None else map_of (rs_tasks s) tid)" for i s tid
    by (simp add: deleting_client_def delete_tasks delete_conv')
  then show ?thesis by (simp add: monotone_clients_def redis_inv_def)
qed

lemma initial_fields_task: "hash_task (initial_fields now uid ctx msg key) = initial_task now uid ctx msg key"
  by (simp add: initial_fields_def hash_to_task_def initial_task_def)

lemma initial_fields_ok: "row_ok (hash_row (initial_fields now uid ctx msg key))"
proof -
  have "task_meta_ok (row_task (hash_row (initial_fields now uid ctx msg key)))"
    using initial_task_meta_ok [of now uid ctx msg key] by (simp add: hash_row_task initial_fields_task)
  then show ?thesis by (simp add: row_ok_def) (simp add: hash_row_def initial_fields_def)
qed

lemma sample_redis_tasks: "rs_tasks sample_redis = [(''t1'', initial_fields ''2026'' ''t1'' ''c1'' sample_message (Some ''m1''))]"
  by (simp add: sample_redis_def create_script_def create_hash_def sadd_def empty_redis_def)

lemma sample_redis_inv: "redis_inv sample_redis"
  using initial_fields_ok by (simp add: redis_inv_def sample_redis_tasks) (simp add: initial_fields_def)


section \<open>Idempotent creation\<close>

lemma redis_create_new:
  fixes now uid :: string and msg :: message
  assumes "truthy key" and "redis_idem s ctx (the key) = None"
  defines "flds \<equiv> initial_fields now uid ctx msg key"
  shows "RedisStorage_create_task id now uid ctx msg key s = (Inr (mark_created (initial_task now uid ctx msg key)),
    (create_hash uid ctx flds s)\<lparr>rs_idem := AList.update (idem_key ctx (the key)) uid (rs_idem s)\<rparr>)"
proof -
  have "rs_tasks (create_hash uid ctx flds s) = AList.update uid flds (rs_tasks s)" by (simp add: create_hash_def sadd_def)
  with assms(1,2) show ?thesis
    by (simp add: RedisStorage_create_task_def create_script_def redis_idem_def load_created_def RedisStorage_load_task_def py_defs
      flds_def initial_fields_task mark_created_def Let_def)
qed

lemma redis_create_known:
  assumes "truthy key" and "map_of (rs_idem s) (idem_key ctx (the key)) = Some tid" and "map_of (rs_tasks s) tid = Some h" and "uid \<noteq> tid"
  shows "RedisStorage_create_task id now uid ctx msg key s = (Inr (hash_task h), s)"
  using assms by (auto simp: RedisStorage_create_task_def create_script_def RedisStorage_load_task_def py_defs Let_def)

text \<open>Property C15: a second creation returns the first task and stores nothing whenever context and key, joined by a colon, give
  the same text. For the same context and key this is idempotency. But the joined text does not determine the context: a caller in
  one context, with a suitable key, is handed a task of another context, and no task is created for the message.\<close>

theorem redis_creation_by_joined_key:
  assumes "truthy key" and "truthy key'" and "redis_idem s ctx (the key) = None" and "uid' \<noteq> uid"
    and "ctx @ '':'' @ the key = ctx' @ '':'' @ the key'" and "RedisStorage_create_task id now uid ctx msg key s = (Inr t1, s1)"
  shows "\<exists>t2. RedisStorage_create_task id now' uid' ctx' msg' key' s1 = (Inr t2, s1) \<and> t_id t2 = uid \<and> t_context_id t2 = ctx"
proof -
  have s1: "s1 = (create_hash uid ctx (initial_fields now uid ctx msg key) s)\<lparr>rs_idem := AList.update (idem_key ctx (the key)) uid (rs_idem s)\<rparr>"
    using redis_create_new [OF assms(1,3), where now = now and uid = uid and msg = msg] assms(6) by simp
  have "idem_key ctx' (the key') = idem_key ctx (the key)" using assms(5) by (simp add: idem_key_def)
  then have "map_of (rs_idem s1) (idem_key ctx' (the key')) = Some uid" by (simp add: s1)
  moreover have "map_of (rs_tasks s1) uid = Some (initial_fields now uid ctx msg key)" by (simp add: s1 create_hash_def sadd_def)
  ultimately have "RedisStorage_create_task id now' uid' ctx' msg' key' s1 = (Inr (initial_task now uid ctx msg key), s1)"
    using redis_create_known [OF assms(2) _ _ assms(4)] by (simp add: initial_fields_task)
  then show ?thesis by simp
qed

theorem redis_creation_by_joined_key_witness:
  "\<exists>t1 s1 t2. RedisStorage_create_task id ''2026'' ''t1'' ''a:b'' sample_message (Some ''c'') empty_redis = (Inr t1, s1)
    \<and> RedisStorage_create_task id ''2027'' ''t2'' ''a'' sample_message (Some ''b:c'') s1 = (Inr t2, s1)
    \<and> t_id t2 = ''t1'' \<and> t_context_id t2 = ''a:b''"
proof -
  have k: "truthy (Some ''c'')" "truthy (Some ''b:c'')" "redis_idem empty_redis ''a:b'' (the (Some ''c'')) = None" "''t2'' \<noteq> ''t1''"
    "''a:b'' @ '':'' @ the (Some ''c'') = ''a'' @ '':'' @ the (Some ''b:c'')"
    by (simp_all add: redis_idem_def empty_redis_def)
  obtain t1 s1 where run: "RedisStorage_create_task id ''2026'' ''t1'' ''a:b'' sample_message (Some ''c'') empty_redis = (Inr t1, s1)"
    using redis_create_new [OF k(1,3), where now = "''2026''" and uid = "''t1''" and msg = sample_message] by blast
  from redis_creation_by_joined_key [OF k run, of "''2027''" sample_message] run show ?thesis by blast
qed

end
