(* ===== verification/Broker_Redis.thy ===== *)
theory Broker_Redis
  imports Broker_Memory
begin

text \<open>
  \<^verbatim>\<open>broker/redis.py\<close>: the broker on a Redis stream with one consumer group, and the cancel registry on keys and channels.

  The stream is the list of its entries, identifiers are consecutive numbers. Of the consumer group the server keeps the last
  identifier it has delivered and the pending entries: delivered, not acknowledged, each with its consumer. A field \<^verbatim>\<open>op\<close> holds the
  operation its JSON text stands for, or a text that \<^verbatim>\<open>_deserialize_operation\<close> rejects. \<^verbatim>\<open>MAXLEN ~\<close> lets the server drop old
  entries: what it keeps is the argument \<open>bc_trim\<close>. Which idle entry \<^verbatim>\<open>XAUTOCLAIM\<close> picks, by the cursor and the idle times, is
  an argument. Times are in milliseconds.
\<close>

section \<open>Streams\<close>

datatype payload = Op run_op | Garbled string

record stream_entry =
  en_id :: nat
  en_op :: payload
  en_attempt :: int
  en_not_before :: "int option"

record dead_letter =
  dl_op :: payload
  dl_attempt :: "int option"
  dl_error :: "string option"

record redis_broker =
  rb_stream :: "stream_entry list"
  rb_seq :: nat
  rb_delivered :: nat
  rb_pel :: "(nat, string) pydict"
  rb_dlq :: "dead_letter list"
  rb_crash :: "(nat, int) pydict"

record broker_config =
  bc_max_retries :: int
  bc_trim :: "stream_entry list \<Rightarrow> stream_entry list"
  bc_trim_dlq :: "dead_letter list \<Rightarrow> dead_letter list"

definition RedisBroker_init :: redis_broker where
  "RedisBroker_init = \<lparr>rb_stream = [], rb_seq = 1, rb_delivered = 0, rb_pel = [], rb_dlq = [], rb_crash = []\<rparr>"

definition xadd :: "broker_config \<Rightarrow> payload \<Rightarrow> int \<Rightarrow> int option \<Rightarrow> redis_broker \<Rightarrow> redis_broker" where
  "xadd cfg op att nb b = b\<lparr>rb_seq := Suc (rb_seq b),
     rb_stream := bc_trim cfg (rb_stream b @ [\<lparr>en_id = rb_seq b, en_op = op, en_attempt = att, en_not_before = nb\<rparr>])\<rparr>"

definition xadd_dlq :: "broker_config \<Rightarrow> dead_letter \<Rightarrow> redis_broker \<Rightarrow> redis_broker" where
  "xadd_dlq cfg d b = b\<lparr>rb_dlq := bc_trim_dlq cfg (rb_dlq b @ [d])\<rparr>"

definition xack :: "nat \<Rightarrow> redis_broker \<Rightarrow> redis_broker" where
  "xack i b = b\<lparr>rb_pel := AList.delete i (rb_pel b)\<rparr>"

definition clear_crash_count :: "nat \<Rightarrow> redis_broker \<Rightarrow> redis_broker" where
  "clear_crash_count i b = b\<lparr>rb_crash := AList.delete i (rb_crash b)\<rparr>"

section \<open>Handles\<close>

record op_handle =
  oh_id :: nat
  oh_op :: run_op
  oh_attempt :: int

text \<open>Keys of the request context that start with an underscore are for this process only.\<close>

definition serialize_operation :: "send_request \<Rightarrow> bool \<Rightarrow> mdict \<Rightarrow> run_op" where
  "serialize_operation params is_new rc =
     \<lparr>ro_params = params, ro_is_new_task = is_new, ro_request_context = filter (\<lambda>(k, _). take 1 k \<noteq> ''_'') rc\<rparr>"

definition RedisBroker_run_task :: "broker_config \<Rightarrow> send_request \<Rightarrow> bool \<Rightarrow> mdict option \<Rightarrow> redis_broker \<Rightarrow> redis_broker" where
  "RedisBroker_run_task cfg params is_new rc = xadd cfg (Op (serialize_operation params is_new (opt_list rc))) 1 None"

definition RedisOperationHandle_ack :: "op_handle \<Rightarrow> redis_broker \<Rightarrow> redis_broker" where
  "RedisOperationHandle_ack h b = clear_crash_count (oh_id h) (xack (oh_id h) b)"

text \<open>A negative acknowledgement. The commands of a retry, \<open>nack_first\<close> and \<open>nack_again\<close>, are sent together but are not a
  transaction; the last attempt is buried in the dead-letter queue (\<open>nack_bury\<close>) and then acknowledged.\<close>

definition exhausted :: "broker_config \<Rightarrow> op_handle \<Rightarrow> bool" where
  "exhausted cfg h \<longleftrightarrow> oh_attempt h + 1 > bc_max_retries cfg"

definition nack_bury :: "broker_config \<Rightarrow> op_handle \<Rightarrow> redis_broker \<Rightarrow> redis_broker" where
  "nack_bury cfg h = xadd_dlq cfg \<lparr>dl_op = Op (oh_op h), dl_attempt = Some (oh_attempt h + 1), dl_error = None\<rparr>"

definition nack_first :: "op_handle \<Rightarrow> redis_broker \<Rightarrow> redis_broker" where
  "nack_first h = xack (oh_id h)"

definition nack_again :: "broker_config \<Rightarrow> int \<Rightarrow> int \<Rightarrow> op_handle \<Rightarrow> redis_broker \<Rightarrow> redis_broker" where
  "nack_again cfg now delay h b = clear_crash_count (oh_id h)
     (xadd cfg (Op (oh_op h)) (oh_attempt h + 1) (if delay > 0 then Some (now + delay) else None) b)"

definition RedisOperationHandle_nack :: "broker_config \<Rightarrow> int \<Rightarrow> int \<Rightarrow> op_handle \<Rightarrow> redis_broker \<Rightarrow> redis_broker" where
  "RedisOperationHandle_nack cfg now delay h b =
     (if exhausted cfg h then clear_crash_count (oh_id h) (xack (oh_id h) (nack_bury cfg h b))
      else nack_again cfg now delay h (nack_first h b))"

section \<open>Receiving\<close>

definition requeue_not_due :: "broker_config \<Rightarrow> stream_entry \<Rightarrow> redis_broker \<Rightarrow> redis_broker" where
  "requeue_not_due cfg e b =
     clear_crash_count (en_id e) (xack (en_id e) (xadd cfg (en_op e) (en_attempt e) (en_not_before e) b))"

definition not_due :: "int \<Rightarrow> stream_entry \<Rightarrow> bool" where
  "not_due now e \<longleftrightarrow> (case en_not_before e of None \<Rightarrow> False | Some t \<Rightarrow> t > now)"

definition reject_entry :: "broker_config \<Rightarrow> stream_entry \<Rightarrow> redis_broker \<Rightarrow> redis_broker" where
  "reject_entry cfg e b =
     xack (en_id e) (xadd_dlq cfg \<lparr>dl_op = en_op e, dl_attempt = None, dl_error = Some ''deserialization_failed''\<rparr> b)"

text \<open>\<^verbatim>\<open>XREADGROUP\<close> with its entry, and what the loop does with the entry.\<close>

definition xreadgroup :: "string \<Rightarrow> redis_broker \<Rightarrow> stream_entry option \<times> redis_broker" where
  "xreadgroup consumer b = (case find (\<lambda>e. rb_delivered b < en_id e) (rb_stream b) of
      None \<Rightarrow> (None, b)
    | Some e \<Rightarrow> (Some e, b\<lparr>rb_delivered := en_id e, rb_pel := AList.update (en_id e) consumer (rb_pel b)\<rparr>))"

definition RedisBroker_read :: "broker_config \<Rightarrow> int \<Rightarrow> string \<Rightarrow> redis_broker \<Rightarrow> op_handle option \<times> redis_broker" where
  "RedisBroker_read cfg now consumer b = (case xreadgroup consumer b of
      (None, b1) \<Rightarrow> (None, b1)
    | (Some e, b1) \<Rightarrow>
        if not_due now e then (None, requeue_not_due cfg e b1)
        else (case en_op e of
            Garbled _ \<Rightarrow> (None, reject_entry cfg e b1)
          | Op op \<Rightarrow> (Some \<lparr>oh_id = en_id e, oh_op = op, oh_attempt = en_attempt e\<rparr>, b1)))"

text \<open>\<^verbatim>\<open>XAUTOCLAIM\<close> hands a pending entry to this consumer; its fields are missing when the entry was trimmed.\<close>

definition xautoclaim :: "nat \<Rightarrow> string \<Rightarrow> redis_broker \<Rightarrow> stream_entry option \<times> redis_broker" where
  "xautoclaim i consumer b =
     (find (\<lambda>e. en_id e = i) (rb_stream b), b\<lparr>rb_pel := AList.update i consumer (rb_pel b)\<rparr>)"

definition crash_count :: "nat \<Rightarrow> redis_broker \<Rightarrow> int" where
  "crash_count i b = (case map_of (rb_crash b) i of None \<Rightarrow> 0 | Some n \<Rightarrow> n)"

definition hincrby :: "nat \<Rightarrow> redis_broker \<Rightarrow> redis_broker" where
  "hincrby i b = b\<lparr>rb_crash := AList.update i (crash_count i b + 1) (rb_crash b)\<rparr>"

definition claim_operation :: "broker_config \<Rightarrow> stream_entry \<Rightarrow> run_op \<Rightarrow> redis_broker \<Rightarrow> op_handle option \<times> redis_broker" where
  "claim_operation cfg e op b =
     (let b1 = hincrby (en_id e) b;
          effective_attempt = en_attempt e + crash_count (en_id e) b1;
          h = \<lparr>oh_id = en_id e, oh_op = op, oh_attempt = effective_attempt\<rparr>
      in if effective_attempt > bc_max_retries cfg
         then (Some h, clear_crash_count (en_id e) (xack (en_id e)
           (xadd_dlq cfg \<lparr>dl_op = en_op e, dl_attempt = Some effective_attempt, dl_error = None\<rparr> b1)))
         else (Some h, b1))"

definition RedisBroker_claim :: "broker_config \<Rightarrow> int \<Rightarrow> string \<Rightarrow> nat option \<Rightarrow> redis_broker \<Rightarrow> op_handle option \<times> redis_broker" where
  "RedisBroker_claim cfg now consumer pick b =
     (case pick of None \<Rightarrow> (None, b) | Some i \<Rightarrow>
      if map_of (rb_pel b) i = None then (None, b) else
      case xautoclaim i consumer b of
        (None, b1) \<Rightarrow> (None, xack i b1)
      | (Some e, b1) \<Rightarrow>
          if not_due now e then (None, requeue_not_due cfg e b1)
          else (case en_op e of
              Garbled _ \<Rightarrow> (None, reject_entry cfg e b1)
            | Op op \<Rightarrow> claim_operation cfg e op b1))"

section \<open>Cancellation\<close>

text \<open>The server side of the cancel registry: the keys, and for each channel the scopes that are subscribed. A scope has the
  flag of its event and how far \<^verbatim>\<open>_start\<close> has come; each of its three commands is a step of its own.\<close>

datatype scope_phase = Starting | Checked | Subscribed | Listening

record cancel_scope =
  cs_task :: string
  cs_phase :: scope_phase
  cs_event :: bool

record redis_cancel =
  rc_keys :: "string list"
  rc_scopes :: "cancel_scope list"

definition RedisCancelRegistry_is_cancelled :: "string \<Rightarrow> redis_cancel \<Rightarrow> bool" where
  "RedisCancelRegistry_is_cancelled tid r \<longleftrightarrow> tid \<in> set (rc_keys r)"

definition set_key :: "string \<Rightarrow> redis_cancel \<Rightarrow> redis_cancel" where
  "set_key tid r = r\<lparr>rc_keys := List.insert tid (rc_keys r)\<rparr>"

text \<open>A published message reaches the scopes that are subscribed at that moment; the listener then sets the event.\<close>

definition publish :: "string \<Rightarrow> redis_cancel \<Rightarrow> redis_cancel" where
  "publish tid r = r\<lparr>rc_scopes := map (\<lambda>s. if cs_task s = tid \<and> cs_phase s \<in> {Subscribed, Listening}
     then s\<lparr>cs_event := True\<rparr> else s) (rc_scopes r)\<rparr>"

definition RedisCancelRegistry_request_cancel :: "string \<Rightarrow> redis_cancel \<Rightarrow> redis_cancel" where
  "RedisCancelRegistry_request_cancel tid r = publish tid (set_key tid r)"

definition RedisCancelRegistry_on_cancel :: "string \<Rightarrow> redis_cancel \<Rightarrow> redis_cancel" where
  "RedisCancelRegistry_on_cancel tid r =
     r\<lparr>rc_scopes := rc_scopes r @ [\<lparr>cs_task = tid, cs_phase = Starting, cs_event = False\<rparr>]\<rparr>"

definition RedisCancelRegistry_cleanup :: "string \<Rightarrow> bool \<Rightarrow> redis_cancel \<Rightarrow> redis_cancel" where
  "RedisCancelRegistry_cleanup tid release_key r =
     r\<lparr>rc_keys := (if release_key then removeAll tid (rc_keys r) else rc_keys r),
       rc_scopes := filter (\<lambda>s. cs_task s \<noteq> tid) (rc_scopes r)\<rparr>"

text \<open>One command of \<^verbatim>\<open>_start\<close>: look for the key, subscribe, look for the key again, then listen.\<close>

definition start_step :: "redis_cancel \<Rightarrow> cancel_scope \<Rightarrow> cancel_scope" where
  "start_step r s = (case cs_phase s of
      Starting \<Rightarrow> if cs_task s \<in> set (rc_keys r) then s\<lparr>cs_phase := Listening, cs_event := True\<rparr> else s\<lparr>cs_phase := Checked\<rparr>
    | Checked \<Rightarrow> s\<lparr>cs_phase := Subscribed\<rparr>
    | Subscribed \<Rightarrow> if cs_task s \<in> set (rc_keys r) then s\<lparr>cs_phase := Listening, cs_event := True\<rparr> else s\<lparr>cs_phase := Listening\<rparr>
    | Listening \<Rightarrow> s)"

definition scope_step :: "nat \<Rightarrow> redis_cancel \<Rightarrow> redis_cancel" where
  "scope_step i r = (if i < length (rc_scopes r)
     then r\<lparr>rc_scopes := (rc_scopes r)[i := start_step r (rc_scopes r ! i)]\<rparr> else r)"

interpretation redis_cancel: cancel_registry RedisCancelRegistry_request_cancel RedisCancelRegistry_is_cancelled
  RedisCancelRegistry_on_cancel RedisCancelRegistry_cleanup
  by unfold_locales
    (auto simp: RedisCancelRegistry_request_cancel_def RedisCancelRegistry_is_cancelled_def RedisCancelRegistry_on_cancel_def
      RedisCancelRegistry_cleanup_def set_key_def publish_def)

end
