(* ===== verification/Redis_Broker_Laws.thy ===== *)
theory Redis_Broker_Laws
  imports Broker_Redis "HOL-Library.Multiset"
begin

text \<open>
  Delivery by the Redis broker. A step of the system is a submission, a read or claim by any consumer, an acknowledgement, a command of
  a negative one by whoever holds a handle, a trimming of the streams by the server, or the crash of consumers at any of these points,
  whose handles are lost. Reads and claims that break off between two commands are steps too. The account of the operations is kept in
  multisets: an operation is live while its entry is undelivered or pending.
\<close>

section \<open>Live operations\<close>

fun op_mset :: "payload \<Rightarrow> run_op multiset" where
  "op_mset (Op op) = {#op#}"
| "op_mset (Garbled _) = {#}"

definition is_live :: "redis_broker \<Rightarrow> stream_entry \<Rightarrow> bool" where
  "is_live b e \<longleftrightarrow> rb_delivered b < en_id e \<or> map_of (rb_pel b) (en_id e) \<noteq> None"

definition live :: "redis_broker \<Rightarrow> run_op multiset" where
  "live b = sum_list (map (\<lambda>e. if is_live b e then op_mset (en_op e) else {#}) (rb_stream b))"

definition dead :: "redis_broker \<Rightarrow> run_op multiset" where
  "dead b = sum_list (map (op_mset \<circ> dl_op) (rb_dlq b))"

definition untrimmed :: "broker_config \<Rightarrow> bool" where
  "untrimmed cfg \<longleftrightarrow> bc_trim cfg = id \<and> bc_trim_dlq cfg = id"

definition stream_ok :: "redis_broker \<Rightarrow> bool" where
  "stream_ok b \<longleftrightarrow> sorted_wrt (<) (map en_id (rb_stream b)) \<and> (\<forall>e \<in> set (rb_stream b). en_id e < rb_seq b) \<and> rb_delivered b < rb_seq b"

lemma sum_list_change_one:
  fixes f g :: "stream_entry \<Rightarrow> 'a multiset"
  assumes "distinct (map en_id xs)" and "\<And>e. e \<in> set xs \<Longrightarrow> en_id e \<noteq> i \<Longrightarrow> f e \<subseteq># g e"
    and "\<And>e. e \<in> set xs \<Longrightarrow> en_id e = i \<Longrightarrow> f e \<subseteq># g e + m"
  shows "sum_list (map f xs) \<subseteq># sum_list (map g xs) + m"
  using assms
proof (induction xs)
  case (Cons x xs)
  show ?case
  proof (cases "en_id x = i")
    case True
    have "sum_list (map f xs) \<subseteq># sum_list (map g xs)"
    proof -
      have "f e \<subseteq># g e" if "e \<in> set xs" for e
        using Cons.prems(1) Cons.prems(2) [of e] that True by (auto simp: image_iff)
      then show ?thesis by (induction xs) (simp_all add: subset_mset.add_mono)
    qed
    with Cons.prems(3) [of x] True have "f x + sum_list (map f xs) \<subseteq># (g x + m) + sum_list (map g xs)"
      by (intro subset_mset.add_mono) simp_all
    then show ?thesis by (simp add: ac_simps)
  next
    case False
    have "sum_list (map f xs) \<subseteq># sum_list (map g xs) + m"
      by (rule Cons.IH) (use Cons.prems in auto)
    with Cons.prems(2) [of x] False have "f x + sum_list (map f xs) \<subseteq># g x + (sum_list (map g xs) + m)"
      by (intro subset_mset.add_mono) simp_all
    then show ?thesis by (simp add: ac_simps)
  qed
qed simp

lemma stream_ok_distinct: "stream_ok b \<Longrightarrow> distinct (map en_id (rb_stream b))"
  by (simp add: stream_ok_def strict_sorted_iff)

text \<open>Acknowledging takes away at most the operation of that entry.\<close>

lemma live_xack:
  assumes "stream_ok b" and "\<And>e. e \<in> set (rb_stream b) \<Longrightarrow> en_id e = i \<Longrightarrow> op_mset (en_op e) \<subseteq># m"
  shows "live b \<subseteq># live (xack i b) + m"
  unfolding live_def xack_def
proof (simp, rule sum_list_change_one [OF stream_ok_distinct [OF assms(1)], where i = i])
  fix e
  assume "e \<in> set (rb_stream b)" "en_id e = i"
  with assms(2) have "op_mset (en_op e) \<subseteq># m" by blast
  then show "(if is_live b e then op_mset (en_op e) else {#})
      \<subseteq># (if is_live (b\<lparr>rb_pel := AList.delete i (rb_pel b)\<rparr>) e then op_mset (en_op e) else {#}) + m"
    by (simp add: subset_mset.add_increasing)
qed (simp add: is_live_def delete_conv')

lemma live_xadd: "stream_ok b \<Longrightarrow> untrimmed cfg \<Longrightarrow> live (xadd cfg p a nb b) = live b + op_mset p"
  by (simp add: live_def xadd_def untrimmed_def is_live_def stream_ok_def)

lemma live_other [simp]: "live (xadd_dlq cfg d b) = live b" "live (clear_crash_count i b) = live b" "live (hincrby i b) = live b"
  by (simp_all add: live_def xadd_dlq_def clear_crash_count_def hincrby_def is_live_def)

lemma dead_other [simp]: "dead (xadd cfg p a nb b) = dead b" "dead (clear_crash_count i b) = dead b" "dead (hincrby i b) = dead b"
  "dead (xack i b) = dead b"
  by (simp_all add: dead_def xadd_def clear_crash_count_def hincrby_def xack_def)

lemma dead_xadd_dlq: "untrimmed cfg \<Longrightarrow> dead (xadd_dlq cfg d b) = dead b + op_mset (dl_op d)"
  by (simp add: dead_def xadd_dlq_def untrimmed_def)

lemma stream_ok_other [simp]: "stream_ok (xadd_dlq cfg d b) = stream_ok b" "stream_ok (clear_crash_count i b) = stream_ok b"
  "stream_ok (hincrby i b) = stream_ok b" "stream_ok (xack i b) = stream_ok b"
  by (simp_all add: stream_ok_def xadd_dlq_def clear_crash_count_def hincrby_def xack_def)

lemma stream_ok_xadd: "stream_ok b \<Longrightarrow> untrimmed cfg \<Longrightarrow> stream_ok (xadd cfg p a nb b)"
  by (auto simp: stream_ok_def xadd_def untrimmed_def sorted_wrt_append)

lemma stream_simps [simp]: "rb_stream (xadd_dlq cfg d b) = rb_stream b" "rb_stream (clear_crash_count i b) = rb_stream b"
  "rb_stream (hincrby i b) = rb_stream b" "rb_stream (xack i b) = rb_stream b"
  by (simp_all add: xadd_dlq_def clear_crash_count_def hincrby_def xack_def)

section \<open>Steps\<close>

text \<open>\<^verbatim>\<open>MAXLEN ~ n\<close> as a step of its own, which may come after every command: the server drops oldest entries of a stream, as long as
  \<open>n\<close> remain. The commands themselves are those of \<open>plain\<close>.\<close>

definition plain :: "broker_config \<Rightarrow> broker_config" where
  "plain cfg = cfg\<lparr>bc_trim := id, bc_trim_dlq := id\<rparr>"

lemma untrimmed_plain [simp]: "untrimmed (plain cfg)"
  by (simp add: untrimmed_def plain_def)

definition trim_streams :: "nat \<Rightarrow> nat \<Rightarrow> redis_broker \<Rightarrow> redis_broker" where
  "trim_streams k l b = b\<lparr>rb_stream := drop k (rb_stream b), rb_dlq := drop l (rb_dlq b)\<rparr>"

lemma xadd_trims:
  assumes "bc_trim cfg = drop k"
  shows "xadd cfg p a nb b = trim_streams k 0 (xadd (plain cfg) p a nb b)"
  using assms by (simp add: xadd_def trim_streams_def plain_def)

text \<open>The state: the broker, the handles that consumers hold, those whose retry or burial is under way, and the accounts.\<close>

record deliveries =
  de_broker :: redis_broker
  de_held :: "op_handle list"
  de_retrying :: "op_handle multiset"
  de_burying :: "op_handle multiset"
  de_done :: "run_op multiset"
  de_submitted :: "run_op multiset"
  de_broken :: "run_op multiset"
  de_trimmed :: "run_op multiset"

definition handed :: "op_handle option \<Rightarrow> op_handle list" where
  "handed h = (case h of None \<Rightarrow> [] | Some x \<Rightarrow> [x])"

inductive bstep :: "broker_config \<Rightarrow> nat \<Rightarrow> deliveries \<Rightarrow> deliveries \<Rightarrow> bool" for cfg n where
  submit: "bstep cfg n d (d\<lparr>de_broker := RedisBroker_run_task (plain cfg) params new rc (de_broker d),
    de_submitted := add_mset (serialize_operation params new (opt_list rc)) (de_submitted d)\<rparr>)"
| read: "RedisBroker_read (plain cfg) now consumer (de_broker d) = (h, b) \<Longrightarrow>
    bstep cfg n d (d\<lparr>de_broker := b, de_held := handed h @ de_held d\<rparr>)"
| claim: "RedisBroker_claim (plain cfg) now consumer pick (de_broker d) = (h, b) \<Longrightarrow>
    bstep cfg n d (d\<lparr>de_broker := b, de_held := handed h @ de_held d\<rparr>)"
| read_broken: "xreadgroup consumer (de_broker d) = (x, b) \<Longrightarrow> bstep cfg n d (d\<lparr>de_broker := b\<rparr>)"
| claim_broken: "map_of (rb_pel (de_broker d)) i \<noteq> None \<Longrightarrow> xautoclaim i consumer (de_broker d) = (x, b) \<Longrightarrow>
    bstep cfg n d (d\<lparr>de_broker := b\<rparr>)"
| count_broken: "bstep cfg n d (d\<lparr>de_broker := hincrby i (de_broker d)\<rparr>)"
| move_broken: "e \<in> set (rb_stream (de_broker d)) \<Longrightarrow> dl_op l = en_op e \<Longrightarrow>
    bstep cfg n d (d\<lparr>de_broker := xadd_dlq (plain cfg) l (de_broker d)\<rparr>)"
| ack: "h \<in> set (de_held d) \<Longrightarrow> bstep cfg n d (d\<lparr>de_broker := RedisOperationHandle_ack h (de_broker d),
    de_held := remove1 h (de_held d), de_done := add_mset (oh_op h) (de_done d)\<rparr>)"
| retry: "h \<in> set (de_held d) \<Longrightarrow> \<not> exhausted cfg h \<Longrightarrow> bstep cfg n d (d\<lparr>de_broker := nack_first h (de_broker d),
    de_held := remove1 h (de_held d), de_retrying := add_mset h (de_retrying d)\<rparr>)"
| retry_again: "h \<in># de_retrying d \<Longrightarrow> bstep cfg n d (d\<lparr>de_broker := nack_again (plain cfg) now delay h (de_broker d),
    de_retrying := de_retrying d - {#h#}\<rparr>)"
| bury: "h \<in> set (de_held d) \<Longrightarrow> exhausted cfg h \<Longrightarrow> bstep cfg n d (d\<lparr>de_broker := nack_bury (plain cfg) h (de_broker d),
    de_held := remove1 h (de_held d), de_burying := add_mset h (de_burying d)\<rparr>)"
| buried: "h \<in># de_burying d \<Longrightarrow> bstep cfg n d (d\<lparr>de_broker := clear_crash_count (oh_id h) (xack (oh_id h) (de_broker d)),
    de_burying := de_burying d - {#h#}\<rparr>)"
| trim: "k \<le> length (rb_stream (de_broker d)) - n \<Longrightarrow> l \<le> length (rb_dlq (de_broker d)) - n \<Longrightarrow> b = trim_streams k l (de_broker d) \<Longrightarrow>
    bstep cfg n d (d\<lparr>de_broker := b,
      de_trimmed := de_trimmed d + (live (de_broker d) - live b) + (dead (de_broker d) - dead b)\<rparr>)"
| crash: "set held \<subseteq> set (de_held d) \<Longrightarrow> rs \<subseteq># de_retrying d \<Longrightarrow> bs \<subseteq># de_burying d \<Longrightarrow>
    bstep cfg n d (d\<lparr>de_held := held, de_retrying := rs, de_burying := bs,
      de_broken := de_broken d + image_mset oh_op (de_retrying d - rs)\<rparr>)"

definition delivery_init :: deliveries where
  "delivery_init = \<lparr>de_broker = RedisBroker_init, de_held = [], de_retrying = {#}, de_burying = {#}, de_done = {#}, de_submitted = {#},
     de_broken = {#}, de_trimmed = {#}\<rparr>"

inductive delivery_run :: "broker_config \<Rightarrow> nat \<Rightarrow> deliveries \<Rightarrow> bool" for cfg n where
  start: "delivery_run cfg n delivery_init"
| move: "delivery_run cfg n d \<Longrightarrow> bstep cfg n d d' \<Longrightarrow> delivery_run cfg n d'"

section \<open>Nothing gets lost\<close>

text \<open>\<open>covers m b b'\<close>: what was live or dead in \<open>b\<close> still is in \<open>b'\<close>, except for \<open>m\<close>.\<close>

definition covers :: "run_op multiset \<Rightarrow> redis_broker \<Rightarrow> redis_broker \<Rightarrow> bool" where
  "covers m b b' \<longleftrightarrow> live b + dead b \<subseteq># live b' + dead b' + m"

definition handle_ok :: "redis_broker \<Rightarrow> op_handle \<Rightarrow> bool" where
  "handle_ok b h \<longleftrightarrow> oh_id h < rb_seq b \<and> (\<forall>e \<in> set (rb_stream b). en_id e = oh_id h \<longrightarrow> en_op e = Op (oh_op h))"

lemma handle_ok_other [simp]: "handle_ok (xadd_dlq cfg d b) = handle_ok b" "handle_ok (clear_crash_count i b) = handle_ok b"
  "handle_ok (hincrby i b) = handle_ok b" "handle_ok (xack i b) = handle_ok b"
  by (simp_all add: handle_ok_def fun_eq_iff xadd_dlq_def clear_crash_count_def hincrby_def xack_def)

lemma handle_ok_xadd: "untrimmed cfg \<Longrightarrow> handle_ok b h \<Longrightarrow> handle_ok (xadd cfg p a nb b) h"
  by (auto simp: handle_ok_def xadd_def untrimmed_def)

lemma entry_unique: "stream_ok b \<Longrightarrow> e \<in> set (rb_stream b) \<Longrightarrow> e' \<in> set (rb_stream b) \<Longrightarrow> en_id e' = en_id e \<Longrightarrow> e' = e"
  using stream_ok_distinct [of b] by (auto simp: distinct_map inj_on_def)

lemma entry_old: "stream_ok b \<Longrightarrow> e \<in> set (rb_stream b) \<Longrightarrow> en_id e < rb_seq b"
  by (simp add: stream_ok_def)

lemma covers_ack:
  assumes "stream_ok b" and "handle_ok b h"
  shows "covers {#oh_op h#} b (RedisOperationHandle_ack h b)"
proof -
  have "live b \<subseteq># live (xack (oh_id h) b) + {#oh_op h#}"
    by (rule live_xack [OF assms(1)]) (use assms(2) in \<open>auto simp: handle_ok_def\<close>)
  then show ?thesis by (simp add: covers_def RedisOperationHandle_ack_def)
qed

lemma live_ack:
  assumes "stream_ok b" and "handle_ok b h"
  shows "live b \<subseteq># live (xack (oh_id h) b) + {#oh_op h#}"
  by (rule live_xack [OF assms(1)]) (use assms(2) in \<open>auto simp: handle_ok_def\<close>)

lemma covers_requeue:
  assumes ok: "stream_ok b" and e: "e \<in> set (rb_stream b)" and cfg: "untrimmed cfg"
  shows "covers {#} b (requeue_not_due cfg e b)"
proof -
  let ?b = "xadd cfg (en_op e) (en_attempt e) (en_not_before e) b"
  have ok': "stream_ok ?b" using stream_ok_xadd [OF ok cfg] .
  have e': "e \<in> set (rb_stream ?b)" using e cfg by (simp add: xadd_def untrimmed_def)
  have "live ?b \<subseteq># live (xack (en_id e) ?b) + op_mset (en_op e)"
    by (rule live_xack [OF ok']) (use entry_unique [OF ok' e'] in auto)
  then show ?thesis using live_xadd [OF ok cfg] by (simp add: covers_def requeue_not_due_def)
qed

lemma covers_to_dlq:
  assumes ok: "stream_ok b" and e: "e \<in> set (rb_stream b)" and cfg: "untrimmed cfg" and d: "dl_op d = en_op e"
  shows "covers {#} b (xack (en_id e) (xadd_dlq cfg d b))"
proof -
  have "live (xadd_dlq cfg d b) \<subseteq># live (xack (en_id e) (xadd_dlq cfg d b)) + op_mset (en_op e)"
    by (rule live_xack) (use ok entry_unique [OF ok e] in auto)
  then show ?thesis using dead_xadd_dlq [OF cfg, of d b] d by (simp add: covers_def)
qed

lemma covers_hincrby: "covers {#} (hincrby i b) b' \<longleftrightarrow> covers {#} b b'"
  "covers {#} b (clear_crash_count i b') \<longleftrightarrow> covers {#} b b'" "covers {#} b (hincrby i b') \<longleftrightarrow> covers {#} b b'"
  by (simp_all add: covers_def)

text \<open>Reading and claiming.\<close>

lemma xreadgroup_covers:
  assumes ok: "stream_ok b" and run: "xreadgroup consumer b = (x, b1)"
  shows "stream_ok b1 \<and> rb_stream b1 = rb_stream b \<and> rb_seq b1 = rb_seq b \<and> covers {#} b b1 \<and> (\<forall>e. x = Some e \<longrightarrow> e \<in> set (rb_stream b))"
proof (cases "find (\<lambda>e. rb_delivered b < en_id e) (rb_stream b)")
  case None
  with ok run show ?thesis by (auto simp: xreadgroup_def covers_def)
next
  case (Some e)
  then obtain i where i: "i < length (rb_stream b)" "e = rb_stream b ! i" "rb_delivered b < en_id e"
    "\<forall>j<i. \<not> rb_delivered b < en_id (rb_stream b ! j)" by (auto simp: find_Some_iff)
  have mem: "e \<in> set (rb_stream b)" using i by simp
  have b1: "b1 = b\<lparr>rb_delivered := en_id e, rb_pel := AList.update (en_id e) consumer (rb_pel b)\<rparr>" "x = Some e"
    using run Some by (auto simp: xreadgroup_def)
  have "is_live b1 e'" if live: "is_live b e'" and e': "e' \<in> set (rb_stream b)" for e'
  proof -
    obtain j where j: "j < length (rb_stream b)" "e' = rb_stream b ! j" using e' by (auto simp: in_set_conv_nth)
    have "sorted_wrt (<) (map en_id (rb_stream b))" using ok by (simp add: stream_ok_def)
    then have "i < j \<Longrightarrow> en_id e < en_id e'" using j i by (simp add: sorted_wrt_map sorted_wrt_iff_nth_less)
    moreover have "j < i \<Longrightarrow> \<not> rb_delivered b < en_id e'" using i(4) j by simp
    ultimately show ?thesis using live i(2) j(2) by (cases i j rule: linorder_cases) (auto simp: is_live_def b1 update_conv')
  qed
  then have le: "(if is_live b e' then op_mset (en_op e') else {#}) \<subseteq># (if is_live b1 e' then op_mset (en_op e') else {#})"
    if "e' \<in> set (rb_stream b)" for e' using that by simp
  have "live b \<subseteq># live b1 + {#}"
    unfolding live_def b1(1) [THEN arg_cong [where f = rb_stream], simplified]
    by (rule sum_list_change_one [OF stream_ok_distinct [OF ok]]) (use le in auto)
  moreover have "dead b1 = dead b" by (simp add: dead_def b1)
  ultimately show ?thesis using ok mem entry_old [OF ok mem] by (simp add: covers_def b1 stream_ok_def)
qed

lemma xautoclaim_covers:
  assumes "xautoclaim i consumer b = (x, b1)" and "map_of (rb_pel b) i \<noteq> None"
  shows "rb_stream b1 = rb_stream b \<and> rb_seq b1 = rb_seq b \<and> rb_delivered b1 = rb_delivered b \<and> live b1 = live b \<and> dead b1 = dead b
    \<and> (x = None \<longrightarrow> (\<forall>e \<in> set (rb_stream b). en_id e \<noteq> i)) \<and> (\<forall>e. x = Some e \<longrightarrow> e \<in> set (rb_stream b) \<and> en_id e = i)"
proof -
  have b1: "b1 = b\<lparr>rb_pel := AList.update i consumer (rb_pel b)\<rparr>" "x = find (\<lambda>e. en_id e = i) (rb_stream b)"
    using assms(1) by (auto simp: xautoclaim_def)
  have "is_live b1 e = is_live b e" for e using assms(2) by (auto simp: is_live_def b1 update_conv')
  then show ?thesis by (auto simp: live_def dead_def b1 find_None_iff dest: find_SomeD)
qed

definition receives :: "redis_broker \<Rightarrow> op_handle option \<Rightarrow> redis_broker \<Rightarrow> bool" where
  "receives b h b' \<longleftrightarrow> stream_ok b' \<and> covers {#} b b' \<and> (\<forall>x. handle_ok b x \<longrightarrow> handle_ok b' x) \<and> (\<forall>x. h = Some x \<longrightarrow> handle_ok b' x)"

lemma covers_refl [simp]: "covers m b b"
  by (simp add: covers_def)

lemma covers_trans: "covers {#} b b1 \<Longrightarrow> covers {#} b1 b2 \<Longrightarrow> covers {#} b b2"
  unfolding covers_def by (auto intro: subset_mset.order_trans)

lemma receives_after:
  assumes "stream_ok b1" and "rb_stream b1 = rb_stream b" and "rb_seq b1 = rb_seq b" and "covers {#} b b1" and "receives b1 h b2"
  shows "receives b h b2"
  using assms covers_trans [of b b1 b2] by (auto simp: receives_def handle_ok_def)

lemma handle_of_entry:
  "stream_ok b \<Longrightarrow> e \<in> set (rb_stream b) \<Longrightarrow> en_op e = Op op \<Longrightarrow> handle_ok b \<lparr>oh_id = en_id e, oh_op = op, oh_attempt = a\<rparr>"
  using entry_unique [of b e] entry_old [of b e] by (auto simp: handle_ok_def)

lemma receives_requeue:
  assumes "stream_ok b" and "e \<in> set (rb_stream b)" and "untrimmed cfg"
  shows "receives b None (requeue_not_due cfg e b)"
  using covers_requeue [OF assms] stream_ok_xadd [OF assms(1,3)] handle_ok_xadd [OF assms(3)]
  by (simp add: receives_def requeue_not_due_def)

lemma receives_reject:
  assumes "stream_ok b" and "e \<in> set (rb_stream b)" and "untrimmed cfg"
  shows "receives b None (reject_entry cfg e b)"
  using covers_to_dlq [OF assms] assms(1) by (simp add: receives_def reject_entry_def)

lemma receives_claim_operation:
  assumes "stream_ok b" and "e \<in> set (rb_stream b)" and "untrimmed cfg" and "en_op e = Op op" and "claim_operation cfg e op b = (h, b')"
  shows "receives b h b'"
proof -
  let ?b = "hincrby (en_id e) b"
  have dlq: "covers {#} ?b (xack (en_id e) (xadd_dlq cfg d ?b))" if "dl_op d = en_op e" for d
    by (rule covers_to_dlq) (use assms that in simp_all)
  show ?thesis
    using assms handle_of_entry [OF assms(1,2,4)] dlq
    by (auto simp: claim_operation_def Let_def receives_def covers_hincrby split: if_splits)
qed

lemma receives_read:
  assumes ok: "stream_ok b" and cfg: "untrimmed cfg" and run: "RedisBroker_read cfg now consumer b = (h, b')"
  shows "receives b h b'"
proof -
  obtain x b1 where x: "xreadgroup consumer b = (x, b1)" by fastforce
  note b1 = xreadgroup_covers [OF ok x]
  show ?thesis
  proof (cases x)
    case None
    with run x b1 show ?thesis by (auto simp: RedisBroker_read_def receives_def handle_ok_def)
  next
    case (Some e)
    with b1 have e: "stream_ok b1" "e \<in> set (rb_stream b1)" by auto
    have "receives b1 h b'"
      using run x Some receives_requeue [OF e cfg] receives_reject [OF e cfg] handle_of_entry [OF e] e(1)
      by (auto simp: RedisBroker_read_def receives_def split: if_splits payload.splits)
    with b1 receives_after show ?thesis by blast
  qed
qed

lemma receives_claim:
  assumes ok: "stream_ok b" and cfg: "untrimmed cfg" and run: "RedisBroker_claim cfg now consumer pick b = (h, b')"
  shows "receives b h b'"
proof (cases "\<exists>i. pick = Some i \<and> map_of (rb_pel b) i \<noteq> None")
  case False
  with run ok show ?thesis by (auto simp: RedisBroker_claim_def receives_def covers_def split: option.splits if_splits)
next
  case True
  then obtain i where i: "pick = Some i" "map_of (rb_pel b) i \<noteq> None" by blast
  obtain x b1 where x: "xautoclaim i consumer b = (x, b1)" by fastforce
  note b1 = xautoclaim_covers [OF x i(2)]
  then have ok1: "stream_ok b1" and c1: "covers {#} b b1" using ok by (auto simp: stream_ok_def covers_def)
  have "receives b1 h b'"
  proof (cases x)
    case None
    with b1 have "live b1 \<subseteq># live (xack i b1) + {#}" by (intro live_xack [OF ok1]) auto
    with run x i None ok1 show ?thesis by (auto simp: RedisBroker_claim_def receives_def covers_def)
  next
    case (Some e)
    with b1 have e: "e \<in> set (rb_stream b1)" by auto
    show ?thesis
      using run x i Some receives_requeue [OF ok1 e cfg] receives_reject [OF ok1 e cfg] receives_claim_operation [OF ok1 e cfg]
      by (auto simp: RedisBroker_claim_def split: if_splits payload.splits)
  qed
  with b1 ok1 c1 receives_after show ?thesis by blast
qed

section \<open>Trimming\<close>

lemma trim_ok:
  "stream_ok b \<Longrightarrow> stream_ok (trim_streams k l b)" "handle_ok b h \<Longrightarrow> handle_ok (trim_streams k l b) h"
  by (auto simp: stream_ok_def handle_ok_def trim_streams_def drop_map sorted_wrt_drop dest: in_set_dropD simp flip: drop_map)

lemma sum_drop: "sum_list (map f (drop k xs)) \<subseteq># (sum_list (map f xs) :: 'a multiset)"
proof -
  have "sum_list (map f (take k xs @ drop k xs)) = sum_list (map f (take k xs)) + sum_list (map f (drop k xs))" by (simp only: map_append sum_list_append)
  then show ?thesis by simp
qed

lemma trim_part: "live (trim_streams k l b) \<subseteq># live b" "dead (trim_streams k l b) \<subseteq># dead b"
proof -
  have "live (trim_streams k l b) = sum_list (map (\<lambda>e. if is_live b e then op_mset (en_op e) else {#}) (drop k (rb_stream b)))"
    by (simp add: live_def trim_streams_def is_live_def)
  then show "live (trim_streams k l b) \<subseteq># live b" using sum_drop by (simp add: live_def)
  show "dead (trim_streams k l b) \<subseteq># dead b" unfolding dead_def trim_streams_def using sum_drop by simp
qed

section \<open>The invariant\<close>

text \<open>Where an operation may be.\<close>

definition accounted :: "deliveries \<Rightarrow> run_op multiset" where
  "accounted d = live (de_broker d) + dead (de_broker d) + de_done d + image_mset oh_op (de_retrying d) + de_broken d + de_trimmed d"

definition delivery_inv :: "deliveries \<Rightarrow> bool" where
  "delivery_inv d \<longleftrightarrow> stream_ok (de_broker d) \<and> (\<forall>h \<in> set (de_held d) \<union> set_mset (de_burying d). handle_ok (de_broker d) h)
     \<and> de_submitted d + image_mset oh_op (de_burying d) \<subseteq># accounted d"

lemma delivery_init_inv: "delivery_inv delivery_init"
  by (simp add: delivery_inv_def delivery_init_def RedisBroker_init_def stream_ok_def)

lemma held_remove: "h' \<in> set (remove1 h hs) \<Longrightarrow> h' \<in> set hs"
  using set_remove1_subset by fastforce

lemma burying_remove: "h \<in># B \<Longrightarrow> image_mset oh_op B = image_mset oh_op (B - {#h#}) + {#oh_op h#}"
  by (metis add_mset_add_single image_mset_add_mset insert_DiffM)

text \<open>A step that changes only the broker and the handles, and loses nothing.\<close>

lemma covers_inv:
  assumes inv: "delivery_inv d" and ok: "stream_ok b" "\<forall>h \<in> set hs \<union> set_mset (de_burying d). handle_ok b h"
    and c: "covers {#} (de_broker d) b"
  shows "delivery_inv (d\<lparr>de_broker := b, de_held := hs\<rparr>)"
proof -
  let ?r = "de_done d + image_mset oh_op (de_retrying d) + de_broken d + de_trimmed d"
  have "live (de_broker d) + dead (de_broker d) + ?r \<subseteq># live b + dead b + ?r"
    using c by (simp add: covers_def)
  then have "accounted d \<subseteq># accounted (d\<lparr>de_broker := b, de_held := hs\<rparr>)" by (simp add: accounted_def ac_simps)
  with inv ok show ?thesis by (auto simp: delivery_inv_def intro: subset_mset.order_trans)
qed

lemma receives_inv:
  assumes "delivery_inv d" and "receives (de_broker d) h b"
  shows "delivery_inv (d\<lparr>de_broker := b, de_held := handed h @ de_held d\<rparr>)"
  by (rule covers_inv [OF assms(1)]) (use assms in \<open>auto simp: delivery_inv_def receives_def handed_def split: option.splits\<close>)

lemma broker_inv:
  assumes "delivery_inv d" and "stream_ok b" "\<And>h. handle_ok (de_broker d) h \<Longrightarrow> handle_ok b h" "covers {#} (de_broker d) b"
  shows "delivery_inv (d\<lparr>de_broker := b\<rparr>)"
  using covers_inv [OF assms(1,2) _ assms(4), of "de_held d"] assms(1,3) by (auto simp: delivery_inv_def)

text \<open>A step that adds \<open>m\<close> to the claims and takes \<open>m'\<close> away.\<close>

lemma account_inv:
  assumes inv: "delivery_inv d" and ok: "stream_ok (de_broker d')" "\<And>h. handle_ok (de_broker d) h \<Longrightarrow> handle_ok (de_broker d') h"
    and held: "set (de_held d') \<union> set_mset (de_burying d') \<subseteq> set (de_held d) \<union> set_mset (de_burying d)"
    and claims: "de_submitted d' + image_mset oh_op (de_burying d') + m' = de_submitted d + image_mset oh_op (de_burying d) + m"
    and account: "accounted d + m \<subseteq># accounted d' + m'"
  shows "delivery_inv d'"
proof -
  have "de_submitted d + image_mset oh_op (de_burying d) + m \<subseteq># accounted d + m" using inv by (simp add: delivery_inv_def)
  also note account
  finally have "de_submitted d' + image_mset oh_op (de_burying d') \<subseteq># accounted d'" unfolding claims [symmetric] by simp
  with inv ok held show ?thesis unfolding delivery_inv_def by blast
qed

lemma inv_handle: "delivery_inv d \<Longrightarrow> h \<in> set (de_held d) \<union> set_mset (de_burying d) \<Longrightarrow>
    live (de_broker d) \<subseteq># live (xack (oh_id h) (de_broker d)) + {#oh_op h#}"
  unfolding delivery_inv_def by (intro live_ack) blast+

lemma inv_stream: "delivery_inv d \<Longrightarrow> stream_ok (de_broker d)"
  by (simp add: delivery_inv_def)

lemma submit_inv:
  assumes "delivery_inv d"
  shows "delivery_inv (d\<lparr>de_broker := RedisBroker_run_task (plain cfg) params new rc (de_broker d),
    de_submitted := add_mset (serialize_operation params new (opt_list rc)) (de_submitted d)\<rparr>)"
  by (rule account_inv [OF assms, where m = "{#serialize_operation params new (opt_list rc)#}" and m' = "{#}"])
    (use inv_stream [OF assms] in \<open>simp_all add: RedisBroker_run_task_def accounted_def live_xadd stream_ok_xadd handle_ok_xadd\<close>)

lemma ack_inv:
  assumes "delivery_inv d" and "h \<in> set (de_held d)"
  shows "delivery_inv (d\<lparr>de_broker := RedisOperationHandle_ack h (de_broker d), de_held := remove1 h (de_held d),
    de_done := add_mset (oh_op h) (de_done d)\<rparr>)"
proof (rule account_inv [OF assms(1), where m = "{#}" and m' = "{#}"])
  show "accounted d + {#} \<subseteq># accounted (d\<lparr>de_broker := RedisOperationHandle_ack h (de_broker d), de_held := remove1 h (de_held d),
    de_done := add_mset (oh_op h) (de_done d)\<rparr>) + {#}"
    using inv_handle [OF assms(1), of h] assms(2) by (simp add: accounted_def RedisOperationHandle_ack_def)
qed (use inv_stream [OF assms(1)] held_remove in \<open>auto simp: RedisOperationHandle_ack_def\<close>)

lemma retry_inv:
  assumes "delivery_inv d" and "h \<in> set (de_held d)"
  shows "delivery_inv (d\<lparr>de_broker := nack_first h (de_broker d), de_held := remove1 h (de_held d),
    de_retrying := add_mset h (de_retrying d)\<rparr>)"
proof (rule account_inv [OF assms(1), where m = "{#}" and m' = "{#}"])
  show "accounted d + {#} \<subseteq># accounted (d\<lparr>de_broker := nack_first h (de_broker d), de_held := remove1 h (de_held d),
    de_retrying := add_mset h (de_retrying d)\<rparr>) + {#}"
    using inv_handle [OF assms(1), of h] assms(2) by (simp add: accounted_def nack_first_def)
qed (use inv_stream [OF assms(1)] held_remove in \<open>auto simp: nack_first_def\<close>)

lemma retry_again_inv:
  assumes "delivery_inv d" and "h \<in># de_retrying d"
  shows "delivery_inv (d\<lparr>de_broker := nack_again (plain cfg) now delay h (de_broker d), de_retrying := de_retrying d - {#h#}\<rparr>)"
  by (rule account_inv [OF assms(1), where m = "{#}" and m' = "{#}"])
    (use inv_stream [OF assms(1)] burying_remove [OF assms(2)]
     in \<open>simp_all add: nack_again_def accounted_def live_xadd stream_ok_xadd handle_ok_xadd\<close>)

lemma bury_inv:
  assumes "delivery_inv d" and "h \<in> set (de_held d)"
  shows "delivery_inv (d\<lparr>de_broker := nack_bury (plain cfg) h (de_broker d), de_held := remove1 h (de_held d),
    de_burying := add_mset h (de_burying d)\<rparr>)"
  by (rule account_inv [OF assms(1), where m = "{#oh_op h#}" and m' = "{#}"])
    (use inv_stream [OF assms(1)] assms(2) in \<open>auto simp: nack_bury_def accounted_def dead_xadd_dlq dest: held_remove\<close>)

lemma buried_inv:
  assumes "delivery_inv d" and "h \<in># de_burying d"
  shows "delivery_inv (d\<lparr>de_broker := clear_crash_count (oh_id h) (xack (oh_id h) (de_broker d)), de_burying := de_burying d - {#h#}\<rparr>)"
proof (rule account_inv [OF assms(1), where m = "{#}" and m' = "{#oh_op h#}"])
  show "accounted d + {#} \<subseteq># accounted (d\<lparr>de_broker := clear_crash_count (oh_id h) (xack (oh_id h) (de_broker d)),
    de_burying := de_burying d - {#h#}\<rparr>) + {#oh_op h#}"
    using inv_handle [OF assms(1), of h] assms(2) by (simp add: accounted_def)
qed (use inv_stream [OF assms(1)] burying_remove [OF assms(2)] in \<open>auto dest: in_diffD\<close>)

lemma trim_inv:
  assumes "delivery_inv d" and "b = trim_streams k l (de_broker d)"
  shows "delivery_inv (d\<lparr>de_broker := b, de_trimmed := de_trimmed d + (live (de_broker d) - live b) + (dead (de_broker d) - dead b)\<rparr>)"
proof -
  obtain x y where xy: "live (de_broker d) = live b + x" "dead (de_broker d) = dead b + y"
    using trim_part [of k l "de_broker d"] assms(2) by (auto simp: subset_mset.le_iff_add)
  show ?thesis
    by (rule account_inv [OF assms(1), where m = "{#}" and m' = "{#}"])
      (use xy assms(2) trim_ok inv_stream [OF assms(1)] in \<open>simp_all add: accounted_def ac_simps\<close>)
qed

lemma crash_inv:
  assumes "delivery_inv d" and "set held \<subseteq> set (de_held d)" and "rs \<subseteq># de_retrying d" and "bs \<subseteq># de_burying d"
  shows "delivery_inv (d\<lparr>de_held := held, de_retrying := rs, de_burying := bs,
    de_broken := de_broken d + image_mset oh_op (de_retrying d - rs)\<rparr>)"
proof -
  obtain x y where x: "de_retrying d = rs + x" "de_burying d = bs + y" using assms(3,4) by (auto simp: subset_mset.le_iff_add)
  show ?thesis
    by (rule account_inv [OF assms(1), where m = "{#}" and m' = "image_mset oh_op y"])
      (use x assms(2) inv_stream [OF assms(1)] in \<open>auto simp: accounted_def ac_simps\<close>)
qed

lemma bstep_inv:
  assumes "bstep cfg n d d'" and inv: "delivery_inv d"
  shows "delivery_inv d'"
  using assms(1)
proof cases
  case submit
  then show ?thesis using submit_inv [OF inv] by simp
next
  case (read now consumer h b)
  from receives_inv [OF inv receives_read [OF inv_stream [OF inv] untrimmed_plain this(2)]] show ?thesis unfolding read(1) .
next
  case (claim now consumer pick h b)
  from receives_inv [OF inv receives_claim [OF inv_stream [OF inv] untrimmed_plain this(2)]] show ?thesis unfolding claim(1) .
next
  case (read_broken consumer x b)
  have ok: "stream_ok (de_broker d)" using inv by (simp add: delivery_inv_def)
  show ?thesis unfolding read_broken(1)
    by (rule broker_inv [OF inv]) (use xreadgroup_covers [OF ok read_broken(2)] in \<open>auto simp: handle_ok_def\<close>)
next
  case (claim_broken i consumer x b)
  show ?thesis unfolding claim_broken(1)
    by (rule broker_inv [OF inv]) (use xautoclaim_covers [OF claim_broken(3,2)] inv in \<open>auto simp: delivery_inv_def stream_ok_def handle_ok_def covers_def\<close>)
next
  case (count_broken i)
  show ?thesis unfolding count_broken
    by (rule broker_inv [OF inv]) (use inv in \<open>auto simp: delivery_inv_def covers_def\<close>)
next
  case (move_broken e l)
  show ?thesis unfolding move_broken(1)
    by (rule broker_inv [OF inv]) (use inv dead_xadd_dlq [of "plain cfg" l "de_broker d"] in \<open>auto simp: delivery_inv_def covers_def\<close>)
qed (use ack_inv [OF inv] retry_inv [OF inv] retry_again_inv [OF inv] bury_inv [OF inv] buried_inv [OF inv] trim_inv [OF inv]
  crash_inv [OF inv] in simp_all)

lemma delivery_run_inv: "delivery_run cfg n d \<Longrightarrow> delivery_inv d"
  by (induction rule: delivery_run.induct) (auto simp: delivery_init_inv intro: bstep_inv)

lemma delivery_run_account:
  assumes "delivery_run cfg n d"
  shows "de_submitted d \<subseteq># accounted d"
proof -
  have "de_submitted d \<subseteq># de_submitted d + image_mset oh_op (de_burying d)" by simp
  also have "\<dots> \<subseteq># accounted d" using delivery_run_inv [OF assms] by (simp add: delivery_inv_def)
  finally show ?thesis .
qed

end
