(* ===== verification/Redis_Broker_Properties.thy ===== *)
theory Redis_Broker_Properties
  imports Redis_Broker_Laws Storage_Properties
begin

text \<open>
  What the Redis broker and cancel registry promise: at-least-once delivery, an end for operations whose consumers always crash, and
  cancellations that no scope misses.
\<close>

section \<open>At least once\<close>


definition sample_config :: broker_config where
  "sample_config = \<lparr>bc_max_retries = 3, bc_trim = id, bc_trim_dlq = id\<rparr>"

definition queued_request :: send_request where
  "queued_request = \<lparr>sr_message = sample_message, sr_configuration = None, sr_tenant = None\<rparr>"

definition queued_op :: run_op where
  "queued_op = serialize_operation queued_request True []"

text \<open>The operation is submitted, one consumer reads it and crashes.\<close>

definition after_read :: redis_broker where
  "after_read = snd (RedisBroker_read sample_config 0 ''w1'' (RedisBroker_run_task sample_config queued_request True None RedisBroker_init))"

lemma sample_read:
  "RedisBroker_read sample_config 0 ''w1'' (RedisBroker_run_task sample_config queued_request True None RedisBroker_init)
    = (Some \<lparr>oh_id = 1, oh_op = queued_op, oh_attempt = 1\<rparr>, after_read)"
  "rb_stream after_read = [\<lparr>en_id = 1, en_op = Op queued_op, en_attempt = 1, en_not_before = None\<rparr>]"
  "rb_pel after_read = [(1, ''w1'')]" "rb_delivered after_read = 1" "rb_seq after_read = 2" "rb_dlq after_read = []" "rb_crash after_read = []"
  by (simp_all add: after_read_def RedisBroker_read_def RedisBroker_run_task_def RedisBroker_init_def xadd_def sample_config_def
    xreadgroup_def not_due_def queued_op_def)

lemma sample_untrimmed: "untrimmed sample_config"
  by (simp add: untrimmed_def sample_config_def)


text \<open>A retry that breaks off after its first command has lost the operation: it is neither live nor dead.\<close>

lemma nack_gap:
  "queued_op \<in># live after_read" "live (nack_first \<lparr>oh_id = 1, oh_op = queued_op, oh_attempt = 1\<rparr> after_read) = {#}"
  "dead (nack_first \<lparr>oh_id = 1, oh_op = queued_op, oh_attempt = 1\<rparr> after_read) = {#}"
  by (simp_all add: live_def dead_def nack_first_def xack_def is_live_def sample_read)

section \<open>Operations whose consumers crash\<close>

definition claim_round :: "broker_config \<Rightarrow> int \<Rightarrow> string \<Rightarrow> nat \<Rightarrow> redis_broker \<Rightarrow> redis_broker" where
  "claim_round cfg now consumer i b = snd (RedisBroker_claim cfg now consumer (Some i) b)"

lemma claim_round_step:
  fixes consumer :: string
  assumes e: "find (\<lambda>e. en_id e = i) (rb_stream b) = Some e" "en_op e = Op op" "\<not> not_due now e"
    and pel: "map_of (rb_pel b) i \<noteq> None" and cfg: "untrimmed cfg"
  defines "b' \<equiv> claim_round cfg now consumer i b"
  shows "if en_attempt e + crash_count i b + 1 > bc_max_retries cfg
    then map_of (rb_pel b') i = None \<and> op \<in># dead b'
    else rb_stream b' = rb_stream b \<and> map_of (rb_pel b') i \<noteq> None \<and> crash_count i b' = crash_count i b + 1"
proof -
  have i: "en_id e = i" using find_SomeD [OF e(1)] by simp
  show ?thesis
    using e pel cfg i
    by (auto simp: b'_def claim_round_def RedisBroker_claim_def xautoclaim_def claim_operation_def hincrby_def crash_count_def Let_def
      xack_def clear_crash_count_def xadd_dlq_def dead_def untrimmed_def delete_conv')
qed

text \<open>Property C17: poison pills end. If every consumer that gets an operation crashes, the entry is claimed again only until its
  attempts and claims exceed the limit: after at most \<open>max_retries - attempt - claims + 1\<close> further claims it is no longer pending and
  stands in the dead-letter queue.\<close>

theorem poison_pill_ends:
  assumes "find (\<lambda>e. en_id e = i) (rb_stream b) = Some e" and "en_op e = Op op" and "\<not> not_due now e"
    and "map_of (rb_pel b) i \<noteq> None" and "untrimmed cfg"
  shows "\<exists>k \<le> nat (bc_max_retries cfg - en_attempt e - crash_count i b) + 1.
    map_of (rb_pel ((claim_round cfg now consumer i ^^ k) b)) i = None \<and> op \<in># dead ((claim_round cfg now consumer i ^^ k) b)"
  using assms
proof (induction "nat (bc_max_retries cfg - en_attempt e - crash_count i b)" arbitrary: b)
  case 0
  with claim_round_step [OF 0(2-6), where consumer = consumer] show ?case by (intro exI [of _ 1]) simp
next
  case (Suc n)
  let ?b = "claim_round cfg now consumer i b"
  from claim_round_step [OF Suc(3-7), where consumer = consumer] Suc(2) have step: "rb_stream ?b = rb_stream b" "map_of (rb_pel ?b) i \<noteq> None"
    "crash_count i ?b = crash_count i b + 1" by (simp_all split: if_splits)
  have "n = nat (bc_max_retries cfg - en_attempt e - crash_count i ?b)" using Suc(2) step(3) by simp
  from Suc(1) [OF this] Suc(3-7) step obtain k where "k \<le> nat (bc_max_retries cfg - en_attempt e - crash_count i ?b) + 1"
    "map_of (rb_pel ((claim_round cfg now consumer i ^^ k) ?b)) i = None" "op \<in># dead ((claim_round cfg now consumer i ^^ k) ?b)" by auto
  with Suc(2) step(3) show ?case by (intro exI [of _ "Suc k"]) (simp add: funpow_Suc_right del: funpow.simps)
qed

theorem poison_pill_ends_witness:
  "\<exists>k \<le> 3. map_of (rb_pel ((claim_round sample_config 0 ''w2'' 1 ^^ k) after_read)) 1 = None
    \<and> queued_op \<in># dead ((claim_round sample_config 0 ''w2'' 1 ^^ k) after_read)"
proof -
  have "crash_count 1 after_read = 0" "bc_max_retries sample_config = 3"
    by (simp_all add: crash_count_def sample_read sample_config_def)
  with poison_pill_ends [of 1 after_read "\<lparr>en_id = 1, en_op = Op queued_op, en_attempt = 1, en_not_before = None\<rparr>" queued_op 0
    sample_config "''w2''"] sample_untrimmed show ?thesis by (simp add: sample_read not_due_def)
qed

section \<open>Cancellation\<close>

text \<open>The commands of any number of cancellation requests and scopes, in any order.\<close>

datatype cancel_command = Cmd_set string | Cmd_publish string | Cmd_scope string | Cmd_start nat

fun cancel_exec :: "cancel_command \<Rightarrow> redis_cancel \<Rightarrow> redis_cancel" where
  "cancel_exec (Cmd_set tid) r = set_key tid r"
| "cancel_exec (Cmd_publish tid) r = publish tid r"
| "cancel_exec (Cmd_scope tid) r = RedisCancelRegistry_on_cancel tid r"
| "cancel_exec (Cmd_start i) r = scope_step i r"

text \<open>Each request sets its key before it publishes.\<close>

definition set_before_publish :: "cancel_command list \<Rightarrow> bool" where
  "set_before_publish cs \<longleftrightarrow> (\<forall>n < length cs. \<forall>tid. cs ! n = Cmd_publish tid \<longrightarrow> Cmd_set tid \<in> set (take n cs))"

definition cancel_init :: redis_cancel where
  "cancel_init = \<lparr>rc_keys = [], rc_scopes = []\<rparr>"

lemma exec_keys: "set (rc_keys (cancel_exec c r)) = set (rc_keys r) \<union> {tid. c = Cmd_set tid}"
  by (cases c) (auto simp: set_key_def publish_def RedisCancelRegistry_on_cancel_def scope_step_def)

lemma exec_told:
  assumes "\<forall>s \<in> set (rc_scopes r). cs_phase s = Listening \<and> cs_task s \<in> pub \<longrightarrow> cs_event s" and "pub \<subseteq> set (rc_keys r)"
  shows "\<forall>s \<in> set (rc_scopes (cancel_exec c r)). cs_phase s = Listening \<and> cs_task s \<in> pub \<union> {tid. c = Cmd_publish tid} \<longrightarrow> cs_event s"
proof (cases c)
  case (Cmd_set tid)
  with assms show ?thesis by (simp add: set_key_def)
next
  case (Cmd_publish tid)
  with assms show ?thesis by (auto simp: publish_def)
next
  case (Cmd_scope tid)
  with assms show ?thesis by (auto simp: RedisCancelRegistry_on_cancel_def)
next
  case (Cmd_start i)
  have "cs_event s" if s: "s \<in> set (rc_scopes (scope_step i r))" "cs_phase s = Listening" "cs_task s \<in> pub" for s
  proof (cases "i < length (rc_scopes r)")
    case True
    with s(1) consider "s \<in> set (rc_scopes r)" | "s = start_step r (rc_scopes r ! i)" "rc_scopes r ! i \<in> set (rc_scopes r)"
      using set_update_subset_insert [of "rc_scopes r" i] by (force simp: scope_step_def)
    then show ?thesis using s(2,3) assms by cases (auto simp: start_step_def split: scope_phase.splits if_splits)
  next
    case False
    with s assms(1) show ?thesis by (auto simp: scope_step_def)
  qed
  with Cmd_start show ?thesis by simp
qed

lemma fold_keys: "set (rc_keys (fold cancel_exec cs r)) = set (rc_keys r) \<union> {tid. Cmd_set tid \<in> set cs}"
  by (induction cs arbitrary: r) (auto simp: exec_keys)

text \<open>Property C18: no scope misses a cancellation. However the commands of cancellation requests and of starting scopes interleave,
  a scope that has finished starting has its event set if a request for its task has been published: either the scope was
  subscribed by then, or the key it looks for after subscribing was set before.\<close>

theorem no_cancel_missed:
  assumes "set_before_publish cs" and "Cmd_publish tid \<in> set cs"
    and "s \<in> set (rc_scopes (fold cancel_exec cs cancel_init))" and "cs_task s = tid" and "cs_phase s = Listening"
  shows "cs_event s"
proof -
  have "\<forall>s \<in> set (rc_scopes (fold cancel_exec cs cancel_init)). cs_phase s = Listening \<and> cs_task s \<in> {tid. Cmd_publish tid \<in> set cs} \<longrightarrow> cs_event s"
    using assms(1)
  proof (induction cs rule: rev_induct)
    case (snoc c cs)
    have ordered: "set_before_publish cs"
      unfolding set_before_publish_def
    proof (intro allI impI)
      fix n tid
      assume n: "n < length cs" "cs ! n = Cmd_publish tid"
      with snoc.prems show "Cmd_set tid \<in> set (take n cs)"
        unfolding set_before_publish_def by (force simp: nth_append dest!: spec [of _ n])
    qed
    have "{tid. Cmd_publish tid \<in> set cs} \<subseteq> {tid. Cmd_set tid \<in> set cs}"
    proof
      fix tid
      assume "tid \<in> {tid. Cmd_publish tid \<in> set cs}"
      then obtain n where "n < length cs" "cs ! n = Cmd_publish tid" by (auto simp: in_set_conv_nth)
      with ordered have "Cmd_set tid \<in> set (take n cs)" by (simp add: set_before_publish_def)
      then show "tid \<in> {tid. Cmd_set tid \<in> set cs}" using set_take_subset [of n cs] by blast
    qed
    then have "{tid. Cmd_publish tid \<in> set cs} \<subseteq> set (rc_keys (fold cancel_exec cs cancel_init))" by (auto simp: fold_keys)
    note told = exec_told [OF snoc.IH [OF ordered] this, of c]
    have "{tid. Cmd_publish tid \<in> set (cs @ [c])} = {tid. Cmd_publish tid \<in> set cs} \<union> {tid. c = Cmd_publish tid}" by auto
    with told show ?case by (simp only: fold_append fold_simps comp_apply)
  qed (simp add: cancel_init_def)
  with assms show ?thesis by blast
qed

text \<open>The witness: the request falls between the first look for the key and the subscription.\<close>

theorem no_cancel_missed_witness:
  "\<exists>s \<in> set (rc_scopes (fold cancel_exec [Cmd_scope ''t1'', Cmd_start 0, Cmd_set ''t1'', Cmd_publish ''t1'', Cmd_start 0, Cmd_start 0]
    cancel_init)). cs_task s = ''t1'' \<and> cs_event s"
proof -
  let ?cs = "[Cmd_scope ''t1'', Cmd_start 0, Cmd_set ''t1'', Cmd_publish ''t1'', Cmd_start 0, Cmd_start 0]"
  have ordered: "set_before_publish ?cs"
    by (auto simp: set_before_publish_def less_Suc_eq nth_Cons' split: if_splits)
  obtain s where s: "s \<in> set (rc_scopes (fold cancel_exec ?cs cancel_init))" "cs_task s = ''t1''" "cs_phase s = Listening"
    by (simp add: RedisCancelRegistry_on_cancel_def cancel_init_def scope_step_def start_step_def set_key_def publish_def)
  from no_cancel_missed [OF ordered _ s] s show ?thesis by force
qed

end
