(* ===== verification/Event_Bus_Redis.thy ===== *)
theory Event_Bus_Redis
  imports Event_Bus
begin

text \<open>
  \<^verbatim>\<open>event_bus/redis.py\<close>: the event bus on Redis streams with a channel for wake-ups. Entries have consecutive numbers; \<open>trim\<close> is
  what \<^verbatim>\<open>MAXLEN ~\<close> lets the server keep. How the pydantic models are turned into JSON values and back is a parameter, the
  \<open>codec\<close>. A subscription is a machine with one step per \<^verbatim>\<open>XRANGE\<close>: replay, gap-fill, then live, where a step is taken on a wake-up
  or a safety poll. Everything other clients publish may come between two steps. The expiry of a stream is not modelled.
\<close>

section \<open>Events on the wire\<close>

record 'j event_codec =
  dump_message :: "message \<Rightarrow> 'j"
  dump_status :: "status_event \<Rightarrow> 'j"
  dump_artifact :: "artifact_event \<Rightarrow> 'j"
  dump_task :: "task \<Rightarrow> 'j"
  load_message :: "'j \<Rightarrow> exn + message"
  load_status :: "'j \<Rightarrow> exn + status_event"
  load_artifact :: "'j \<Rightarrow> exn + artifact_event"
  load_task_json :: "'j \<Rightarrow> exn + task"

text \<open>An entry is a JSON object, the values of which are tags or dumped models, or some other text.\<close>

datatype 'j wire_value = Tag string | Model 'j

datatype 'j wire_object = Obj "(string \<times> 'j wire_value) list" | Not_object

definition tagged :: "string \<Rightarrow> string \<Rightarrow> 'j \<Rightarrow> 'j wire_object" where
  "tagged tag field x = Obj [(''_event_type'', Tag tag), (field, Model x)]"

fun serialize_event :: "'j event_codec \<Rightarrow> stream_event \<Rightarrow> 'j wire_object" where
  "serialize_event c (DirectReply m) = tagged ''direct_reply'' ''message'' (dump_message c m)"
| "serialize_event c (TerminalMarker e) = tagged ''terminal_marker'' ''event'' (dump_status c e)"
| "serialize_event c (TaskStatusUpdateEvent e) = tagged ''status_update'' ''event'' (dump_status c e)"
| "serialize_event c (TaskArtifactUpdateEvent e) = tagged ''artifact_update'' ''event'' (dump_artifact c e)"
| "serialize_event c (TaskSnapshot t) = tagged ''task'' ''task'' (dump_task c t)"
| "serialize_event c (MessageEvent m) = tagged ''message'' ''message'' (dump_message c m)"

definition field_of :: "(string \<times> 'j wire_value) list \<Rightarrow> string \<Rightarrow> ('j \<Rightarrow> exn + 'a) \<Rightarrow> ('a \<Rightarrow> stream_event) \<Rightarrow> exn + stream_event" where
  "field_of d k load f = (case map_of d k of None \<Rightarrow> Inl (BackendError ''KeyError'')
     | Some (Tag _) \<Rightarrow> Inl (BackendError ''ValidationError'') | Some (Model j) \<Rightarrow> map_sum id f (load j))"

fun deserialize_event :: "'j event_codec \<Rightarrow> 'j wire_object \<Rightarrow> exn + stream_event" where
  "deserialize_event c (Obj raw) =
     (let tag = map_of raw ''_event_type'' in
      if tag = Some (Tag ''direct_reply'') then field_of raw ''message'' (load_message c) DirectReply
      else if tag = Some (Tag ''terminal_marker'') then field_of raw ''event'' (load_status c) TerminalMarker
      else if tag = Some (Tag ''status_update'') then field_of raw ''event'' (load_status c) TaskStatusUpdateEvent
      else if tag = Some (Tag ''artifact_update'') then field_of raw ''event'' (load_artifact c) TaskArtifactUpdateEvent
      else if tag = Some (Tag ''task'') then field_of raw ''task'' (load_task_json c) TaskSnapshot
      else if tag = Some (Tag ''message'') then field_of raw ''message'' (load_message c) MessageEvent
      else Inl (ValueError ''Cannot deserialize event''))"
| "deserialize_event c Not_object = Inl (BackendError ''AttributeError'')"

section \<open>Publishing\<close>

record 'j redis_bus =
  es_streams :: "(string, (nat \<times> 'j wire_object) list) pydict"
  es_seq :: nat

definition stream_of :: "string \<Rightarrow> 'j redis_bus \<Rightarrow> (nat \<times> 'j wire_object) list" where
  "stream_of tid bus = (case map_of (es_streams bus) tid of None \<Rightarrow> [] | Some es \<Rightarrow> es)"

definition RedisEventBus_publish ::
  "((nat \<times> 'j wire_object) list \<Rightarrow> (nat \<times> 'j wire_object) list) \<Rightarrow> 'j event_codec \<Rightarrow> string \<Rightarrow> stream_event \<Rightarrow> 'j redis_bus \<Rightarrow> nat \<times> 'j redis_bus" where
  "RedisEventBus_publish trim c tid ev bus =
     (let eid = Suc (es_seq bus) in
      (eid, bus\<lparr>es_seq := eid, es_streams := AList.update tid (trim (stream_of tid bus @ [(eid, serialize_event c ev)])) (es_streams bus)\<rparr>))"

definition xrange :: "string \<Rightarrow> nat \<Rightarrow> 'j redis_bus \<Rightarrow> (nat \<times> 'j wire_object) list" where
  "xrange tid last_seen bus = filter (\<lambda>(i, _). last_seen < i) (stream_of tid bus)"

section \<open>Subscribing\<close>

datatype bus_phase = Replay | Gap_fill | Live | Finished

record subscription =
  su_last :: nat
  su_phase :: bus_phase
  su_out :: "(nat \<times> stream_event) list"

text \<open>The argument \<^verbatim>\<open>after_event_id\<close>: none, an identifier, or a text that is not one.\<close>

datatype after_id = From_now | After nat | Invalid

text \<open>Without an identifier the position of the stream is noted at once; if the server does not answer that question (\<open>answered\<close>),
  the subscription begins from the start of the stream. An invalid identifier fails in the replay, which is left with
  nothing, and the gap-fill begins from the start.\<close>

definition RedisEventBus_subscribe :: "bool \<Rightarrow> string \<Rightarrow> after_id \<Rightarrow> 'j redis_bus \<Rightarrow> subscription" where
  "RedisEventBus_subscribe answered tid after bus = (case after of
      From_now \<Rightarrow> \<lparr>su_last = (if \<not> answered \<or> stream_of tid bus = [] then 0 else fst (last (stream_of tid bus))),
        su_phase = Gap_fill, su_out = []\<rparr>
    | After i \<Rightarrow> \<lparr>su_last = i, su_phase = Replay, su_out = []\<rparr>
    | Invalid \<Rightarrow> \<lparr>su_last = 0, su_phase = Gap_fill, su_out = []\<rparr>)"

text \<open>Yielding entries up to the end of the task. Replay and gap-fill skip an entry they cannot read; the live phase takes note of
  it and leaves the rest for its next step.\<close>

fun yield_skipping :: "'j event_codec \<Rightarrow> (nat \<times> 'j wire_object) list \<Rightarrow> subscription \<Rightarrow> subscription" where
  "yield_skipping c [] s = s"
| "yield_skipping c ((eid, data) # es) s = (case deserialize_event c data of
      Inl _ \<Rightarrow> yield_skipping c es s
    | Inr ev \<Rightarrow>
        (let s1 = s\<lparr>su_last := eid, su_out := su_out s @ [(eid, ev)]\<rparr> in
         if is_stream_terminal ev then s1\<lparr>su_phase := Finished\<rparr> else yield_skipping c es s1))"

fun yield_live :: "'j event_codec \<Rightarrow> (nat \<times> 'j wire_object) list \<Rightarrow> subscription \<Rightarrow> subscription" where
  "yield_live c [] s = s"
| "yield_live c ((eid, data) # es) s = (case deserialize_event c data of
      Inl _ \<Rightarrow> s\<lparr>su_last := eid\<rparr>
    | Inr ev \<Rightarrow>
        (let s1 = s\<lparr>su_last := eid, su_out := su_out s @ [(eid, ev)]\<rparr> in
         if is_stream_terminal ev then s1\<lparr>su_phase := Finished\<rparr> else yield_live c es s1))"

definition enter :: "bus_phase \<Rightarrow> subscription \<Rightarrow> subscription" where
  "enter p s = (if su_phase s = Finished then s else s\<lparr>su_phase := p\<rparr>)"

definition RedisEventBus_iter_step :: "'j event_codec \<Rightarrow> string \<Rightarrow> 'j redis_bus \<Rightarrow> subscription \<Rightarrow> subscription" where
  "RedisEventBus_iter_step c tid bus s = (let entries = xrange tid (su_last s) bus in
     case su_phase s of
       Replay \<Rightarrow> enter Gap_fill (yield_skipping c entries s)
     | Gap_fill \<Rightarrow> enter Live (yield_skipping c entries s)
     | Live \<Rightarrow> yield_live c entries s
     | Finished \<Rightarrow> s)"

section \<open>Round trip\<close>

definition codec_ok :: "'j event_codec \<Rightarrow> bool" where
  "codec_ok c \<longleftrightarrow> (\<forall>m. load_message c (dump_message c m) = Inr m) \<and> (\<forall>e. load_status c (dump_status c e) = Inr e)
     \<and> (\<forall>e. load_artifact c (dump_artifact c e) = Inr e) \<and> (\<forall>t. load_task_json c (dump_task c t) = Inr t)"

lemma deserialize_serialize: "codec_ok c \<Longrightarrow> deserialize_event c (serialize_event c ev) = Inr ev"
  by (cases ev) (simp_all add: codec_ok_def tagged_def field_of_def Let_def)

end
