(* ===== verification/Redis_Bus_Properties.thy ===== *)
theory Redis_Bus_Properties
  imports Event_Bus_Redis
begin

text \<open>
  A subscriber of the Redis event bus sees the events after its starting point exactly once and in order, across replay, gap-fill
  and live phase, whatever is published between its reads.
\<close>

section \<open>The end of a stream\<close>

fun until_end :: "(nat \<times> stream_event) list \<Rightarrow> (nat \<times> stream_event) list" where
  "until_end [] = []"
| "until_end (x # xs) = (if is_stream_terminal (snd x) then [x] else x # until_end xs)"

definition ended :: "(nat \<times> stream_event) list \<Rightarrow> bool" where
  "ended es \<longleftrightarrow> (\<exists>x \<in> set es. is_stream_terminal (snd x))"

lemma until_end_open: "\<not> ended es \<Longrightarrow> until_end es = es"
  by (induction es) (auto simp: ended_def)

lemma until_end_append: "until_end (xs @ ys) = (if ended xs then until_end xs else xs @ until_end ys)"
  by (induction xs) (auto simp: ended_def)

lemma ended_append [simp]: "ended (xs @ ys) \<longleftrightarrow> ended xs \<or> ended ys"
  by (auto simp: ended_def)

section \<open>Reading\<close>

abbreviation packed :: "'j event_codec \<Rightarrow> (nat \<times> stream_event) list \<Rightarrow> (nat \<times> 'j wire_object) list" where
  "packed c es \<equiv> map (apsnd (serialize_event c)) es"

definition yielded :: "(nat \<times> stream_event) list \<Rightarrow> subscription \<Rightarrow> subscription" where
  "yielded es s = s\<lparr>su_out := su_out s @ until_end es, su_last := (if es = [] then su_last s else fst (last (until_end es))),
     su_phase := (if ended es then Finished else su_phase s)\<rparr>"

lemma until_end_Nil [simp]: "until_end es = [] \<longleftrightarrow> es = []"
  by (cases es) simp_all

lemma yield_packed:
  assumes "codec_ok c"
  shows "yield_skipping c (packed c es) s = yielded es s" and "yield_live c (packed c es) s = yielded es s"
proof -
  have "yield_skipping c (packed c es) s = yielded es s \<and> yield_live c (packed c es) s = yielded es s"
  proof (induction es arbitrary: s)
    case Nil
    then show ?case by (simp add: yielded_def ended_def)
  next
    case (Cons x es)
    then show ?case
      by (cases x) (simp add: deserialize_serialize [OF assms] yielded_def ended_def Let_def)
  qed
  then show "yield_skipping c (packed c es) s = yielded es s" "yield_live c (packed c es) s = yielded es s" by simp_all
qed

text \<open>The history \<open>es\<close> of a task's stream, of which the server has dropped the \<open>d\<close> oldest entries.\<close>

definition stream_holds :: "'j event_codec \<Rightarrow> string \<Rightarrow> 'j redis_bus \<Rightarrow> (nat \<times> stream_event) list \<Rightarrow> nat \<Rightarrow> bool" where
  "stream_holds c tid bus es d \<longleftrightarrow> stream_of tid bus = packed c (drop d es) \<and> d \<le> length es
     \<and> sorted_wrt (<) (map fst es) \<and> (\<forall>x \<in> set es. fst x \<le> es_seq bus)"

abbreviation after :: "nat \<Rightarrow> (nat \<times> stream_event) list \<Rightarrow> (nat \<times> stream_event) list" where
  "after i es \<equiv> filter (\<lambda>x. i < fst x) es"

lemma xrange_packed: "stream_holds c tid bus es d \<Longrightarrow> xrange tid l bus = packed c (after l (drop d es))"
proof -
  have "filter (\<lambda>(i, _). l < i) (packed c es) = packed c (after l es)" for es
    by (induction es) (auto simp: split_def)
  then show "stream_holds c tid bus es d \<Longrightarrow> ?thesis" by (simp add: xrange_def stream_holds_def)
qed

lemma iter_step_packed:
  assumes "codec_ok c" and "xrange tid (su_last s) bus = packed c new"
  shows "su_out (RedisEventBus_iter_step c tid bus s) = (if su_phase s = Finished then su_out s else su_out s @ until_end new)"
    and "su_last (RedisEventBus_iter_step c tid bus s) = (if su_phase s = Finished then su_last s else su_last (yielded new s))"
    and "su_phase (RedisEventBus_iter_step c tid bus s) = Finished \<longleftrightarrow> su_phase s = Finished \<or> ended new"
  by (cases "su_phase s";
      simp add: RedisEventBus_iter_step_def assms(2) yield_packed [OF assms(1)] enter_def yielded_def Let_def)+

text \<open>In a sorted history the entries after a position are the last ones.\<close>

lemma sorted_after: "sorted_wrt (<) (map fst es) \<Longrightarrow> filter (\<lambda>x. fst x \<le> l) es @ after l es = (es :: (nat \<times> stream_event) list)"
proof (induction es)
  case (Cons x es)
  show ?case
  proof (cases "l < fst x")
    case True
    with Cons.prems have "filter (\<lambda>x. fst x \<le> l) es = []" by (auto simp: filter_empty_conv)
    with True Cons show ?thesis by simp
  qed (use Cons in auto)
qed simp

definition read_all :: "nat \<Rightarrow> (nat \<times> stream_event) list \<Rightarrow> nat \<Rightarrow> bool" where
  "read_all l es d \<longleftrightarrow> (\<forall>x \<in> set (take d es). fst x \<le> l)"

lemma after_drop: "read_all l es d \<Longrightarrow> after l (drop d es) = after l es"
proof -
  assume "read_all l es d"
  then have "after l (take d es) = []" by (auto simp: read_all_def filter_empty_conv)
  then have "after l (take d es @ drop d es) = after l (drop d es)" by (simp only: filter_append append_Nil)
  then show ?thesis by simp
qed

lemma read_all_room:
  assumes "sorted_wrt (<) (map fst es)" and "d + length (after l es) \<le> length (es :: (nat \<times> stream_event) list)"
  shows "read_all l es d"
proof -
  have eq: "filter (\<lambda>x. fst x \<le> l) es @ after l es = es" by (rule sorted_after [OF assms(1)])
  from arg_cong [OF eq, of length] assms(2) have "d \<le> length (filter (\<lambda>x. fst x \<le> l) es)" by simp
  then have "take d es = take d (filter (\<lambda>x. fst x \<le> l) es)"
    using arg_cong [OF eq, of "take d"] by simp
  then have "set (take d es) \<subseteq> set (filter (\<lambda>x. fst x \<le> l) es)" by (metis set_take_subset)
  then show ?thesis by (auto simp: read_all_def)
qed

section \<open>What a subscriber has seen\<close>

definition seen_ok :: "nat \<Rightarrow> 'j redis_bus \<Rightarrow> (nat \<times> stream_event) list \<Rightarrow> subscription \<Rightarrow> bool" where
  "seen_ok start bus es s \<longleftrightarrow> (if su_phase s = Finished then su_out s = until_end (after start es) \<and> ended (after start es)
     else su_out s = filter (\<lambda>x. start < fst x \<and> fst x \<le> su_last s) es \<and> \<not> ended (su_out s)
       \<and> start \<le> su_last s \<and> su_last s \<le> max start (es_seq bus))"

lemma filter_split:
  "sorted_wrt (<) (map fst es) \<Longrightarrow> start \<le> l \<Longrightarrow>
    filter (\<lambda>x. start < fst x \<and> fst x \<le> l) es @ after l es = after start (es :: (nat \<times> stream_event) list)"
proof (induction es)
  case (Cons x es)
  show ?case
  proof (cases "l < fst x")
    case True
    with Cons.prems have "filter (\<lambda>x. start < fst x \<and> fst x \<le> l) es = []" by (auto simp: filter_empty_conv)
    with True Cons show ?thesis by simp
  qed (use Cons in auto)
qed simp

text \<open>A position behind the last entry.\<close>

lemma last_read:
  assumes "sorted_wrt (<) (map fst es)" and "x \<in> set (es :: (nat \<times> stream_event) list)"
  shows "fst x \<le> (if after l es = [] then l else fst (last (after l es)))"
proof (cases "l < fst x")
  case True
  with assms(2) have x: "x \<in> set (after l es)" by simp
  have "sorted_wrt (<) (map fst (after l es))" using assms(1) by (simp add: sorted_wrt_map sorted_wrt_filter)
  with x show ?thesis
    by (cases "after l es" rule: rev_cases) (auto simp: sorted_wrt_append less_imp_le)
qed (auto simp: less_imp_le dest!: last_in_set)

lemma seen_ok_step:
  assumes c: "codec_ok c" and bus: "stream_holds c tid bus es d" and s: "seen_ok start bus es s"
    and all_read: "su_phase s \<noteq> Finished \<Longrightarrow> read_all (su_last s) es d"
  defines "s' \<equiv> RedisEventBus_iter_step c tid bus s"
  shows "seen_ok start bus es s' \<and> su_out s' = until_end (after start es)"
    and "su_phase s' \<noteq> Finished \<Longrightarrow> after (su_last s') es = []"
proof -
  let ?new = "after (su_last s) es"
  have sorted: "sorted_wrt (<) (map fst es)" using bus by (simp add: stream_holds_def)
  have x: "su_phase s \<noteq> Finished \<Longrightarrow> xrange tid (su_last s) bus = packed c ?new"
    using xrange_packed [OF bus] after_drop [OF all_read] by simp
  have stays: "s' = s" if "su_phase s = Finished" using that by (simp add: s'_def RedisEventBus_iter_step_def)
  have "(seen_ok start bus es s' \<and> su_out s' = until_end (after start es)) \<and> (su_phase s' \<noteq> Finished \<longrightarrow> after (su_last s') es = [])"
  proof (cases "su_phase s = Finished")
    case True
    with s stays show ?thesis by (simp add: seen_ok_def)
  next
    case False
    note step = iter_step_packed [OF c x [OF False], folded s'_def]
    have old: "su_out s = filter (\<lambda>x. start < fst x \<and> fst x \<le> su_last s) es" "\<not> ended (su_out s)" "start \<le> su_last s"
      "su_last s \<le> max start (es_seq bus)" using s False by (auto simp: seen_ok_def)
    have all: "su_out s @ ?new = after start es" using filter_split [OF sorted old(3)] old(1) by simp
    then have out: "su_out s' = until_end (after start es)"
      unfolding all [symmetric] until_end_append using False old(2) by (simp add: step(1))
    show ?thesis
    proof (cases "ended ?new")
      case True
      then have "ended (after start es)" unfolding all [symmetric] by simp
      moreover have "su_phase s' = Finished" using True by (simp add: step(3))
      ultimately show ?thesis using out by (simp add: seen_ok_def)
    next
      case open_end: False
      then have l: "su_last s' = (if ?new = [] then su_last s else fst (last ?new))"
        using False by (simp add: step(2) yielded_def until_end_open)
      have upto: "fst x \<le> su_last s'" if "x \<in> set es" for x using last_read [OF sorted that] unfolding l .
      moreover have "start \<le> su_last s' \<and> su_last s' \<le> max start (es_seq bus)"
        using old(3,4) bus l last_in_set [of ?new] by (auto simp: stream_holds_def intro: max.coboundedI2)
      moreover have "\<not> ended (after start es)" unfolding all [symmetric] using open_end old(2) by simp
      moreover have "su_phase s' \<noteq> Finished" using open_end False by (simp add: step(3))
      moreover have "after (su_last s') es = []" using upto by (force simp: filter_empty_conv)
      ultimately show ?thesis
        using out by (auto simp: seen_ok_def until_end_open intro!: filter_cong)
    qed
  qed
  then show "seen_ok start bus es s' \<and> su_out s' = until_end (after start es)"
    "su_phase s' \<noteq> Finished \<Longrightarrow> after (su_last s') es = []" by blast+
qed

section \<open>Schedules\<close>

text \<open>With \<^verbatim>\<open>MAXLEN ~ n\<close> the server keeps the newest \<open>n\<close> entries at least; of the older ones it may drop any number \<open>k\<close> of the
  oldest with each entry that is added.\<close>

datatype bus_action = Publish string stream_event nat | Read

definition maxlen :: "nat \<Rightarrow> nat \<Rightarrow> 'a list \<Rightarrow> 'a list" where
  "maxlen n k es = drop (min k (length es - n)) es"

fun bus_exec :: "nat \<Rightarrow> 'j event_codec \<Rightarrow> string \<Rightarrow> bus_action \<Rightarrow> 'j redis_bus \<times> subscription \<Rightarrow> 'j redis_bus \<times> subscription" where
  "bus_exec n c tid (Publish tid' ev k) (bus, s) = (snd (RedisEventBus_publish (maxlen n k) c tid' ev bus), s)"
| "bus_exec n c tid Read (bus, s) = (bus, RedisEventBus_iter_step c tid bus s)"

text \<open>The events a schedule publishes for a task, with the numbers they get.\<close>

fun published :: "string \<Rightarrow> nat \<Rightarrow> bus_action list \<Rightarrow> (nat \<times> stream_event) list" where
  "published tid n [] = []"
| "published tid n (Publish tid' ev k # as) = (if tid' = tid then [(Suc n, ev)] else []) @ published tid (Suc n) as"
| "published tid n (Read # as) = published tid n as"

text \<open>The subscriber keeps up: with \<open>b\<close> events behind at first, it never falls more than \<open>n\<close> events of its task behind.\<close>

fun keeps_up :: "nat \<Rightarrow> string \<Rightarrow> nat \<Rightarrow> bus_action list \<Rightarrow> bool" where
  "keeps_up n tid b [] = True"
| "keeps_up n tid b (Publish tid' ev k # as) = (if tid' = tid then Suc b \<le> n \<and> keeps_up n tid (Suc b) as else keeps_up n tid b as)"
| "keeps_up n tid b (Read # as) = keeps_up n tid 0 as"

lemma publish_holds:
  assumes "stream_holds c tid bus es d"
  shows "stream_holds c tid (snd (RedisEventBus_publish (maxlen n k) c tid' ev bus))
      (if tid' = tid then es @ [(Suc (es_seq bus), ev)] else es)
      (if tid' = tid then d + min k (Suc (length es) - d - n) else d)"
    and "es_seq (snd (RedisEventBus_publish (maxlen n k) c tid' ev bus)) = Suc (es_seq bus)"
proof -
  let ?e = "(Suc (es_seq bus), ev)" and ?m = "min k (Suc (length es) - d - n)"
  have d: "d \<le> length es" using assms by (simp add: stream_holds_def)
  have "maxlen n k (packed c (drop d es) @ [(Suc (es_seq bus), serialize_event c ev)]) = maxlen n k (packed c (drop d es @ [?e]))"
    by simp
  also have "\<dots> = packed c (drop ?m (drop d es @ [?e]))"
    using d by (simp only: maxlen_def drop_map length_map length_append length_drop) (simp add: Suc_diff_le)
  also have "drop d es @ [?e] = drop d (es @ [?e])" using d by simp
  also have "drop ?m (drop d (es @ [?e])) = drop (d + ?m) (es @ [?e])" by (simp only: drop_drop add.commute)
  finally have new: "maxlen n k (packed c (drop d es) @ [(Suc (es_seq bus), serialize_event c ev)])
    = packed c (drop (d + ?m) (es @ [?e]))" .
  show "stream_holds c tid (snd (RedisEventBus_publish (maxlen n k) c tid' ev bus))
      (if tid' = tid then es @ [?e] else es) (if tid' = tid then d + ?m else d)"
  proof (cases "tid' = tid")
    case True
    have "stream_of tid (snd (RedisEventBus_publish (maxlen n k) c tid ev bus)) = packed c (drop (d + ?m) (es @ [?e]))"
      using new assms by (simp add: stream_holds_def RedisEventBus_publish_def stream_of_def Let_def update_conv')
    with assms True d show ?thesis
      by (auto simp: stream_holds_def RedisEventBus_publish_def Let_def sorted_wrt_append le_SucI)
  next
    case False
    with assms show ?thesis
      by (auto simp: stream_holds_def RedisEventBus_publish_def stream_of_def Let_def update_conv' le_SucI)
  qed
  show "es_seq (snd (RedisEventBus_publish (maxlen n k) c tid' ev bus)) = Suc (es_seq bus)"
    by (simp add: RedisEventBus_publish_def Let_def)
qed

lemma seen_ok_publish:
  assumes "seen_ok start bus es s" and "stream_holds c tid bus es d" and "es_seq bus' = Suc (es_seq bus)"
  shows "seen_ok start bus' es s" and "seen_ok start bus' (es @ [(Suc (es_seq bus), ev)]) s"
  using assms by (auto simp: seen_ok_def until_end_append split: if_splits)

text \<open>A schedule in which the subscriber keeps up: nothing is dropped that it has not read.\<close>

definition in_step :: "nat \<Rightarrow> (nat \<times> stream_event) list \<Rightarrow> nat \<Rightarrow> nat \<Rightarrow> subscription \<Rightarrow> bool" where
  "in_step n es d b s \<longleftrightarrow> su_phase s = Finished \<or> length (after (su_last s) es) \<le> b \<and> read_all (su_last s) es d"

lemma in_step_publish:
  assumes "in_step n es d b s" and "d \<le> length es" and "sorted_wrt (<) (map fst (es @ [x]))" and "Suc b \<le> n"
  shows "in_step n (es @ [x]) (d + min k (Suc (length es) - d - n)) (Suc b) s"
proof (cases "su_phase s = Finished")
  case False
  let ?d = "d + min k (Suc (length es) - d - n)"
  have len: "length (after (su_last s) (es @ [x])) \<le> Suc b" using assms(1) False by (auto simp: in_step_def)
  have "read_all (su_last s) (es @ [x]) ?d"
  proof (cases "min k (Suc (length es) - d - n) = 0")
    case True
    with assms(1,2) False show ?thesis by (simp add: in_step_def read_all_def)
  next
    case False
    then have "?d + n \<le> Suc (length es)" by linarith
    then have "?d + length (after (su_last s) (es @ [x])) \<le> length (es @ [x])" using len assms(4) by simp
    then show ?thesis by (rule read_all_room [OF assms(3)])
  qed
  with len show ?thesis by (simp add: in_step_def)
qed (simp add: in_step_def)

lemma schedule_seen:
  assumes "codec_ok c"
  shows "stream_holds c tid bus es d \<Longrightarrow> seen_ok start bus es s \<Longrightarrow> in_step n es d b s \<Longrightarrow> keeps_up n tid b as \<Longrightarrow>
    case fold (bus_exec n c tid) as (bus, s) of (bus', s') \<Rightarrow>
      \<exists>d' b'. stream_holds c tid bus' (es @ published tid (es_seq bus) as) d'
        \<and> seen_ok start bus' (es @ published tid (es_seq bus) as) s' \<and> in_step n (es @ published tid (es_seq bus) as) d' b' s'"
proof (induction as arbitrary: bus es s d b)
  case (Cons a as)
  show ?case
  proof (cases a)
    case (Publish tid' ev k)
    let ?bus = "snd (RedisEventBus_publish (maxlen n k) c tid' ev bus)"
    note holds = publish_holds [OF Cons.prems(1), of n k tid' ev]
    show ?thesis
    proof (cases "tid' = tid")
      case True
      have "seen_ok start ?bus (es @ [(Suc (es_seq bus), ev)]) s" using seen_ok_publish(2) [OF Cons.prems(2,1) holds(2)] .
      moreover have h: "stream_holds c tid ?bus (es @ [(Suc (es_seq bus), ev)]) (d + min k (Suc (length es) - d - n))"
        using holds(1) True by simp
      moreover have "in_step n (es @ [(Suc (es_seq bus), ev)]) (d + min k (Suc (length es) - d - n)) (Suc b) s"
        by (rule in_step_publish [OF Cons.prems(3)]) (use h Cons.prems(1,4) Publish True in \<open>simp_all add: stream_holds_def\<close>)
      ultimately show ?thesis
        using Cons.IH [of ?bus "es @ [(Suc (es_seq bus), ev)]" _ s "Suc b"] Publish True holds(2) Cons.prems(4) by (auto split: prod.splits)
    next
      case False
      have "seen_ok start ?bus es s" using seen_ok_publish(1) [OF Cons.prems(2,1) holds(2)] .
      moreover have "stream_holds c tid ?bus es d" using holds(1) False by simp
      ultimately show ?thesis
        using Cons.IH [of ?bus es d s b] Publish False holds(2) Cons.prems(3,4) by (auto split: prod.splits)
    qed
  next
    case Read
    let ?s = "RedisEventBus_iter_step c tid bus s"
    have r: "su_phase s \<noteq> Finished \<Longrightarrow> read_all (su_last s) es d" using Cons.prems(3) by (auto simp: in_step_def)
    note step = seen_ok_step [OF assms Cons.prems(1,2) r]
    have "in_step n es d 0 ?s"
    proof (cases "su_phase ?s = Finished")
      case False
      then have "after (su_last ?s) es = []" using step(2) by blast
      moreover from this have "read_all (su_last ?s) es d"
        by (force simp: read_all_def filter_empty_conv not_less dest: in_set_takeD)
      ultimately show ?thesis by (simp add: in_step_def)
    qed (simp add: in_step_def)
    with Cons.IH [of bus es d ?s 0] step(1) Cons.prems(1,4) Read show ?thesis by simp
  qed
qed (auto intro!: exI)

text \<open>Whatever the server drops, what has been read is a part of the history in its order.\<close>

definition seen_part :: "nat \<Rightarrow> (nat \<times> stream_event) list \<Rightarrow> subscription \<Rightarrow> bool" where
  "seen_part start es s \<longleftrightarrow> start \<le> su_last s \<and> subseq (su_out s) (filter (\<lambda>x. start < fst x \<and> fst x \<le> su_last s) es)"

lemma seen_part_grow: "seen_part start es s \<Longrightarrow> seen_part start (es @ xs) s"
  unfolding seen_part_def filter_append using list_emb_append2 subseq_order.trans by blast

lemma until_end_prefix: "prefix (until_end es) es"
  by (induction es) auto

lemma seen_part_step:
  assumes "codec_ok c" and "stream_holds c tid bus es d" and "seen_part start es s"
  shows "seen_part start es (RedisEventBus_iter_step c tid bus s)"
proof (cases "su_phase s = Finished")
  case True
  then show ?thesis using assms(3) by (simp add: RedisEventBus_iter_step_def)
next
  case False
  define new where "new = after (su_last s) (drop d es)"
  define out where "out = until_end new"
  define l where "l = (if new = [] then su_last s else fst (last out))"
  note step = iter_step_packed [OF assms(1) xrange_packed [OF assms(2), of "su_last s"], folded new_def]
  have s': "su_out (RedisEventBus_iter_step c tid bus s) = su_out s @ out" "su_last (RedisEventBus_iter_step c tid bus s) = l"
    using False by (simp_all add: step out_def l_def yielded_def)
  have sorted: "sorted_wrt (<) (map fst es)" using assms(2) by (simp add: stream_holds_def)
  have new_sorted: "sorted_wrt (<) (map fst new)"
    unfolding new_def using sorted by (simp add: sorted_wrt_map sorted_wrt_filter sorted_wrt_drop)
  have in_new: "set out \<subseteq> set new" using until_end_prefix [of new] by (auto simp: out_def dest: set_mono_prefix)
  have l: "su_last s \<le> l"
  proof (cases "new = []")
    case False
    then have "last out \<in> set new" using in_new last_in_set [of out] by (auto simp: out_def)
    with False show ?thesis by (simp add: l_def new_def)
  qed (simp add: l_def)
  have upto: "fst x \<le> l" if "x \<in> set out" for x
  proof -
    obtain rest where "new = out @ rest" using until_end_prefix [of new] unfolding out_def by (auto simp: prefix_def)
    then have "sorted_wrt (<) (map fst out)" using new_sorted by (simp add: sorted_wrt_append)
    moreover have "out \<noteq> []" using that by auto
    then obtain ys y where ys: "out = ys @ [y]" by (cases out rule: rev_cases) auto
    moreover have "l = fst (last out)" using \<open>out \<noteq> []\<close> by (auto simp: l_def out_def)
    ultimately show ?thesis using that by (auto simp: sorted_wrt_append less_imp_le)
  qed
  have "subseq out (filter (\<lambda>x. su_last s < fst x \<and> fst x \<le> l) es)"
  proof -
    have "subseq out new" unfolding out_def using until_end_prefix by (rule prefix_imp_subseq)
    then have "subseq (filter (\<lambda>x. fst x \<le> l) out) (filter (\<lambda>x. fst x \<le> l) new)" by (rule subseq_filter)
    moreover have "filter (\<lambda>x. fst x \<le> l) out = out" using upto by simp
    moreover have "subseq (filter (\<lambda>x. fst x \<le> l) new) (filter (\<lambda>x. fst x \<le> l) (after (su_last s) es))"
      unfolding new_def by (intro subseq_filter) (metis append_take_drop_id list_emb_append2 subseq_order.refl)
    ultimately show ?thesis by (auto simp: conj_commute intro: subseq_order.trans)
  qed
  then have "subseq (su_out s @ out) (filter (\<lambda>x. start < fst x \<and> fst x \<le> su_last s) es @ filter (\<lambda>x. su_last s < fst x \<and> fst x \<le> l) es)"
    using assms(3) by (intro list_emb_append_mono) (simp_all add: seen_part_def)
  also have "\<dots> = filter (\<lambda>x. fst x \<le> l) (filter (\<lambda>x. start < fst x \<and> fst x \<le> su_last s) es @ after (su_last s) es)"
    using l by (auto simp: conj_commute intro!: filter_cong)
  also have "\<dots> = filter (\<lambda>x. start < fst x \<and> fst x \<le> l) es"
    using assms(3) unfolding filter_split [OF sorted, of start "su_last s"] seen_part_def
    by (subst filter_split [OF sorted]) (auto simp: conj_commute)
  finally show ?thesis using assms(3) l unfolding seen_part_def s' by simp
qed

lemma schedule_part:
  assumes "codec_ok c"
  shows "stream_holds c tid bus es d \<Longrightarrow> seen_part start es s \<Longrightarrow>
    case fold (bus_exec n c tid) as (bus, s) of (bus', s') \<Rightarrow> seen_part start (es @ published tid (es_seq bus) as) s'"
proof (induction as arbitrary: bus es s d)
  case (Cons a as)
  show ?case
  proof (cases a)
    case (Publish tid' ev k)
    let ?bus = "snd (RedisEventBus_publish (maxlen n k) c tid' ev bus)" and ?es = "if tid' = tid then es @ [(Suc (es_seq bus), ev)] else es"
    note holds = publish_holds [OF Cons.prems(1), of n k tid' ev]
    have "seen_part start ?es s" using Cons.prems(2) seen_part_grow by simp
    from Cons.IH [OF holds(1) this] Publish holds(2) show ?thesis by (auto split: prod.splits)
  next
    case Read
    with Cons.IH [OF Cons.prems(1) seen_part_step [OF assms Cons.prems]] show ?thesis by simp
  qed
qed simp

definition start_of :: "bool \<Rightarrow> string \<Rightarrow> after_id \<Rightarrow> 'j redis_bus \<Rightarrow> nat" where
  "start_of answered tid aft bus = su_last (RedisEventBus_subscribe answered tid aft bus)"

lemma subscribe_seen:
  "seen_ok (start_of answered tid aft bus) bus es (RedisEventBus_subscribe answered tid aft bus)"
  "seen_part (start_of answered tid aft bus) es (RedisEventBus_subscribe answered tid aft bus)"
proof -
  have "filter (\<lambda>x. l < fst x \<and> fst x \<le> l) es = []" for l by (auto simp: filter_empty_conv)
  then show "seen_ok (start_of answered tid aft bus) bus es (RedisEventBus_subscribe answered tid aft bus)"
    "seen_part (start_of answered tid aft bus) es (RedisEventBus_subscribe answered tid aft bus)"
    by (auto simp: start_of_def RedisEventBus_subscribe_def seen_ok_def seen_part_def ended_def split: after_id.split)
qed


text \<open>For the witness a model is dumped as itself, in the type of events.\<close>

definition plain_codec :: "stream_event event_codec" where
  "plain_codec = \<lparr>dump_message = MessageEvent, dump_status = TaskStatusUpdateEvent, dump_artifact = TaskArtifactUpdateEvent,
     dump_task = TaskSnapshot,
     load_message = (\<lambda>j. case j of MessageEvent m \<Rightarrow> Inr m | _ \<Rightarrow> Inl (ValueError [])),
     load_status = (\<lambda>j. case j of TaskStatusUpdateEvent e \<Rightarrow> Inr e | _ \<Rightarrow> Inl (ValueError [])),
     load_artifact = (\<lambda>j. case j of TaskArtifactUpdateEvent e \<Rightarrow> Inr e | _ \<Rightarrow> Inl (ValueError [])),
     load_task_json = (\<lambda>j. case j of TaskSnapshot t \<Rightarrow> Inr t | _ \<Rightarrow> Inl (ValueError []))\<rparr>"

definition idle_bus :: "stream_event redis_bus" where
  "idle_bus = \<lparr>es_streams = [(''t1'', packed plain_codec [(1, sample_msg ''a''), (2, sample_msg ''b'')])], es_seq = 2\<rparr>"


end
