(* ===== verification/Json_Text.thy ===== *)
theory Json_Text
  imports Stream_V10
begin

text \<open>
  \<^verbatim>\<open>json.loads\<close>, and that it reads what \<^verbatim>\<open>json.dumps\<close> wrote. Floats are outside the JSON values of this model and are refused, as are
  escapes of characters above 255. The recursion is bounded by the length of the text, which is enough for every value.
\<close>

section \<open>Tokens\<close>

definition skip_ws :: "string \<Rightarrow> string" where
  "skip_ws = dropWhile (\<lambda>c. of_char c \<in> {9, 10, 13, 32 :: nat})"

definition unhex :: "char \<Rightarrow> nat option" where
  "unhex c = (let n = of_char c :: nat in
     if 48 \<le> n \<and> n \<le> 57 then Some (n - 48) else if 97 \<le> n \<and> n \<le> 102 then Some (n - 87)
     else if 65 \<le> n \<and> n \<le> 70 then Some (n - 55) else None)"

definition unescape :: "char \<Rightarrow> char option" where
  "unescape c = (let n = of_char c :: nat in
     if n = 34 \<or> n = 92 \<or> n = 47 then Some c
     else if c = CHR ''b'' then Some (char_of (8 :: nat)) else if c = CHR ''t'' then Some (char_of (9 :: nat))
     else if c = CHR ''n'' then Some (char_of (10 :: nat)) else if c = CHR ''f'' then Some (char_of (12 :: nat))
     else if c = CHR ''r'' then Some (char_of (13 :: nat)) else None)"

definition unicode_escape :: "char \<Rightarrow> char \<Rightarrow> char \<Rightarrow> char \<Rightarrow> char option" where
  "unicode_escape a b c d = (case (unhex a, unhex b, unhex c, unhex d) of
      (Some 0, Some 0, Some i, Some j) \<Rightarrow> Some (char_of (16 * i + j))
    | _ \<Rightarrow> None)"

text \<open>The rest of a string literal after its opening quote.\<close>

fun parse_chars :: "string \<Rightarrow> (string \<times> string) option" where
  "parse_chars [] = None"
| "parse_chars (c # cs) =
     (if of_char c = (34 :: nat) then Some ([], cs)
      else if of_char c = (92 :: nat) then
        (case cs of [] \<Rightarrow> None
         | e # cs1 \<Rightarrow>
             if e = CHR ''u'' then
               (case cs1 of x1 # x2 # x3 # x4 # cs2 \<Rightarrow>
                  (case unicode_escape x1 x2 x3 x4 of None \<Rightarrow> None | Some x \<Rightarrow> map_option (apfst (Cons x)) (parse_chars cs2))
                | _ \<Rightarrow> None)
             else (case unescape e of None \<Rightarrow> None | Some x \<Rightarrow> map_option (apfst (Cons x)) (parse_chars cs1)))
      else if of_char c < (32 :: nat) then None
      else map_option (apfst (Cons c)) (parse_chars cs))"

definition number_end :: "string \<Rightarrow> bool" where
  "number_end s \<longleftrightarrow> (case s of [] \<Rightarrow> True | c # _ \<Rightarrow> c \<notin> {CHR ''.'', CHR ''e'', CHR ''E''})"

definition digits_of :: "string \<Rightarrow> string" where
  "digits_of s = (case s of [] \<Rightarrow> [] | c # _ \<Rightarrow> if c = CHR ''0'' then ''0'' else takeWhile is_digit s)"

definition parse_number :: "string \<Rightarrow> (json \<times> string) option" where
  "parse_number s =
     (let neg = (take 1 s = ''-''); s1 = (if neg then drop 1 s else s); ds = digits_of s1; rest = drop (length ds) s1 in
      if ds = [] \<or> \<not> number_end rest then None
      else map_option (\<lambda>n. (JInt (if neg then - int n else int n), rest)) (parse_digits 0 False ds))"

section \<open>Values\<close>

definition dict_of :: "(string \<times> json) list \<Rightarrow> (string \<times> json) list" where
  "dict_of kvs = fold (\<lambda>(k, v). AList.update k v) kvs []"

fun pval :: "nat \<Rightarrow> string \<Rightarrow> (json \<times> string) option"
and pitems :: "nat \<Rightarrow> string \<Rightarrow> (json list \<times> string) option"
and pmembers :: "nat \<Rightarrow> string \<Rightarrow> ((string \<times> json) list \<times> string) option" where
  "pval 0 s = None"
| "pval (Suc n) s = (case s of [] \<Rightarrow> None | c # cs \<Rightarrow>
     if of_char c = (34 :: nat) then map_option (apfst JStr) (parse_chars cs)
     else if c = CHR ''['' then
       (if take 1 (skip_ws cs) = '']'' then Some (JList [], drop 1 (skip_ws cs)) else map_option (apfst JList) (pitems n (skip_ws cs)))
     else if c = CHR ''{'' then
       (if take 1 (skip_ws cs) = ''}'' then Some (JObj [], drop 1 (skip_ws cs))
        else map_option (apfst (JObj \<circ> dict_of)) (pmembers n (skip_ws cs)))
     else if take 4 s = ''null'' then Some (JNull, drop 4 s)
     else if take 4 s = ''true'' then Some (JBool True, drop 4 s)
     else if take 5 s = ''false'' then Some (JBool False, drop 5 s)
     else parse_number s)"
| "pitems 0 s = None"
| "pitems (Suc n) s = (case pval n s of None \<Rightarrow> None | Some (v, r) \<Rightarrow>
     (let r1 = skip_ws r in
      if take 1 r1 = '']'' then Some ([v], drop 1 r1)
      else if take 1 r1 = '','' then map_option (apfst (Cons v)) (pitems n (skip_ws (drop 1 r1)))
      else None))"
| "pmembers 0 s = None"
| "pmembers (Suc n) s = (case s of [] \<Rightarrow> None | c # cs \<Rightarrow>
     if of_char c \<noteq> (34 :: nat) then None else
     case parse_chars cs of None \<Rightarrow> None | Some (k, r) \<Rightarrow>
     (let r1 = skip_ws r in
      if take 1 r1 \<noteq> '':'' then None else
      case pval n (skip_ws (drop 1 r1)) of None \<Rightarrow> None | Some (v, r2) \<Rightarrow>
      (let r3 = skip_ws r2 in
       if take 1 r3 = ''}'' then Some ([(k, v)], drop 1 r3)
       else if take 1 r3 = '','' then map_option (apfst (Cons (k, v))) (pmembers n (skip_ws (drop 1 r3)))
       else None)))"

definition json_loads :: "string \<Rightarrow> json option" where
  "json_loads s = (case pval (length s) (skip_ws s) of None \<Rightarrow> None
     | Some (v, r) \<Rightarrow> if skip_ws r = [] then Some v else None)"

section \<open>Reading what was written\<close>

lemma unhex_hex_digit: "d < 16 \<Longrightarrow> unhex (hex_digit d) = Some d"
proof -
  assume "d < 16"
  then have "d = 0 \<or> d = 1 \<or> d = 2 \<or> d = 3 \<or> d = 4 \<or> d = 5 \<or> d = 6 \<or> d = 7 \<or> d = 8 \<or> d = 9 \<or> d = 10 \<or> d = 11 \<or> d = 12
    \<or> d = 13 \<or> d = 14 \<or> d = 15" by arith
  then show ?thesis by (elim disjE) (simp_all add: hex_digit_def unhex_def)
qed

lemma quote_not_u: "char_of (34 :: nat) \<noteq> CHR ''u''" "char_of (92 :: nat) \<noteq> CHR ''u''"
  by (auto dest: arg_cong [of _ _ "of_char :: char \<Rightarrow> nat"])

lemma parse_json_char: "parse_chars (json_char c @ rest) = map_option (apfst (Cons c)) (parse_chars rest)"
proof -
  define n where "n = (of_char c :: nat)"
  have c: "c = char_of n" and n: "n < 256" by (simp_all add: n_def)
  have hex: "unicode_escape (CHR ''0'') (CHR ''0'') (hex_digit (n div 16)) (hex_digit (n mod 16)) = Some c"
  proof -
    have "unhex (CHR ''0'') = Some 0" by (simp add: unhex_def)
    moreover have "n div 16 < 16" using n by simp
    ultimately show ?thesis by (simp add: unicode_escape_def unhex_hex_digit c)
  qed
  consider "n = 34 \<or> n = 92" | "n = 8" | "n = 9" | "n = 10" | "n = 12" | "n = 13"
    | (hex) "n \<notin> {34, 92, 8, 9, 10, 12, 13}" "n < 32 \<or> 128 \<le> n" | (plain) "n \<notin> {34, 92, 8, 9, 10, 12, 13}" "32 \<le> n" "n < 128"
    by force
  then show ?thesis
  proof cases
    case hex
    then show ?thesis using \<open>unicode_escape _ _ _ _ = Some c\<close> by (simp add: json_char_def n_def Let_def)
  next
    case plain
    then show ?thesis by (simp add: json_char_def n_def Let_def)
  qed (auto simp: json_char_def n_def [symmetric] unescape_def c quote_not_u Let_def)
qed

lemma parse_json_string: "parse_chars (concat (map json_char s) @ char_of (34 :: nat) # r) = Some (s, r)"
  by (induction s) (simp_all add: parse_json_char)

definition stops :: "string \<Rightarrow> bool" where
  "stops r \<longleftrightarrow> (case r of [] \<Rightarrow> True | c # _ \<Rightarrow> \<not> is_digit c \<and> c \<notin> {CHR ''.'', CHR ''e'', CHR ''E''})"

lemma stops_simps [simp]: "stops []" "stops (CHR '','' # r)" "stops (CHR '']'' # r)" "stops (CHR ''}'' # r)"
  by (simp_all add: stops_def is_digit_def)

lemma nat_str_zero: "hd (nat_str n) = CHR ''0'' \<longleftrightarrow> n = 0"
proof (induction n rule: nat_str.induct)
  case (1 n)
  show ?case
  proof (cases "n < 10")
    case True
    then have "n = 0 \<or> n = 1 \<or> n = 2 \<or> n = 3 \<or> n = 4 \<or> n = 5 \<or> n = 6 \<or> n = 7 \<or> n = 8 \<or> n = 9" by arith
    then show ?thesis by (elim disjE) (simp_all add: nat_str.simps digit_char_def char_of_def bit_simps)
  next
    case False
    with 1 show ?thesis by (subst nat_str.simps) simp
  qed
qed

lemma digits_of_nat_str:
  assumes "stops r"
  shows "digits_of (nat_str n @ r) = nat_str n"
proof (cases "n = 0")
  case True
  have "nat_str 0 = ''0''" by (simp add: nat_str.simps digit_char_def char_of_def bit_simps)
  with True show ?thesis by (simp add: digits_of_def)
next
  case False
  have "takeWhile is_digit (nat_str n @ r) = nat_str n"
    using nat_str_digits [of n] assms by (cases r) (simp_all add: takeWhile_append2 stops_def)
  with False nat_str_zero [of n] show ?thesis
    by (cases "nat_str n") (simp_all add: digits_of_def)
qed

lemma parse_int_str:
  assumes "stops r"
  shows "parse_number (int_str i @ r) = Some (JInt i, r)"
proof -
  have r: "number_end r" using assms by (cases r) (simp_all add: stops_def number_end_def)
  have "take 1 (nat_str n @ r) \<noteq> ''-''" for n
    using nat_str_digits [of n] by (cases "nat_str n") (auto simp: is_digit_def)
  with r show ?thesis
    by (simp add: parse_number_def int_str_def digits_of_nat_str [OF assms] parse_nat_str Let_def)
qed

lemma dumps_first: "\<exists>c cs. json_dumps j = c # cs \<and> (of_char c :: nat) \<notin> {9, 10, 13, 32, 93, 125}"
proof (cases j)
  case (JInt i)
  have "\<exists>c cs. nat_str n = c # cs \<and> is_digit c" for n using nat_str_digits [of n] by (cases "nat_str n") auto
  then obtain c cs where "nat_str (nat i) = c # cs" "is_digit c" by blast
  then show ?thesis using JInt by (auto simp: int_str_def is_digit_def)
qed (auto simp: json_string_def)

lemma skip_dumps [simp]: "skip_ws (json_dumps j @ r) = json_dumps j @ r" "take 1 (json_dumps j @ r) \<noteq> '']''"
  using dumps_first [of j] by (auto simp: skip_ws_def)

definition reads :: "json \<Rightarrow> bool" where
  "reads j \<longleftrightarrow> (\<forall>n r. length (json_dumps j) \<le> n \<longrightarrow> stops r \<longrightarrow> pval n (json_dumps j @ r) = Some (j, r))"

lemma readsD: "reads j \<Longrightarrow> length (json_dumps j) \<le> n \<Longrightarrow> stops r \<Longrightarrow> pval n (json_dumps j @ r) = Some (j, r)"
  by (simp add: reads_def)

lemma skip_ws_simps [simp]: "skip_ws (CHR '','' # s) = CHR '','' # s" "skip_ws (CHR '']'' # s) = CHR '']'' # s"
  "skip_ws (CHR ''}'' # s) = CHR ''}'' # s" "skip_ws (CHR '':'' # s) = CHR '':'' # s" "skip_ws (CHR '' '' # s) = skip_ws s"
  "skip_ws (char_of (34 :: nat) # s) = char_of (34 :: nat) # s" "skip_ws [] = []"
  by (simp_all add: skip_ws_def)

lemma pitems_dumps:
  "\<forall>x \<in> set xs. reads x \<Longrightarrow> xs \<noteq> [] \<Longrightarrow> length (join_strings '', '' (map json_dumps xs)) < n \<Longrightarrow>
    pitems n (join_strings '', '' (map json_dumps xs) @ CHR '']'' # r) = Some (xs, r)"
proof (induction xs arbitrary: n)
  case (Cons x xs)
  then obtain m where m: "n = Suc m" by (cases n) auto
  show ?case
  proof (cases xs)
    case Nil
    with Cons.prems m readsD [of x m "CHR '']'' # r"] show ?thesis by simp
  next
    case (Cons y ys)
    let ?rest = "join_strings '', '' (map json_dumps xs)"
    have join: "join_strings '', '' (map json_dumps (x # xs)) = json_dumps x @ '', '' @ ?rest" by (simp add: Cons)
    have "pval m (json_dumps x @ CHR '','' # CHR '' '' # ?rest @ CHR '']'' # r) = Some (x, CHR '','' # CHR '' '' # ?rest @ CHR '']'' # r)"
      using Cons.prems m join by (intro readsD) auto
    moreover have "skip_ws (?rest @ CHR '']'' # r) = ?rest @ CHR '']'' # r"
      using Cons by (cases ys) simp_all
    moreover have "pitems m (?rest @ CHR '']'' # r) = Some (xs, r)"
      by (rule Cons.IH) (use Cons.prems m join Cons in auto)
    ultimately show ?thesis unfolding join m by simp
  qed
qed simp

abbreviation member_text :: "string \<times> json \<Rightarrow> string" where
  "member_text \<equiv> (\<lambda>(k, v). json_string k @ '': '' @ json_dumps v)"

lemma member_parts: "member_text (k, v) @ r = char_of (34 :: nat) # concat (map json_char k) @ char_of (34 :: nat) # CHR '':'' # CHR '' '' # json_dumps v @ r"
  by (simp add: json_string_def)

lemma pmembers_dumps:
  "\<forall>kv \<in> set d. reads (snd kv) \<Longrightarrow> d \<noteq> [] \<Longrightarrow> length (join_strings '', '' (map member_text d)) < n \<Longrightarrow>
    pmembers n (join_strings '', '' (map member_text d) @ CHR ''}'' # r) = Some (d, r)"
proof (induction d arbitrary: n)
  case (Cons kv d)
  then obtain m where m: "n = Suc m" by (cases n) auto
  obtain k v where kv: "kv = (k, v)" by fastforce
  have head: "pmembers (Suc m) (member_text (k, v) @ s) = (case s of [] \<Rightarrow> None | c # s' \<Rightarrow>
      if c = CHR ''}'' then Some ([(k, v)], s') else map_option (apfst (Cons (k, v))) (pmembers m (skip_ws s')))"
    if "s = CHR ''}'' # s1 \<or> s = CHR '','' # s1" "length (json_dumps v) \<le> m" for s s1
  proof -
    have "stops s" using that(1) by auto
    with readsD [of v m s] Cons.prems(1) kv that(2) have "pval m (json_dumps v @ s) = Some (v, s)" by simp
    with that(1) show ?thesis unfolding member_parts by (auto simp: parse_json_string)
  qed
  show ?case
  proof (cases d)
    case Nil
    have "length (json_dumps v) \<le> m" using Cons.prems(3) Nil kv m by simp
    with head [of "CHR ''}'' # r" r] show ?thesis unfolding m by (simp add: Nil kv del: pmembers.simps)
  next
    case (Cons y ys)
    let ?rest = "join_strings '', '' (map member_text d)"
    have join: "join_strings '', '' (map member_text (kv # d)) = member_text (k, v) @ '', '' @ ?rest" by (simp add: Cons kv)
    have "length (json_dumps v) \<le> m" using Cons.prems(3) m join by simp
    from head [OF disjI2 [OF refl] this]
    have "pmembers (Suc m) (member_text (k, v) @ CHR '','' # CHR '' '' # ?rest @ CHR ''}'' # r)
        = map_option (apfst (Cons (k, v))) (pmembers m (skip_ws (?rest @ CHR ''}'' # r)))" by (simp del: pmembers.simps)
    moreover have "skip_ws (?rest @ CHR ''}'' # r) = ?rest @ CHR ''}'' # r"
      using Cons by (cases ys; cases y) (simp_all add: json_string_def)
    moreover have "pmembers m (?rest @ CHR ''}'' # r) = Some (d, r)"
      by (rule Cons.IH) (use Cons.prems m join Cons in auto)
    ultimately show ?thesis unfolding join m by (simp add: kv del: pmembers.simps)
  qed
qed simp

text \<open>Python dictionaries have distinct keys.\<close>

fun proper_json :: "json \<Rightarrow> bool" where
  "proper_json (JList xs) = (\<forall>x \<in> set xs. proper_json x)"
| "proper_json (JObj d) = (distinct (map fst d) \<and> (\<forall>kv \<in> set d. proper_json (snd kv)))"
| "proper_json _ = True"

lemma dict_of_distinct: "distinct (map fst d) \<Longrightarrow> dict_of d = d"
proof (induction d rule: rev_induct)
  case (snoc kv d)
  obtain k v where kv: "kv = (k, v)" by fastforce
  have "AList.update k v d = d @ [(k, v)]" if "k \<notin> fst ` set d" for d :: "(string \<times> json) list"
    using that by (induction d) auto
  with snoc kv show ?case by (simp add: dict_of_def)
qed (simp add: dict_of_def)

lemma pval_open:
  "skip_ws t = t \<Longrightarrow> take 1 t \<noteq> '']'' \<Longrightarrow> pval (Suc m) (CHR ''['' # t) = map_option (apfst JList) (pitems m t)"
  "skip_ws t = t \<Longrightarrow> take 1 t \<noteq> ''}'' \<Longrightarrow> pval (Suc m) (CHR ''{'' # t) = map_option (apfst (JObj \<circ> dict_of)) (pmembers m t)"
  by simp_all

lemma pval_number:
  "c \<notin> {CHR ''['', CHR ''{'', CHR ''n'', CHR ''t'', CHR ''f''} \<Longrightarrow> of_char c \<noteq> (34 :: nat) \<Longrightarrow>
    pval (Suc m) (c # t) = parse_number (c # t)"
  by simp

lemma proper_reads: "proper_json j \<Longrightarrow> reads j"
proof (induction j)
  case (JList xs)
  show ?case unfolding reads_def
  proof (intro allI impI)
    fix n r
    assume n: "length (json_dumps (JList xs)) \<le> n" "stops r"
    then obtain m where m: "n = Suc m" by (cases n) auto
    show "pval n (json_dumps (JList xs) @ r) = Some (JList xs, r)"
    proof (cases xs)
      case Nil
      then show ?thesis by (simp add: m)
    next
      case (Cons y ys)
      let ?t = "join_strings '', '' (map json_dumps xs) @ CHR '']'' # r"
      have p: "pitems m ?t = Some (xs, r)" by (rule pitems_dumps) (use JList n m Cons in auto)
      obtain t where "?t = json_dumps y @ t" using Cons by (cases ys) auto
      then have sk: "skip_ws ?t = ?t" "take 1 ?t \<noteq> '']''" by (simp_all only: skip_dumps not_False_eq_True)
      have "pval n (CHR ''['' # ?t) = Some (JList xs, r)" unfolding m pval_open(1) [OF sk] p by simp
      then show ?thesis by simp
    qed
  qed
next
  case (JObj d)
  show ?case unfolding reads_def
  proof (intro allI impI)
    fix n r
    assume n: "length (json_dumps (JObj d)) \<le> n" "stops r"
    then obtain m where m: "n = Suc m" by (cases n) auto
    show "pval n (json_dumps (JObj d) @ r) = Some (JObj d, r)"
    proof (cases d)
      case Nil
      then show ?thesis by (simp add: m)
    next
      case (Cons y ys)
      let ?t = "join_strings '', '' (map member_text d) @ CHR ''}'' # r"
      have p: "pmembers m ?t = Some (d, r)"
        by (rule pmembers_dumps) (use JObj n m Cons in \<open>auto simp: snds.simps\<close>)
      obtain t where "?t = char_of (34 :: nat) # t" using Cons by (cases ys; cases y) (auto simp: json_string_def)
      then have sk: "skip_ws ?t = ?t" "take 1 ?t \<noteq> ''}''"
        by (simp_all only: skip_ws_simps take_Suc_Cons One_nat_def) (auto dest: arg_cong [of _ _ "of_char :: char \<Rightarrow> nat"])
      have "pval n (CHR ''{'' # ?t) = Some (JObj (dict_of d), r)" unfolding m pval_open(2) [OF sk] p by simp
      then show ?thesis using JObj.prems by (simp add: dict_of_distinct)
    qed
  qed
next
  case (JInt i)
  have "\<exists>c cs. int_str i = c # cs \<and> (is_digit c \<or> c = CHR ''-'')"
    using nat_str_digits [of "nat i"] by (cases "nat_str (nat i)") (auto simp: int_str_def)
  then obtain c cs where c: "int_str i = c # cs" "is_digit c \<or> c = CHR ''-''" by blast
  then have "pval (Suc m) (int_str i @ r) = parse_number (int_str i @ r)" for m r
    by (simp only: c append.simps, intro pval_number) (auto simp: is_digit_def)
  note number = this
  show ?case unfolding reads_def
  proof (intro allI impI)
    fix n r
    assume n: "length (json_dumps (JInt i)) \<le> n" "stops r"
    with c(1) obtain m where "n = Suc m" by (cases n) auto
    with number parse_int_str [OF n(2)] show "pval n (json_dumps (JInt i) @ r) = Some (JInt i, r)" by (simp only: json_dumps.simps)
  qed
next
  case (JStr s)
  have "pval (Suc m) (json_dumps (JStr s) @ r) = Some (JStr s, r)" for m r by (simp add: json_string_def parse_json_string)
  then show ?case by (auto simp: reads_def json_string_def gr0_conv_Suc Suc_le_eq dest!: Suc_le_D less_imp_Suc_add
    simp del: pval.simps)
next
  case (JBool b)
  then show ?case by (auto simp: reads_def numeral_eq_Suc dest!: Suc_le_D)
next
  case JNull
  then show ?case by (auto simp: reads_def numeral_eq_Suc dest!: Suc_le_D)
qed

lemma json_loads_dumps: "proper_json j \<Longrightarrow> json_loads (json_dumps j) = Some j"
proof -
  assume "proper_json j"
  then have "pval (length (json_dumps j)) (json_dumps j @ []) = Some (j, [])" by (intro readsD proper_reads) simp_all
  then show ?thesis using skip_dumps(1) [of j "[]"] by (simp add: json_loads_def)
qed

end
