(* ===== verification/Client_V10.thy ===== *)
theory Client_V10
  imports Json_Text Jsonrpc_V10 Event_Bus_Redis
begin

text \<open>
  The client's JSON-RPC transport for version 1.0 (\<^verbatim>\<open>client/transport/jsonrpc_v10.py\<close>, \<^verbatim>\<open>client/errors.py\<close>): what it makes of an
  answer and of an event stream. The HTTP library delivers the status, the text and the lines of the text; pydantic validation is
  the loading half of the codec. Exceptions outside the client's own classes are \<open>Unhandled\<close>. The further conversion of the decoded objects to the v0.3 classes is not modelled.
\<close>

section \<open>Errors\<close>

datatype client_error =
    Client_TaskNotFoundError string
  | Client_TaskNotCancelableError string
  | Client_TaskTerminalError string
  | A2AClientError string
  | ProtocolError string
  | ProtocolVersionMismatchError string
  | Unhandled string

fun contains :: "string \<Rightarrow> string \<Rightarrow> bool" where
  "contains x [] = (x = [])"
| "contains x (c # cs) = (take (length x) (c # cs) = x \<or> contains x cs)"

fun ends_with :: "string \<Rightarrow> string \<Rightarrow> bool" where
  "ends_with x s = (drop (length s - length x) s = x)"

definition get_str :: "string \<Rightarrow> string \<Rightarrow> mdict \<Rightarrow> string" where
  "get_str k dflt d = (case map_of d k of None \<Rightarrow> dflt | Some j \<Rightarrow> json_str j)"

text \<open>The loop over the details: a type that is not a string has no \<^verbatim>\<open>endswith\<close>.\<close>

fun first_reason :: "json list \<Rightarrow> client_error + string" where
  "first_reason [] = Inr ''''"
| "first_reason (JObj info # rest) = (case map_of info ''@type'' of
      None \<Rightarrow> first_reason rest
    | Some (JStr t) \<Rightarrow> if ends_with ''google.rpc.ErrorInfo'' t then Inr (get_str ''reason'' '''' info) else first_reason rest
    | Some _ \<Rightarrow> Inl (Unhandled ''AttributeError''))"
| "first_reason (_ # rest) = first_reason rest"

text \<open>Iterating over an object or a string gives strings, which are skipped; a number cannot be iterated.\<close>

definition reason_from_error :: "mdict \<Rightarrow> client_error + string" where
  "reason_from_error err = (case map_of err ''data'' of
      Some (JList xs) \<Rightarrow> first_reason xs
    | Some (JInt i) \<Rightarrow> if i = 0 then Inr '''' else Inl (Unhandled ''TypeError'')
    | Some (JBool b) \<Rightarrow> if b then Inl (Unhandled ''TypeError'') else Inr ''''
    | _ \<Rightarrow> Inr '''')"

definition exc_from_reason :: "string \<Rightarrow> string \<Rightarrow> string \<Rightarrow> client_error" where
  "exc_from_reason rsn tid msg =
     (if rsn = ''TASK_NOT_FOUND'' then Client_TaskNotFoundError tid
      else if rsn = ''TASK_NOT_CANCELABLE'' then Client_TaskNotCancelableError tid
      else if rsn = ''TASK_TERMINAL_STATE'' then Client_TaskTerminalError tid
      else A2AClientError (non_empty msg rsn))"

definition raise_error :: "mdict \<Rightarrow> string option \<Rightarrow> client_error" where
  "raise_error err task_id = (case reason_from_error err of
      Inl e \<Rightarrow> e
    | Inr rsn \<Rightarrow>
        (let msg = get_str ''message'' ''Unknown error'' err; tid = or_else task_id ''unknown'' in
         if contains ''Unsupported A2A version'' msg then ProtocolVersionMismatchError msg
         else if rsn \<noteq> '''' then exc_from_reason rsn tid msg
         else if map_of err ''code'' = Some (JInt (-32001)) then Client_TaskNotFoundError tid
         else ProtocolError (''JSON-RPC error '' @ get_str ''code'' ''0'' err @ '': '' @ msg)))"

text \<open>\<open>None\<close> is the result \<^verbatim>\<open>None\<close>. An \<^verbatim>\<open>error\<close> that is not an object has no \<^verbatim>\<open>get\<close>.\<close>

definition handle_response :: "mdict \<Rightarrow> string option \<Rightarrow> client_error + json option" where
  "handle_response data task_id = (case map_of data ''error'' of
      Some (JObj err) \<Rightarrow> Inl (raise_error err task_id)
    | Some _ \<Rightarrow> Inl (Unhandled ''AttributeError'')
    | None \<Rightarrow> Inr (map_of data ''result''))"

section \<open>Calls\<close>

text \<open>What the HTTP library gives for a request: its own exception, by its text, or an answer.\<close>

record http_reply =
  hr_status :: int
  hr_content_type :: string
  hr_text :: string

definition is_success :: "http_reply \<Rightarrow> bool" where
  "is_success r \<longleftrightarrow> 200 \<le> hr_status r \<and> hr_status r < 300"

definition http_error :: "http_reply \<Rightarrow> client_error" where
  "http_error r = ProtocolError (''HTTP '' @ int_str (hr_status r) @ '': '' @ hr_text r)"

definition handle_json :: "json \<Rightarrow> string option \<Rightarrow> client_error + json option" where
  "handle_json j task_id = (case j of JObj data \<Rightarrow> handle_response data task_id | _ \<Rightarrow> Inl (Unhandled ''TypeError''))"

definition client_call :: "string + http_reply \<Rightarrow> string option \<Rightarrow> client_error + json option" where
  "client_call answer task_id = (case answer of
      Inl exc \<Rightarrow> Inl (ProtocolError (''Request failed: '' @ exc))
    | Inr r \<Rightarrow>
        if \<not> is_success r then
          Inl (if hr_status r = 400 \<and> contains ''Unsupported A2A version'' (hr_text r)
               then ProtocolVersionMismatchError (hr_text r) else http_error r)
        else case json_loads (hr_text r) of
            None \<Rightarrow> Inl (ProtocolError ''Invalid JSON response'')
          | Some j \<Rightarrow> handle_json j task_id)"

datatype client_event = Status_event status_event | Artifact_event artifact_event | Task_event task | Message_event message

definition validated :: "('a \<Rightarrow> client_event) \<Rightarrow> exn + 'a \<Rightarrow> client_error + client_event" where
  "validated f x = map_sum (\<lambda>e. Unhandled (exn_str e)) f x"

definition client_send_message :: "json event_codec \<Rightarrow> string + http_reply \<Rightarrow> client_error + client_event" where
  "client_send_message ec answer = (case client_call answer None of
      Inl e \<Rightarrow> Inl e
    | Inr (Some (JObj r)) \<Rightarrow>
        (case map_of r ''task'' of Some j \<Rightarrow> validated Task_event (load_task_json ec j)
         | None \<Rightarrow> (case map_of r ''message'' of Some j \<Rightarrow> validated Message_event (load_message ec j)
             | None \<Rightarrow> Inl (ProtocolError ''SendMessageResponse missing task/message'')))
    | Inr _ \<Rightarrow> Inl (ProtocolError ''Unexpected result shape''))"

text \<open>\<^verbatim>\<open>get_task\<close> and \<^verbatim>\<open>cancel_task\<close> read their answers the same way.\<close>

definition client_task_result :: "json event_codec \<Rightarrow> string \<Rightarrow> string + http_reply \<Rightarrow> client_error + client_event" where
  "client_task_result ec task_id answer = (case client_call answer (Some task_id) of
      Inl e \<Rightarrow> Inl e
    | Inr result \<Rightarrow> validated Task_event (load_task_json ec (case result of None \<Rightarrow> JNull | Some j \<Rightarrow> j)))"

section \<open>Event streams\<close>

text \<open>Decoding one payload; the first error ends the stream.\<close>

definition decode_raw :: "json event_codec \<Rightarrow> mdict \<Rightarrow> client_error + client_event" where
  "decode_raw ec raw =
     (if map_of raw ''taskStatusUpdate'' \<noteq> None then validated Status_event (load_status ec (the (map_of raw ''taskStatusUpdate'')))
      else if map_of raw ''taskArtifactUpdate'' \<noteq> None
      then validated Artifact_event (load_artifact ec (the (map_of raw ''taskArtifactUpdate'')))
      else if map_of raw ''task'' \<noteq> None then validated Task_event (load_task_json ec (the (map_of raw ''task'')))
      else if map_of raw ''message'' \<noteq> None then validated Message_event (load_message ec (the (map_of raw ''message'')))
      else if map_of raw ''status'' \<noteq> None \<and> map_of raw ''id'' \<noteq> None then validated Task_event (load_task_json ec (JObj raw))
      else if map_of raw ''role'' \<noteq> None \<and> map_of raw ''parts'' \<noteq> None then validated Message_event (load_message ec (JObj raw))
      else Inl (ProtocolError ''Unknown v1.0 JSON-RPC SSE event shape''))"

definition decode_sse_payload :: "json event_codec \<Rightarrow> string option \<Rightarrow> string \<Rightarrow> client_error + client_event" where
  "decode_sse_payload ec task_id payload = (case json_loads payload of
      None \<Rightarrow> Inl (ProtocolError ''Invalid JSON in SSE data'')
    | Some (JObj outer) \<Rightarrow>
        if map_of outer ''error'' \<noteq> None
        then (case handle_response outer task_id of Inl e \<Rightarrow> Inl e | Inr _ \<Rightarrow> Inl (ProtocolError ''''))
        else (case (case map_of outer ''result'' of None \<Rightarrow> JObj outer | Some r \<Rightarrow> r) of
            JObj raw \<Rightarrow> decode_raw ec raw
          | _ \<Rightarrow> Inl (ProtocolError ''Unexpected SSE payload''))
    | Some _ \<Rightarrow> Inl (ProtocolError ''Unexpected SSE payload''))"

definition truthy_text :: "string \<Rightarrow> string option" where
  "truthy_text s = (if s = '''' then None else Some s)"

text \<open>The loop over the lines, with the identifier and the data lines of the current block; the events yielded and the exception
  that ended the stream, if any.\<close>

fun sse_loop ::
  "(string \<Rightarrow> client_error + client_event) \<Rightarrow> string option \<Rightarrow> string list \<Rightarrow> string list \<Rightarrow>
   (client_event \<times> string option) list \<times> client_error option" where
  "sse_loop dec eid ds [] =
     (let payload = join_strings [newline] ds in
      if payload = '''' then ([], None)
      else case dec payload of Inl e \<Rightarrow> ([], Some e) | Inr ev \<Rightarrow> ([(ev, eid)], None))"
| "sse_loop dec eid ds (l # ls) =
     (let line = strip l in
      if take 3 line = ''id:'' then sse_loop dec (truthy_text (strip (drop 3 line))) ds ls
      else if take 5 line = ''data:'' then sse_loop dec eid (ds @ [strip (drop 5 line)]) ls
      else if line = '''' \<and> ds \<noteq> [] then
        (let payload = join_strings [newline] ds in
         if payload = '''' then sse_loop dec None [] ls
         else case dec payload of
             Inl e \<Rightarrow> ([], Some e)
           | Inr ev \<Rightarrow> apfst (Cons (ev, eid)) (sse_loop dec None [] ls))
      else sse_loop dec eid ds ls)"

definition client_sse_stream ::
  "(string \<Rightarrow> string list) \<Rightarrow> json event_codec \<Rightarrow> string option \<Rightarrow> http_reply \<Rightarrow>
   (client_event \<times> string option) list \<times> client_error option" where
  "client_sse_stream aiter_lines ec task_id r =
     (if \<not> is_success r then ([], Some (http_error r))
      else if \<not> contains ''text/event-stream'' (hr_content_type r) then
        (case json_loads (hr_text r) of
           None \<Rightarrow> ([], Some (ProtocolError (''Expected SSE stream, got '' @ hr_content_type r)))
         | Some j \<Rightarrow> (case handle_json j task_id of Inl e \<Rightarrow> ([], Some e) | Inr _ \<Rightarrow> ([], None)))
      else sse_loop (decode_sse_payload ec task_id) None [] (aiter_lines (hr_text r)))"

end
