(* ===== verification/Client_Properties.thy ===== *)
theory Client_Properties
  imports Client_V10
begin

text \<open>
  Server and client together: the events a server streams are the events the client yields, and the exceptions of the framework
  reach the client as its own exceptions.
\<close>

section \<open>The text of a stream\<close>

lemma join_chars: "c \<in> set (join_strings sep xs) \<Longrightarrow> c \<in> set sep \<or> (\<exists>x \<in> set xs. c \<in> set x)"
  by (induction sep xs rule: join_strings.induct) auto

definition printable :: "char \<Rightarrow> bool" where
  "printable c \<longleftrightarrow> 32 \<le> (of_char c :: nat) \<and> (of_char c :: nat) < 128"

lemma json_char_printable: "x \<in> set (json_char c) \<Longrightarrow> printable x"
proof -
  have hex: "printable (hex_digit d)" if "d < 16" for d
  proof -
    have "d = 0 \<or> d = 1 \<or> d = 2 \<or> d = 3 \<or> d = 4 \<or> d = 5 \<or> d = 6 \<or> d = 7 \<or> d = 8 \<or> d = 9 \<or> d = 10 \<or> d = 11 \<or> d = 12
      \<or> d = 13 \<or> d = 14 \<or> d = 15" using that by arith
    then show ?thesis by (elim disjE) (simp_all add: hex_digit_def printable_def)
  qed
  have "(of_char c :: nat) < 256" by simp
  then have "(of_char c :: nat) div 16 < 16" by (intro less_mult_imp_div_less) simp
  moreover have "(of_char c :: nat) mod 16 < 16" by simp
  ultimately show "x \<in> set (json_char c) \<Longrightarrow> printable x"
    using hex by (auto simp: json_char_def printable_def Let_def split: if_splits)
qed

lemma json_string_printable: "x \<in> set (json_string s) \<Longrightarrow> printable x"
  using json_char_printable by (auto simp: json_string_def printable_def)

lemma dumps_printable: "x \<in> set (json_dumps j) \<Longrightarrow> printable x"
proof (induction j arbitrary: x)
  case (JInt i)
  have "printable c" if "is_digit c" for c using that by (auto simp: is_digit_def printable_def)
  with JInt nat_str_digits show ?case by (auto simp: int_str_def printable_def split: if_splits)
next
  case (JStr s)
  then show ?case by (simp add: json_string_printable)
next
  case (JList xs)
  then show ?case by (auto simp: printable_def dest!: join_chars)
next
  case (JObj d)
  have "printable c" if "c \<in> set (join_strings '', '' (map member_text d))" for c
    using join_chars [OF that]
  proof
    assume "\<exists>t \<in> set (map member_text d). c \<in> set t"
    then obtain k v where kv: "(k, v) \<in> set d" "c \<in> set (json_string k @ '': '' @ json_dumps v)" by auto
    then show ?thesis
      using JObj.IH [of "(k, v)" v c] json_string_printable [of c k] by (auto simp: printable_def snds.simps)
  qed (auto simp: printable_def)
  with JObj.prems show ?case by (auto simp: printable_def)
qed (auto simp: printable_def split: if_splits)

section \<open>Lines\<close>

definition line_break :: "char \<Rightarrow> bool" where
  "line_break c \<longleftrightarrow> (of_char c :: nat) \<in> {10, 11, 12, 13, 28, 29, 30, 133}"

text \<open>What the HTTP library documents for its line iterator, on lines that end in a newline.\<close>

definition reads_lines :: "(string \<Rightarrow> string list) \<Rightarrow> bool" where
  "reads_lines rd \<longleftrightarrow> (\<forall>ls. (\<forall>l \<in> set ls. \<forall>c \<in> set l. \<not> line_break c) \<longrightarrow> rd (concat (map (\<lambda>l. l @ [newline]) ls)) = ls)"

definition id_ok :: "string option \<Rightarrow> bool" where
  "id_ok eid \<longleftrightarrow> (case eid of None \<Rightarrow> True | Some s \<Rightarrow> s \<noteq> '''' \<and> (\<forall>c \<in> set s. \<not> is_space c))"

definition frame_lines :: "string option \<times> string \<Rightarrow> string list" where
  "frame_lines x = [''id: '' @ or_else (fst x) '''', ''data: '' @ snd x, '''']"

lemma frame_text: "sse_frame eid p = concat (map (\<lambda>l. l @ [newline]) (frame_lines (eid, p)))"
  by (simp add: sse_frame_def frame_lines_def)

lemma strip_cons: "is_space c \<Longrightarrow> strip (c # s) = strip s"
  by (simp add: strip_def)

text \<open>One frame gives one event.\<close>

lemma sse_loop_frame:
  assumes id: "id_ok eid" and p: "p = CHR ''{'' # p1 @ [CHR ''}'']" and dec: "dec p = Inr ev"
  shows "sse_loop dec cur [] (frame_lines (eid, p) @ ls) = apfst (Cons (ev, eid)) (sse_loop dec None [] ls)"
proof -
  have data: "strip (''data: '' @ p) = ''data: '' @ p" by (rule strip_id) (simp_all add: p is_space_def)
  have body: "strip (CHR '' '' # p) = p"
    by (subst strip_cons, simp add: is_space_def, rule strip_id) (simp_all add: p is_space_def)
  have empty: "strip '''' = ''''" by (simp add: strip_def)
  have idline: "take 3 (strip (''id: '' @ or_else eid '''')) = ''id:'' \<and> truthy_text (strip (drop 3 (strip (''id: '' @ or_else eid '''')))) = eid"
  proof (cases eid)
    case None
    have "strip ''id: '' = ''id:''" by (simp add: strip_def is_space_def)
    then show ?thesis using empty by (simp add: None truthy_text_def)
  next
    case (Some s)
    with id have s: "s \<noteq> ''''" "\<not> is_space (hd s)" "\<not> is_space (last s)" by (simp_all add: id_ok_def)
    then have "strip (''id: '' @ s) = ''id: '' @ s" by (intro strip_id) (simp_all add: is_space_def)
    moreover have "strip (CHR '' '' # s) = s" using strip_id [OF s] by (subst strip_cons) (simp_all add: is_space_def)
    ultimately show ?thesis using s(1) by (simp add: Some truthy_text_def)
  qed
  show ?thesis
    using idline data body empty dec p
    by (simp add: frame_lines_def Let_def) 
qed

section \<open>From server to client\<close>

fun client_view :: "stream_event \<Rightarrow> client_event" where
  "client_view (TaskSnapshot t) = Task_event (sanitize_task_v10 t)"
| "client_view (MessageEvent m) = Message_event m"
| "client_view (DirectReply m) = Message_event m"
| "client_view (TaskStatusUpdateEvent e) = Status_event e"
| "client_view (TerminalMarker e) = Status_event e"
| "client_view (TaskArtifactUpdateEvent e) = Artifact_event e"

text \<open>What is assumed of pydantic, for an object that is sent: its dump has distinct keys and is loaded to the same object.\<close>

fun faithful :: "codec \<Rightarrow> json event_codec \<Rightarrow> stream_event \<Rightarrow> bool" where
  "faithful cd ec (TaskSnapshot t) = (proper_json (cd_task cd (sanitize_task_v10 t))
     \<and> load_task_json ec (cd_task cd (sanitize_task_v10 t)) = Inr (sanitize_task_v10 t))"
| "faithful cd ec (MessageEvent m) = (proper_json (cd_message cd m) \<and> load_message ec (cd_message cd m) = Inr m)"
| "faithful cd ec (DirectReply m) = (proper_json (cd_message cd m) \<and> load_message ec (cd_message cd m) = Inr m)"
| "faithful cd ec (TaskStatusUpdateEvent e) = (proper_json (cd_status_event cd e) \<and> load_status ec (cd_status_event cd e) = Inr e)"
| "faithful cd ec (TerminalMarker e) = (proper_json (cd_status_event cd e) \<and> load_status ec (cd_status_event cd e) = Inr e)"
| "faithful cd ec (TaskArtifactUpdateEvent e) = (proper_json (cd_artifact_event cd e)
     \<and> load_artifact ec (cd_artifact_event cd e) = Inr e)"

lemma wrap_proper: "faithful cd ec ev \<Longrightarrow> proper_json (JObj (fst (wrap_stream_event_v10 cd ev cache)))"
  by (cases ev) (auto simp: Let_def split: option.split)

lemma decode_wrapped: "faithful cd ec ev \<Longrightarrow> decode_raw ec (fst (wrap_stream_event_v10 cd ev cache)) = Inr (client_view ev)"
  by (cases ev) (auto simp: decode_raw_def validated_def Let_def split: option.split)

lemma decode_rpc_text:
  assumes "proper_json req_id" and "faithful cd ec ev"
  shows "decode_sse_payload ec tid (rpc_text req_id (fst (wrap_stream_event_v10 cd ev cache))) = Inr (client_view ev)"
proof -
  let ?j = "JObj [(''jsonrpc'', JStr ''2.0''), (''id'', req_id), (''result'', JObj (fst (wrap_stream_event_v10 cd ev cache)))]"
  have "proper_json ?j" using assms wrap_proper [OF assms(2), of cache] by simp
  then have "json_loads (json_dumps ?j) = Some ?j" by (rule json_loads_dumps)
  then show ?thesis using decode_wrapped [OF assms(2), of cache] by (simp add: decode_sse_payload_def rpc_text_def del: json_dumps.simps)
qed

text \<open>The events that are sent: the first in any case, then all but direct replies, up to a terminal marker.\<close>

fun sent_rest :: "(string option \<times> stream_event) list \<Rightarrow> (string option \<times> stream_event) list" where
  "sent_rest [] = []"
| "sent_rest (x # xs) = (if is_DirectReply (snd x) then sent_rest xs
     else x # (if is_TerminalMarker (snd x) then [] else sent_rest xs))"

fun sent :: "(string option \<times> stream_event) list \<Rightarrow> (string option \<times> stream_event) list" where
  "sent [] = []"
| "sent (x # xs) = x # sent_rest xs"

definition decodable :: "json \<Rightarrow> codec \<Rightarrow> json event_codec \<Rightarrow> string option \<Rightarrow> (string option \<times> stream_event) \<Rightarrow> string option \<times> string \<Rightarrow> bool" where
  "decodable req_id cd ec tid x y \<longleftrightarrow> fst y = fst x \<and> (\<exists>payload. snd y = rpc_text req_id payload)
     \<and> decode_sse_payload ec tid (snd y) = Inr (client_view (snd x))"

lemma sse_rest_decodable:
  assumes "proper_json req_id" and "\<forall>x \<in> set evs. faithful cd ec (snd x)"
  shows "list_all2 (decodable req_id cd ec tid) (sent_rest evs) (sse_rest (rpc_text req_id) cd cache evs)"
  using assms(2)
proof (induction evs arbitrary: cache)
  case (Cons x evs)
  obtain eid ev where x: "x = (eid, ev)" by fastforce
  obtain payload cache' where w: "wrap_stream_event_v10 cd ev cache = (payload, cache')" by fastforce
  have "decodable req_id cd ec tid (eid, ev) (eid, rpc_text req_id payload)"
    using decode_rpc_text [OF assms(1), of cd ec ev tid cache] Cons.prems w x by (auto simp: decodable_def)
  with Cons x w show ?case by auto
qed simp

lemma sse_events_decodable:
  assumes "proper_json req_id" and "\<forall>x \<in> set evs. faithful cd ec (snd x)"
  shows "list_all2 (decodable req_id cd ec tid) (sent evs) (sse_events (rpc_text req_id) cd evs)"
proof (cases evs)
  case (Cons x xs)
  obtain eid ev where x: "x = (eid, ev)" by fastforce
  obtain payload cache where w: "wrap_stream_event_v10 cd ev [] = (payload, cache)" by fastforce
  have "decodable req_id cd ec tid (eid, ev) (eid, rpc_text req_id payload)"
    using decode_rpc_text [OF assms(1), of cd ec ev tid "[]"] assms(2) w x Cons by (auto simp: decodable_def)
  then show ?thesis using sse_rest_decodable [OF assms(1), of xs cd ec tid cache] assms(2) Cons x w by simp
qed simp

lemma rpc_text_braces: "\<exists>p. rpc_text req_id payload = CHR ''{'' # p @ [CHR ''}'']"
proof -
  have "\<exists>p. json_dumps (JObj d) = CHR ''{'' # p @ [CHR ''}'']" for d by simp
  then show ?thesis unfolding rpc_text_def by blast
qed

lemma sse_loop_frames:
  assumes "list_all2 (decodable req_id cd ec tid) xs ys" and "\<forall>x \<in> set xs. id_ok (fst x)"
  shows "sse_loop (decode_sse_payload ec tid) None [] (concat (map frame_lines ys)) = (map (\<lambda>(eid, ev). (client_view ev, eid)) xs, None)"
  using assms
proof (induction rule: list_all2_induct)
  case (Cons x xs y ys)
  obtain eid ev where x: "x = (eid, ev)" by fastforce
  from Cons(1) x obtain payload where y: "y = (eid, rpc_text req_id payload)"
    "decode_sse_payload ec tid (rpc_text req_id payload) = Inr (client_view ev)" by (cases y) (auto simp: decodable_def)
  obtain p where p: "rpc_text req_id payload = CHR ''{'' # p @ [CHR ''}'']" using rpc_text_braces by blast
  have "id_ok eid" using Cons.prems x by simp
  from sse_loop_frame [where dec = "decode_sse_payload ec tid", OF this p y(2), of None "concat (map frame_lines ys)"] Cons x y(1) show ?case by simp
qed simp

lemma frame_lines_plain:
  assumes "id_ok (fst x)" and "snd x = rpc_text req_id payload" and "l \<in> set (frame_lines x)" and "c \<in> set l"
  shows "\<not> line_break c"
proof -
  have plain: "\<not> line_break c" if "printable c" for c using that by (auto simp: printable_def line_break_def)
  have "\<not> line_break c" if "c \<in> set (rpc_text req_id payload)" for c
    using that unfolding rpc_text_def by (intro plain dumps_printable)
  moreover have "\<not> line_break c" if "c \<in> set (or_else (fst x) '''')" for c
    using assms(1) that by (auto simp: id_ok_def or_else_def is_space_def line_break_def split: option.splits if_splits)
  moreover have "\<not> line_break c" if "c \<in> set ''id: '' \<union> set ''data: ''" for c using that by (auto simp: line_break_def)
  moreover have "c \<in> set ''id: '' \<union> set ''data: '' \<or> c \<in> set (or_else (fst x) '''') \<or> c \<in> set (rpc_text req_id payload)"
    using assms(3,4) unfolding frame_lines_def assms(2) [symmetric] by auto
  ultimately show ?thesis by blast
qed

definition sse_reply :: "string \<Rightarrow> http_reply" where
  "sse_reply s = \<lparr>hr_status = 200, hr_content_type = ''text/event-stream; charset=utf-8'', hr_text = s\<rparr>"

lemma sse_stream_reply:
  "client_sse_stream rd ec tid (sse_reply s) = sse_loop (decode_sse_payload ec tid) None [] (rd s)"
  by (simp add: client_sse_stream_def sse_reply_def is_success_def)

text \<open>Property C20: what the server streams is what the client yields. The frames of the events, as text through the HTTP library's
  line iterator, give back exactly the events that were sent, in order, each with its identifier and without the server's internal
  metadata, and the stream ends without an error.\<close>

theorem stream_reaches_client:
  assumes "reads_lines aiter_lines" and "proper_json req_id" and "\<forall>x \<in> set evs. faithful cd ec (snd x)" and "\<forall>x \<in> set evs. id_ok (fst x)"
    and "sse_gen cd req_id evs = RpcStream frames"
  shows "client_sse_stream aiter_lines ec tid (sse_reply (concat frames)) = (map (\<lambda>(eid, ev). (client_view ev, eid)) (sent evs), None)"
proof -
  let ?ys = "sse_events (rpc_text req_id) cd evs"
  have all2: "list_all2 (decodable req_id cd ec tid) (sent evs) ?ys" by (rule sse_events_decodable [OF assms(2,3)])
  have "set (sent_rest xs) \<subseteq> set xs" for xs by (induction xs) auto
  then have sub: "set (sent evs) \<subseteq> set evs" by (cases evs) auto
  have ys: "id_ok (fst y) \<and> (\<exists>payload. snd y = rpc_text req_id payload)" if "y \<in> set ?ys" for y
  proof -
    from that obtain i where i: "i < length ?ys" "y = ?ys ! i" by (auto simp: in_set_conv_nth)
    with all2 have "decodable req_id cd ec tid (sent evs ! i) y" "sent evs ! i \<in> set (sent evs)"
      by (auto simp: list_all2_conv_all_nth)
    with sub assms(4) show ?thesis by (auto simp: decodable_def)
  qed
  have frames: "concat frames = concat (map (\<lambda>l. l @ [newline]) (concat (map frame_lines ?ys)))"
  proof -
    have "frames = map (\<lambda>(eid, s). sse_frame eid s) ?ys" using assms(5) by (simp add: sse_gen_def)
    moreover have "concat (map (\<lambda>(eid, s). sse_frame eid s) ys) = concat (map (\<lambda>l. l @ [newline]) (concat (map frame_lines ys)))" for ys
      by (induction ys) (auto simp: frame_text)
    ultimately show ?thesis by simp
  qed
  have "\<not> line_break c" if "l \<in> set (concat (map frame_lines ?ys))" "c \<in> set l" for l c
  proof -
    from that(1) obtain y where y: "y \<in> set ?ys" "l \<in> set (frame_lines y)" by (auto simp only: set_concat set_map)
    with ys obtain payload where "id_ok (fst y)" "snd y = rpc_text req_id payload" by blast
    then show ?thesis by (rule frame_lines_plain [OF _ _ y(2) that(2)])
  qed
  then have "aiter_lines (concat frames) = concat (map frame_lines ?ys)"
    using assms(1) unfolding frames reads_lines_def by blast
  moreover have "\<forall>x \<in> set (sent evs). id_ok (fst x)" using sub assms(4) by blast
  ultimately show ?thesis
    using sse_loop_frames [OF all2] by (simp only: sse_stream_reply)
qed

text \<open>A line reader and a codec for two messages.\<close>

fun lines_from :: "string \<Rightarrow> string \<Rightarrow> string list" where
  "lines_from acc [] = (if acc = [] then [] else [acc])"
| "lines_from acc (c # cs) = (if c = newline then acc # lines_from [] cs else lines_from (acc @ [c]) cs)"

lemma lines_from_line: "newline \<notin> set l \<Longrightarrow> lines_from acc (l @ newline # s) = (acc @ l) # lines_from [] s"
  by (induction l arbitrary: acc) auto

lemma reads_lines_from: "reads_lines (lines_from [])"
  unfolding reads_lines_def
proof (intro allI impI)
  fix ls :: "string list"
  assume "\<forall>l \<in> set ls. \<forall>c \<in> set l. \<not> line_break c"
  then show "lines_from [] (concat (map (\<lambda>l. l @ [newline]) ls)) = ls"
  proof (induction ls)
    case (Cons l ls)
    have "line_break newline" by (simp add: line_break_def newline_def)
    with Cons.prems have "newline \<notin> set l" by auto
    then show ?case using Cons lines_from_line [of l "[]"] by simp
  qed simp
qed

definition wire_message :: "string \<Rightarrow> message" where
  "wire_message i = agent_message [] i ''t1'' None None"

definition wire_codec :: codec where
  "wire_codec = \<lparr>cd_task = (\<lambda>t. JNull), cd_message = (\<lambda>m. JObj [(''messageId'', JStr (m_message_id m))]),
     cd_status_event = (\<lambda>e. JNull), cd_artifact_event = (\<lambda>e. JNull), cd_list_result = (\<lambda>r. JNull), cd_push_config = (\<lambda>c. JNull)\<rparr>"

definition wire_loads :: "json event_codec" where
  "wire_loads = \<lparr>dump_message = cd_message wire_codec, dump_status = (\<lambda>_. JNull), dump_artifact = (\<lambda>_. JNull), dump_task = (\<lambda>_. JNull),
     load_message = (\<lambda>j. case j of JObj [(k, JStr i)] \<Rightarrow> Inr (wire_message i) | _ \<Rightarrow> Inl (ValueError [])),
     load_status = (\<lambda>_. Inl (ValueError [])), load_artifact = (\<lambda>_. Inl (ValueError [])), load_task_json = (\<lambda>_. Inl (ValueError []))\<rparr>"

lemma wire_faithful: "faithful wire_codec wire_loads (MessageEvent (wire_message i))"
  by (simp add: wire_codec_def wire_loads_def wire_message_def agent_message_def)

theorem stream_reaches_client_witness:
  "\<exists>frames. sse_gen wire_codec (JInt 1) [(Some ''1'', MessageEvent (wire_message ''a'')), (None, MessageEvent (wire_message ''b''))] = RpcStream frames
    \<and> client_sse_stream (lines_from []) wire_loads None (sse_reply (concat frames))
      = ([(Message_event (wire_message ''a''), Some ''1''), (Message_event (wire_message ''b''), None)], None)"
proof -
  let ?evs = "[(Some ''1'', MessageEvent (wire_message ''a'')), (None, MessageEvent (wire_message ''b''))]"
  obtain frames where f: "sse_gen wire_codec (JInt 1) ?evs = RpcStream frames" by (simp add: sse_gen_def)
  have "\<forall>x \<in> set ?evs. faithful wire_codec wire_loads (snd x)" using wire_faithful by simp
  moreover have "\<forall>x \<in> set ?evs. id_ok (fst x)" by (simp add: id_ok_def is_space_def)
  ultimately have "client_sse_stream (lines_from []) wire_loads None (sse_reply (concat frames))
      = (map (\<lambda>(eid, ev). (client_view ev, eid)) (sent ?evs), None)"
    using stream_reaches_client [OF reads_lines_from _ _ _ f, where ec = wire_loads and tid = None] by simp
  with f show ?thesis by simp
qed

section \<open>Exceptions from server to client\<close>

text \<open>The class of the client for an exception of the framework, about the task of the call.\<close>

definition answer_text :: "exn \<Rightarrow> string" where
  "answer_text e = (if uncataloged e then ''Internal error'' else non_empty (exn_str e) (default_message (descriptor_for e)))"

fun seen_as :: "exn \<Rightarrow> string \<Rightarrow> client_error" where
  "seen_as (TaskNotFoundError _) tid = Client_TaskNotFoundError tid"
| "seen_as (TaskNotCancelableError _) tid = Client_TaskNotCancelableError tid"
| "seen_as (TaskTerminalStateError _) tid = Client_TaskTerminalError tid"
| "seen_as e tid = A2AClientError (answer_text e)"

lemma reason_of_body: "reason_from_error [(''code'', c), (''message'', m), (''data'', JList [error_info rsn md])] = Inr rsn"
  by (simp add: reason_from_error_def error_info_def get_str_def)

lemma exc_from_descriptor: "exc_from_reason (reason (descriptor_for e)) tid (answer_text e) = seen_as e tid"
  by (cases e) (simp_all add: exc_from_reason_def descriptor_for_def answer_text_def uncataloged_def INTERNAL_ERROR_def non_empty_def)

lemma reason_not_empty: "reason (descriptor_for e) \<noteq> ''''"
  by (cases e) (simp_all add: descriptor_for_def INTERNAL_ERROR_def)

text \<open>Property C21: an exception the server answers with is the matching exception of the client. A missing task, a task that
  cannot be canceled and a finished task arrive as their own classes with the identifier of the call, any other exception as a
  client error with the server's text, which for an exception outside the catalog is only \<open>Internal error\<close>.\<close>

theorem exception_reaches_client:
  assumes "is_success r" and "json_loads (hr_text r) = Some (jsonrpc_error_from_exception e req_id)"
    and "\<not> contains ''Unsupported A2A version'' (answer_text e)"
  shows "client_call (Inr r) task_id = Inl (seen_as e (or_else task_id ''unknown''))"
proof -
  let ?err = "[(''code'', JInt (json_rpc_code (descriptor_for e))), (''message'', JStr (answer_text e)),
    (''data'', JList [error_info (reason (descriptor_for e)) (exn_metadata e)])]"
  have "jsonrpc_error_from_exception e req_id = JObj [(''jsonrpc'', JStr ''2.0''), (''id'', req_id), (''error'', JObj ?err)]"
    by (simp add: jsonrpc_error_from_exception_def jsonrpc_error_body_def answer_text_def INTERNAL_ERROR_def Let_def)
  with assms(1,2) have call: "client_call (Inr r) task_id = Inl (raise_error ?err task_id)"
    by (simp add: client_call_def handle_json_def handle_response_def)
  have msg: "get_str ''message'' ''Unknown error'' ?err = answer_text e" by (simp add: get_str_def)
  have "raise_error ?err task_id = exc_from_reason (reason (descriptor_for e)) (or_else task_id ''unknown'') (answer_text e)"
    using assms(3) reason_not_empty [of e] unfolding raise_error_def reason_of_body msg Let_def by simp
  then show ?thesis unfolding call exc_from_descriptor by simp
qed

theorem exception_reaches_client_witness:
  "client_call (Inr \<lparr>hr_status = 200, hr_content_type = ''application/json'',
      hr_text = json_dumps (jsonrpc_error_from_exception (TaskNotFoundError ''t1'') (JInt 1))\<rparr>) (Some ''t1'')
    = Inl (Client_TaskNotFoundError ''t1'')"
proof -
  let ?j = "jsonrpc_error_from_exception (TaskNotFoundError ''t1'') (JInt 1)"
  let ?r = "\<lparr>hr_status = 200, hr_content_type = ''application/json'', hr_text = json_dumps ?j\<rparr>"
  have "proper_json ?j"
    by (simp add: jsonrpc_error_from_exception_def jsonrpc_error_body_def error_info_def Let_def)
  then have "json_loads (hr_text ?r) = Some ?j" by (simp only: http_reply.simps json_loads_dumps)
  moreover have "is_success ?r" by (simp add: is_success_def)
  moreover have "\<not> contains ''Unsupported A2A version'' (answer_text (TaskNotFoundError ''t1''))"
    by (simp add: answer_text_def uncataloged_def non_empty_def)
  ultimately show ?thesis
    using exception_reaches_client [of ?r "TaskNotFoundError ''t1''" "JInt 1" "Some ''t1''"] by (simp add: or_else_def truthy_def)
qed

end
