(* ===== verification/Spec2Isabelle.thy ===== *)
theory Spec2Isabelle
  imports Manager_Properties Delivery_Properties Jsonrpc_Properties Sql_Properties Redis_Properties Redis_Broker_Properties Redis_Bus_Properties
    Client_Properties
begin

text \<open>
  A2AKIT: a server framework for agents that speak the A2A protocol.

  \<^bold>\<open>The program.\<close> A client sends a message. The task manager (\<^verbatim>\<open>task_manager.py\<close>) stores it as a task in
  the storage (\<^verbatim>\<open>storage/\<close>) and hands an operation to the broker (\<^verbatim>\<open>broker/\<close>). The worker adapter
  (\<^verbatim>\<open>worker/adapter.py\<close>) receives the operation, builds a context object (\<^verbatim>\<open>worker/context_factory.py\<close>) and runs
  the user's worker, which reports through the methods of its context (\<^verbatim>\<open>worker/base.py\<close>). Every write goes through a
  chain of event emitters (\<^verbatim>\<open>event_emitter.py\<close>, \<^verbatim>\<open>hooks.py\<close>, \<^verbatim>\<open>push/emitter.py\<close>,
  \<^verbatim>\<open>telemetry/_emitter.py\<close>) to the storage; every event goes through the event bus (\<^verbatim>\<open>event_bus/\<close>) to the clients
  that wait or stream. Cancellation is a flag in the cancel registry (\<^verbatim>\<open>broker/memory.py\<close>), seen by the adapter, with
  a timer of the task manager as a fallback; both end in \<^verbatim>\<open>cancel.py\<close>. All of these run concurrently and meet only in the
  storage, whose writes are guarded by versions (optimistic concurrency) and by the rule that a terminal state is final.
  Requests arrive through the JSON-RPC router (\<^verbatim>\<open>jsonrpc_v10.py\<close>) and its middleware (\<^verbatim>\<open>middleware/\<close>); changes of a task are also
  posted to webhooks (\<^verbatim>\<open>push/\<close>). Storage, broker and event bus have backends in memory, in SQL databases and in Redis. A client
  library (\<^verbatim>\<open>client/\<close>) reads what the router answers.

  \<^bold>\<open>Theories, in the order of import, and the code they model.\<close>

  \<^item> \<open>A2A_Prelude\<close>: an exception monad over a state (\<open>py\<close>: a result or an exception, and the new state),
    with \<open>tryE\<close>, \<open>catchE\<close>, \<open>finallyE\<close>, \<open>swallow\<close> for Python's \<^verbatim>\<open>try\<close> forms; weakest
    preconditions \<open>wp\<close>; dictionaries as association lists in insertion order; decimal strings; truthiness.
  \<^item> \<open>A2A_Types\<close>: task, message, part, artifact and status as records with the fields the code reads; states and
    roles as datatypes; the exceptions; the events of \<^verbatim>\<open>schema.py\<close>.
  \<^item> \<open>Push_Store\<close>: \<^verbatim>\<open>push/models.py\<close>, \<^verbatim>\<open>push/store.py\<close>; locale \<open>push_config_store\<close>, interpretation \<open>mem_push\<close>.
  \<^item> \<open>Storage_Base\<close>: the types and shared semantics of \<^verbatim>\<open>storage/base.py\<close>; \<open>apply_update\<close> is what one write
    does to a task. \<open>Storage_Contract\<close>: the abstract specification of a storage by a view (task id to task and version) and
    an index of idempotency keys, in three locales that extend one another: \<open>storage_writes\<close> (reads, updates, contexts; what the
    worker's side relies on), \<open>storage_core\<close> (and creation), \<open>storage_contract\<close> (and creation with a key that was used before;
    what the task manager relies on). \<open>Storage_Memory\<close>: \<^verbatim>\<open>storage/memory.py\<close>
    and its interpretation \<open>mem\<close>. \<open>Storage_Properties\<close>: what holds of the storage.
  \<^item> \<open>Event_Bus\<close>: \<^verbatim>\<open>event_bus/memory.py\<close>; \<open>Broker_Memory\<close>: \<^verbatim>\<open>broker/base.py\<close>, \<^verbatim>\<open>broker/memory.py\<close>, locale
    \<open>cancel_registry\<close> and its interpretation \<open>mem_cancel\<close>; \<open>Message_Parts\<close>: \<^verbatim>\<open>_parts.py\<close> and the part builder of
    \<^verbatim>\<open>worker/base.py\<close>.
  \<^item> \<open>Runtime\<close>: the state of the running system (record \<open>world\<close>: storage, bus, registry, broker, push store, metrics,
    context object, background coroutines, a trace of effects), what comes from outside (record \<open>env\<close>: clocks, fresh
    ids, faults of bus and broker), and the calls on it. Concurrency: before every storage call an arbitrary transformation of
    the storage by other coroutines may happen (\<open>w_interf\<close>); \<open>rely\<close> says these honour the contract, \<open>guar\<close> what a
    method guarantees to them, \<open>keeps\<close> that it does so on every path.
  \<^item> \<open>Emitters\<close>: the emitters as a datatype of decorators. \<open>Cancel_Task\<close>: \<^verbatim>\<open>cancel.py\<close>. \<open>Task_Context\<close>: the methods of
    \<^verbatim>\<open>TaskContextImpl\<close>. \<open>Context_Factory\<close>, \<open>Worker_Adapter\<close>: \<^verbatim>\<open>worker/context_factory.py\<close>,
    \<^verbatim>\<open>worker/adapter.py\<close>; a user worker is an arbitrary tree of context calls (\<open>worker_prog\<close>).
    \<open>Turn_Closes\<close>, \<open>Retries\<close>: liveness of a turn and of the queue. \<open>Turn_Properties\<close>: the properties of this side.
  \<^item> \<open>Task_Manager\<close>: \<^verbatim>\<open>task_manager.py\<close>; \<open>Manager_Laws\<close>: its weakest preconditions over the storage contract;
    \<open>Manager_Properties\<close>: its properties on the in-memory backend.

  \<^item> \<open>Storage_Sql\<close>: \<^verbatim>\<open>storage/_sql_base.py\<close>, \<^verbatim>\<open>storage/sqlite.py\<close>, \<^verbatim>\<open>storage/postgres.py\<close> as statements on tables, with
    other writers between the statements; \<open>Sql_Refinement\<close>: interpretation \<open>sqlite\<close> of \<open>storage_core\<close>. \<open>Storage_Redis\<close>:
    \<^verbatim>\<open>storage/redis.py\<close>; \<open>Redis_Refinement\<close>: interpretation \<open>redis\<close> of \<open>storage_writes\<close>. \<open>Storage_Agreement\<close>: locale
    \<open>two_storages\<close>, that backends with the same contract answer alike, and its interpretation \<open>mem_sqlite\<close>.
    \<open>Sql_Properties\<close>, \<open>Redis_Properties\<close>: the properties.
  \<^item> \<open>Broker_Redis\<close>: \<^verbatim>\<open>broker/redis.py\<close>, interpretation \<open>redis_cancel\<close> of \<open>cancel_registry\<close>; \<open>Redis_Broker_Laws\<close>: its steps,
    crashes included, and the account of the operations; \<open>Redis_Broker_Properties\<close>. \<open>Event_Bus_Redis\<close>: \<^verbatim>\<open>event_bus/redis.py\<close>,
    a subscription as a machine with one step per read; \<open>Redis_Bus_Properties\<close>.
  \<^item> \<open>Net_Address\<close>, \<open>Web_Url\<close>: the parts of Python's \<^verbatim>\<open>ipaddress\<close> and \<^verbatim>\<open>urllib.parse\<close> that the webhooks need.
    \<open>Push_Validation\<close>: \<^verbatim>\<open>push/validation.py\<close>; \<open>Push_Delivery\<close>: \<^verbatim>\<open>push/delivery.py\<close>, queues and workers as a step relation;
    \<open>Delivery_Properties\<close>. \<open>Push_Endpoints\<close>: \<^verbatim>\<open>push/endpoints.py\<close>.
  \<^item> \<open>Http_Common\<close>: helpers of \<^verbatim>\<open>endpoints.py\<close>. \<open>Errors_V10\<close>: \<^verbatim>\<open>_errors_v10.py\<close>. \<open>Middleware\<close>: \<^verbatim>\<open>middleware/\<close>, with any pair
    of hooks as user code; \<open>Middleware_Laws\<close>. \<open>Stream_V10\<close>: \<^verbatim>\<open>_stream_v10.py\<close>, \<^verbatim>\<open>json.dumps\<close> and the frames of a stream.
    \<open>Jsonrpc_V10\<close>: \<^verbatim>\<open>jsonrpc_v10.py\<close>, from the body to the reply; \<open>Jsonrpc_Laws\<close>, \<open>Jsonrpc_Properties\<close>.
  \<^item> \<open>Json_Text\<close>: \<^verbatim>\<open>json.loads\<close>, and that it reads what \<^verbatim>\<open>json.dumps\<close> wrote. \<open>Client_V10\<close>: the reading half of
    \<^verbatim>\<open>client/transport/jsonrpc_v10.py\<close>; \<open>Client_Properties\<close>: server and client together.

  \<^bold>\<open>What is shown.\<close> The storage implements its reference semantics, a task's life is monotone, paging is complete, creation
  is idempotent. Under arbitrary interference every method of the context, the adapter and the background coroutines keep the
  storage invariant and announce only states that were stored before; artifacts are neither lost nor repeated. Without
  interference a turn always closes and cancellation settles. The queue drains and retries are bounded. Of two racing
  follow-ups one is refused; retried submissions run once. A reconnecting client receives each event exactly once.

  An update in SQL or Redis that races with other writers is the contract's atomic update at one moment, or raises and has
  written nothing; SQLite answers every sequence of calls as the memory backend does. The Redis broker loses no operation and
  stops handing out one that fails too often, a cancellation is not missed by a scope that starts while it is requested, and the
  Redis bus delivers exactly once. The router answers every body with a reply of the right shape, a refused request has no effect,
  and the hooks of middleware come in pairs. Webhooks go only to hosts that the policy admits and in the order of the changes.
  What the server streams or raises, the client yields or raises.

  Theorems also record where the code falls short of its contract: PostgreSQL has no room for two of the task states, the Redis
  storage confuses idempotency keys of different contexts that have the same concatenation, and a repeated streaming request registers its webhook again.

  \<^bold>\<open>Bounds and fuel.\<close> \<open>drain\<close> handles queued operations with fuel; \<open>queue_work\<close> computes from the attempts left
  an amount that is proved sufficient. \<open>walk_pages\<close> follows page tokens with fuel; the length of the selection is
  sufficient. The update loops of the SQL and Redis backends make the 8 attempts of the source. \<open>json_loads\<close> recurses with fuel, the
  length of the text, which \<open>json_loads_dumps\<close> shows to be enough for every text that was printed. All other
  recursions are structural or by a measure. Python integers are unbounded and are \<open>int\<close>; addresses are words of 32 and 128 bits.

  \<^bold>\<open>Not modelled.\<close> The REST routes and the JSON-RPC binding of version 0.3 (registrations around the same calls of the task
  manager), the assembly of the server, its settings, agent cards and signatures, spans and instruments, the other transports of the client
  and its requests. Connections, subscriptions of channels, waiting and the expiry of keys and streams of the database servers; what
  a server may trim, enumerate or claim is a parameter. The types of \<^verbatim>\<open>a2a_pydantic\<close> are records; its validation and dumps are
  parameters and its coercions between dictionaries and protobuf structs are not modelled. The semaphores of the
  adapter and of the delivery service and the optional task lock are not modelled. Time passes only through the supplies of
  \<open>env\<close>; a blocking wait that times out is one whose list of received events ends.
\<close>

end
